(* ===== verification/Prelude.thy ===== *)
theory Prelude
  imports
    Main
    "HOL-Library.Word"
    "HOL-Library.Char_ord"
    "HOL-Library.List_Lexorder"
    "HOL-Library.AList"
    "HOL-Library.Multiset"
    "HOL-Library.Sublist"
begin

text \<open>
  Shared vocabulary of the development: the machine types of the Go sources, Go maps,
  big-endian byte encodings, and the generic lemmas that the component theories use.

  \<^item> \<^verbatim>\<open>uint64\<close> (and the named types \<^verbatim>\<open>Height\<close>, \<^verbatim>\<open>Round\<close>, \<^verbatim>\<open>VotingPower\<close> over it) is a 64-bit word:
    addition wraps around as in Go.
  \<^item> \<^verbatim>\<open>string\<close> and \<^verbatim>\<open>[]byte\<close> are both byte sequences; both are lists of \<^typ>\<open>char\<close>, a type with
    exactly 256 values.  Go compares strings and byte slices lexicographically by byte, which is the
    order of \<open>List_Lexorder\<close> over \<open>Char_ord\<close>.
  \<^item> \<^verbatim>\<open>[32]byte\<close> (\<^verbatim>\<open>types.Hash\<close>) is a 256-bit word, the big-endian value of the array; the zero
    value of the array is the word 0 and \<^verbatim>\<open>bytes.Compare\<close> is the order of the words.
  \<^item> A Go map that the code ranges over is an association list with distinct keys, whose order
    stands for the (unspecified) iteration order; lookups are \<^const>\<open>map_of\<close> and stores are
    \<^const>\<open>AList.update\<close>.
  \<^item> A context argument is \<open>None\<close> when the context is live and \<open>Some e\<close> when \<^verbatim>\<open>ctx.Done()\<close> is
    closed with error \<open>e\<close>.  It is sampled once per call.
\<close>

section \<open>Types\<close>

type_synonym u8 = "8 word"
type_synonym u32 = "32 word"
type_synonym u64 = "64 word"
type_synonym bytes = string
type_synonym hash = "256 word"
type_synonym ('k, 'v) gomap = "('k \<times> 'v) list"

datatype ctx_error = ContextCanceled | ContextDeadlineExceeded

type_synonym ctx = "ctx_error option"

abbreviation zero_hash :: hash where
  "zero_hash \<equiv> 0"

abbreviation max_u64 :: u64 where
  "max_u64 \<equiv> - 1"

named_theorems component_defs \<open>unfolding equations of the component definitions\<close>
named_theorems map_simps \<open>lookup and domain facts of Go maps\<close>
named_theorems word_nat \<open>transfer of word arithmetic to natural numbers\<close>

section \<open>Big-endian encodings\<close>

text \<open>\<^verbatim>\<open>binary.BigEndian.PutUint64\<close> and the bytes of a \<^verbatim>\<open>[32]byte\<close> hash.\<close>

primrec be_bytes :: "nat \<Rightarrow> nat \<Rightarrow> bytes" where
  "be_bytes 0 n = []"
| "be_bytes (Suc k) n = be_bytes k (n div 256) @ [char_of n]"

definition be_nat :: "bytes \<Rightarrow> nat" where
  "be_nat bs = foldl (\<lambda>a c. a * 256 + of_char c) 0 bs"

definition be64 :: "u64 \<Rightarrow> bytes" where
  "be64 v = be_bytes 8 (unat v)"

definition hash_bytes :: "hash \<Rightarrow> bytes" where
  "hash_bytes h = be_bytes 32 (unat h)"

lemma length_be_bytes [simp]: "length (be_bytes k n) = k"
  by (induction k arbitrary: n) auto

lemma length_be64 [simp]: "length (be64 v) = 8"
  by (simp add: be64_def)

lemma length_hash_bytes [simp]: "length (hash_bytes h) = 32"
  by (simp add: hash_bytes_def)

lemma be_nat_Nil [simp]: "be_nat [] = 0"
  by (simp add: be_nat_def)

lemma be_nat_snoc [simp]: "be_nat (bs @ [c]) = be_nat bs * 256 + of_char c"
  by (simp add: be_nat_def)

lemma be_nat_less: "be_nat bs < 256 ^ length bs"
proof (induction bs rule: rev_induct)
  case (snoc c bs)
  have "(of_char c :: nat) < 256"
    by simp
  with snoc have "be_nat bs * 256 + of_char c < 256 * 256 ^ length bs"
    by linarith
  then show ?case
    by simp
qed simp

lemma be_nat_be_bytes [simp]: "be_nat (be_bytes k n) = n mod 256 ^ k"
proof (induction k arbitrary: n)
  case (Suc k)
  have "(n div 256) mod 256 ^ k * 256 + n mod 256 = n mod (256 * 256 ^ k)"
    by (subst mod_mult2_eq) simp
  with Suc show ?case
    by simp
qed simp

lemma be_bytes_inj:
  assumes "n < 256 ^ k" and "m < 256 ^ k"
  shows "be_bytes k n = be_bytes k m \<longleftrightarrow> n = m"
  by (metis assms be_nat_be_bytes mod_less)

lemma unat_lt_u64: "unat (v :: u64) < 256 ^ 8"
  using unsigned_less [of v, where ?'a = nat] by simp

lemma unat_lt_hash: "unat (h :: hash) < 256 ^ 32"
  using unsigned_less [of h, where ?'a = nat] by simp

lemma be64_inj [simp]: "be64 v = be64 w \<longleftrightarrow> v = w"
  using be_bytes_inj [OF unat_lt_u64 unat_lt_u64] by (auto simp: be64_def word_unat_eq_iff)

lemma hash_bytes_inj [simp]: "hash_bytes g = hash_bytes h \<longleftrightarrow> g = h"
  using be_bytes_inj [OF unat_lt_hash unat_lt_hash] by (auto simp: hash_bytes_def word_unat_eq_iff)

text \<open>Fixed-width fields at the front or at the back of a message can be peeled off.\<close>

lemma be64_append_inj [simp]: "be64 v @ xs = be64 w @ ys \<longleftrightarrow> v = w \<and> xs = ys"
  by (auto dest: append_eq_append_conv [THEN iffD1, rotated])

lemma hash_bytes_append_inj [simp]: "hash_bytes g @ xs = hash_bytes h @ ys \<longleftrightarrow> g = h \<and> xs = ys"
  by (auto dest: append_eq_append_conv [THEN iffD1, rotated])

lemma append_suffix_inj:
  assumes "xs @ us = ys @ vs" and "length us = length vs"
  shows "xs = ys \<and> us = vs"
  using assms append_eq_append_conv by blast

lemma u64_of_length_inj:
  assumes "length xs < 2 ^ 64" and "length ys < 2 ^ 64"
  shows "(word_of_nat (length xs) :: u64) = word_of_nat (length ys) \<longleftrightarrow> length xs = length ys"
  using assms by (simp add: word_of_nat_eq_iff take_bit_nat_eq_self)

section \<open>Go maps\<close>

lemma update_append_absent [map_simps]:
  "k \<notin> fst ` set m \<Longrightarrow> AList.update k v m = m @ [(k, v)]"
  by (induction m) auto

lemma update_set_cases:
  "(j, w) \<in> set (AList.update k v m) \<Longrightarrow> (j, w) = (k, v) \<or> (j, w) \<in> set m"
  by (induction m) (auto split: if_splits)

lemma distinct_delete: "distinct (map fst m) \<Longrightarrow> distinct (map fst (AList.delete k m))"
  by (simp add: AList.delete_eq distinct_map_filter)

section \<open>Word arithmetic without wrap-around\<close>

lemma unat_u64_less: "unat (x :: u64) < 18446744073709551616"
  using unsigned_less [of x, where ?'a = nat] by simp

lemma unat_max_u64 [simp]: "unat (- 1 :: u64) = 2 ^ 64 - 1"
  by (simp add: unsigned_minus_1_eq_mask mask_eq_exp_minus_1)

lemma unat_add_u64 [word_nat]:
  "unat (x :: u64) + unat y < 2 ^ 64 \<Longrightarrow> unat (x + y) = unat x + unat y"
  by (simp add: unat_word_ariths)

lemma unat_mult_u64 [word_nat]:
  "unat (x :: u64) * unat y < 2 ^ 64 \<Longrightarrow> unat (x * y) = unat x * unat y"
  by (simp add: unat_word_ariths)

lemma unat_sub_u64 [word_nat]:
  "y \<le> x \<Longrightarrow> unat (x - y :: u64) = unat x - unat y"
  by (rule unat_sub)

lemma u64_of_nat [word_nat]:
  "n < 2 ^ 64 \<Longrightarrow> unat (word_of_nat n :: u64) = n"
  by (simp add: unat_of_nat)

lemma unat_succ_u64 [word_nat]: "x \<noteq> max_u64 \<Longrightarrow> unat (x + 1 :: u64) = unat x + 1"
proof -
  assume "x \<noteq> max_u64"
  then have "unat x \<noteq> 2 ^ 64 - 1"
    by (metis unat_max_u64 word_unat_eq_iff)
  then have "unat x + unat (1 :: u64) < 2 ^ 64"
    using unat_u64_less [of x] by simp
  then show ?thesis
    by (simp add: unat_add_u64)
qed

lemmas [word_nat] = word_le_nat_alt word_less_nat_alt unat_div unat_mod word_unat_eq_iff

lemma be_bytes_0: "be_bytes k 0 = replicate k (CHR 0x00)"
proof (induction k)
  case (Suc k)
  have "char_of (0 :: nat) = CHR 0x00" by code_simp
  with Suc show ?case by (simp add: replicate_append_same [symmetric])
qed simp

lemma be64_small: "n < 256 \<Longrightarrow> be64 (word_of_nat n) = replicate 7 (CHR 0x00) @ [char_of n]"
proof -
  assume n: "n < 256"
  have "be_bytes (Suc 7) n = replicate 7 (CHR 0x00) @ [char_of n]"
    using n by (simp only: be_bytes.simps div_less be_bytes_0)
  with n show ?thesis
    by (simp add: be64_def unat_of_nat)
qed

end
