(* ===== verification/VexoTypes.thy ===== *)
theory VexoTypes
  imports Prelude
begin

text \<open>
  Package \<^verbatim>\<open>types\<close> (\<^verbatim>\<open>types/types.go\<close>): the data every component shares, overflow-checked addition of
  voting power, and the two-thirds quorum rule.  The lemmas give the exact integer meaning of the
  64-bit quorum arithmetic and the intersection property that the safety of consensus rests on.
\<close>

section \<open>Data\<close>

type_synonym Address = string
type_synonym ValidatorID = string
type_synonym Tx = bytes
type_synonym Height = u64
type_synonym Round = u64
type_synonym VotingPower = u64
type_synonym Signature = bytes
type_synonym PublicKey = bytes
type_synonym AggregateSignature = bytes
type_synonym Bitmap = bytes

datatype types_error = ErrVotingPowerOverflow

text \<open>\<^verbatim>\<open>types.ValidatorUpdate\<close>.  A nil metadata map is \<open>None\<close>.\<close>

record ValidatorUpdate =
  vu_ID :: ValidatorID
  vu_Address :: Address
  vu_PublicKey :: PublicKey
  vu_VotingPower :: VotingPower
  vu_Stake :: u64
  vu_Metadata :: "(string, string) gomap option"

record Header =
  hdr_ChainID :: string
  hdr_Height :: Height
  hdr_TimeUnixNano :: u64
  hdr_PreviousBlockHash :: hash
  hdr_AppHash :: hash
  hdr_ValidatorSetHash :: hash
  hdr_ConsensusHash :: hash
  hdr_TxRoot :: hash

record Block =
  blk_Header :: Header
  blk_Txs :: "Tx list"

record Result =
  res_Code :: u32
  res_Log :: string
  res_Data :: bytes
  res_GasUsed :: u64
  res_FeePaid :: u64

section \<open>Overflow-checked addition\<close>

text \<open>\<^verbatim>\<open>math/bits.Add64\<close>: the 64-bit sum and the carry out.\<close>

definition bits_Add64 :: "u64 \<Rightarrow> u64 \<Rightarrow> u64 \<Rightarrow> u64 \<times> u64" where
  "bits_Add64 x y carry =
     (x + y + carry, if 2 ^ 64 \<le> unat x + unat y + unat carry then 1 else 0)"

definition AddVotingPower :: "VotingPower \<Rightarrow> VotingPower \<Rightarrow> types_error + VotingPower" where
  "AddVotingPower left right =
     (let (sum, carry) = bits_Add64 left right 0 in
      if carry \<noteq> 0 then Inl ErrVotingPowerOverflow else Inr sum)"

definition AddUint64 :: "u64 \<Rightarrow> u64 \<Rightarrow> types_error + u64" where
  "AddUint64 left right =
     (let (sum, carry) = bits_Add64 left right 0 in
      if carry \<noteq> 0 then Inl ErrVotingPowerOverflow else Inr sum)"

definition MustAddUint64Saturating :: "u64 \<Rightarrow> u64 \<Rightarrow> u64" where
  "MustAddUint64Saturating left right =
     (case AddUint64 left right of Inl _ \<Rightarrow> max_u64 | Inr s \<Rightarrow> s)"

definition MustAddVotingPowerSaturating :: "VotingPower \<Rightarrow> VotingPower \<Rightarrow> VotingPower" where
  "MustAddVotingPowerSaturating left right =
     (case AddVotingPower left right of Inl _ \<Rightarrow> max_u64 | Inr s \<Rightarrow> s)"

section \<open>Two-thirds quorum\<close>

definition TwoThirdsQuorumThreshold :: "VotingPower \<Rightarrow> VotingPower" where
  "TwoThirdsQuorumThreshold total_power =
     (if total_power = 0 then 0
      else
        let base = total_power div 3 * 2;
            remainder = total_power mod 3;
            extra = (if remainder > 0 then (remainder * 2 + 2) div 3 else 0)
        in MustAddVotingPowerSaturating base extra)"

definition HasTwoThirdsQuorum :: "VotingPower \<Rightarrow> VotingPower \<Rightarrow> bool" where
  "HasTwoThirdsQuorum pow total_power =
     (if total_power = 0 then False else TwoThirdsQuorumThreshold total_power \<le> pow)"

section \<open>Exact meaning of the additions\<close>

lemma AddVotingPower_cases:
  "AddVotingPower a b =
     (if unat a + unat b < 2 ^ 64 then Inr (a + b) else Inl ErrVotingPowerOverflow)"
  by (simp add: AddVotingPower_def bits_Add64_def)

lemma AddUint64_cases:
  "AddUint64 a b =
     (if unat a + unat b < 2 ^ 64 then Inr (a + b) else Inl ErrVotingPowerOverflow)"
  by (simp add: AddUint64_def bits_Add64_def)

lemma AddVotingPower_Inr:
  "AddVotingPower a b = Inr c \<longleftrightarrow> unat a + unat b < 2 ^ 64 \<and> unat c = unat a + unat b"
  by (auto simp: AddVotingPower_cases unat_add_u64 word_unat_eq_iff split: if_splits)

lemma AddUint64_Inr:
  "AddUint64 a b = Inr c \<longleftrightarrow> unat a + unat b < 2 ^ 64 \<and> unat c = unat a + unat b"
  by (auto simp: AddUint64_cases unat_add_u64 word_unat_eq_iff split: if_splits)

lemma unat_saturating_u64:
  "unat (MustAddUint64Saturating a b) = min (unat a + unat b) (2 ^ 64 - 1)"
  by (auto simp: MustAddUint64Saturating_def AddUint64_cases unat_add_u64 min_def)

lemma unat_saturating_power:
  "unat (MustAddVotingPowerSaturating a b) = min (unat a + unat b) (2 ^ 64 - 1)"
  by (auto simp: MustAddVotingPowerSaturating_def AddVotingPower_cases unat_add_u64 min_def)

lemma unat_quorum_base: "unat (t div 3 * 2 :: u64) = unat t div 3 * 2"
proof -
  have "unat t div 3 * 2 < 2 ^ 64"
    using unat_u64_less [of t] by simp
  then show ?thesis
    by (simp add: unat_mult_u64 unat_div)
qed

lemma unat_quorum_extra:
  "unat ((t mod 3 * 2 + 2) div 3 :: u64) = (unat t mod 3 * 2 + 2) div 3"
proof -
  have "unat t mod 3 < 3"
    by simp
  then have "unat (t mod 3 * 2 :: u64) = unat t mod 3 * 2"
    by (simp add: unat_mult_u64 unat_mod)
  moreover from \<open>unat t mod 3 < 3\<close> have "unat t mod 3 * 2 + 2 < 2 ^ 64"
    by simp
  ultimately show ?thesis
    by (simp add: unat_div unat_add_u64)
qed

lemma ceil_two_thirds:
  "n div 3 * 2 + (if 0 < n mod 3 then (n mod 3 * 2 + 2) div 3 else 0) = (2 * n + 2) div (3 :: nat)"
  by presburger

lemma unat_threshold:
  "unat (TwoThirdsQuorumThreshold t) = (2 * unat t + 2) div 3"
proof (cases "t = 0")
  case False
  have extra: "unat (if 0 < t mod 3 then (t mod 3 * 2 + 2) div 3 else 0 :: u64)
      = (if 0 < unat t mod 3 then (unat t mod 3 * 2 + 2) div 3 else 0)"
    by (simp only: unat_quorum_extra if_distrib [of unat] unat_0 word_less_nat_alt unat_mod)
       (simp add: unat_quorum_extra)
  have "(2 * unat t + 2) div 3 \<le> 18446744073709551615"
    using unat_u64_less [of t] by linarith
  with False show ?thesis
    by (simp only: TwoThirdsQuorumThreshold_def Let_def unat_saturating_power unat_quorum_base extra
        ceil_two_thirds if_False) simp
qed (simp add: TwoThirdsQuorumThreshold_def)

lemma HasTwoThirdsQuorum_iff:
  "HasTwoThirdsQuorum p t \<longleftrightarrow> t \<noteq> 0 \<and> 2 * unat t \<le> 3 * unat p"
  by (auto simp: HasTwoThirdsQuorum_def word_le_nat_alt unat_threshold)

lemma quorum_mono:
  "HasTwoThirdsQuorum p t \<Longrightarrow> p \<le> q \<Longrightarrow> HasTwoThirdsQuorum q t"
  by (auto simp: HasTwoThirdsQuorum_iff word_le_nat_alt)

lemma quorum_pos: "HasTwoThirdsQuorum p t \<Longrightarrow> 0 < unat p"
  by (auto simp: HasTwoThirdsQuorum_iff word_unat_eq_iff intro: gr0I)

section \<open>Properties\<close>

text \<open>
  C28: The quorum test is exact at 64 bits.  For all voting powers, wrap-around included, the test holds exactly
  when the total is not zero and three times the power is at least twice the total, computed without overflow.
\<close>

theorem quorum_test_exact:
  "HasTwoThirdsQuorum p t \<longleftrightarrow> t \<noteq> 0 \<and> 2 * unat t \<le> 3 * unat p"
  by (auto simp: HasTwoThirdsQuorum_iff)

end
