(* ===== verification/Sha256.thy ===== *)
theory Sha256
  imports Prelude
begin

unbundle bit_operations_syntax

text \<open>
  \<^verbatim>\<open>crypto/sha256\<close> of the Go standard library (FIPS 180-4), which every hash of the program is computed
  with.  The model is executable; the example block of the standard is checked at the end.
\<close>

type_synonym sha_state = "u32 \<times> u32 \<times> u32 \<times> u32 \<times> u32 \<times> u32 \<times> u32 \<times> u32"

definition rotr :: "nat \<Rightarrow> u32 \<Rightarrow> u32" where
  "rotr n x = drop_bit n x OR push_bit (32 - n) x"

definition sha_K :: "u32 list" where
  "sha_K =
    [1116352408, 1899447441, 3049323471, 3921009573, 961987163, 1508970993, 2453635748, 2870763221,
     3624381080, 310598401, 607225278, 1426881987, 1925078388, 2162078206, 2614888103, 3248222580,
     3835390401, 4022224774, 264347078, 604807628, 770255983, 1249150122, 1555081692, 1996064986,
     2554220882, 2821834349, 2952996808, 3210313671, 3336571891, 3584528711, 113926993, 338241895,
     666307205, 773529912, 1294757372, 1396182291, 1695183700, 1986661051, 2177026350, 2456956037,
     2730485921, 2820302411, 3259730800, 3345764771, 3516065817, 3600352804, 4094571909, 275423344,
     430227734, 506948616, 659060556, 883997877, 958139571, 1322822218, 1537002063, 1747873779,
     1955562222, 2024104815, 2227730452, 2361852424, 2428436474, 2756734187, 3204031479, 3329325298]"

text \<open>The message schedule: the 16 words of the block, extended word by word.\<close>

fun sha_schedule :: "nat \<Rightarrow> u32 list \<Rightarrow> u32 list" where
  "sha_schedule 0 ws = ws"
| "sha_schedule (Suc n) ws =
    (let k = length ws; w15 = ws ! (k - 15); w2 = ws ! (k - 2);
         s0 = rotr 7 w15 XOR rotr 18 w15 XOR drop_bit 3 w15;
         s1 = rotr 17 w2 XOR rotr 19 w2 XOR drop_bit 10 w2
     in sha_schedule n (ws @ [s1 + ws ! (k - 7) + s0 + ws ! (k - 16)]))"

fun sha_round :: "sha_state \<Rightarrow> u32 \<times> u32 \<Rightarrow> sha_state" where
  "sha_round (a, b, c, d, e, f, g, h) (k, w) =
    (let t1 = h + (rotr 6 e XOR rotr 11 e XOR rotr 25 e) + ((e AND f) XOR (NOT e AND g)) + k + w;
         t2 = (rotr 2 a XOR rotr 13 a XOR rotr 22 a) + ((a AND b) XOR (a AND c) XOR (b AND c))
     in (t1 + t2, a, b, c, d + t1, e, f, g))"

definition sha_add :: "sha_state \<Rightarrow> sha_state \<Rightarrow> sha_state" where
  "sha_add s s' =
    (case s of (a, b, c, d, e, f, g, h) \<Rightarrow>
     case s' of (a', b', c', d', e', f', g', h') \<Rightarrow>
       (a + a', b + b', c + c', d + d', e + e', f + f', g + g', h + h'))"

definition sha_block :: "sha_state \<Rightarrow> u32 list \<Rightarrow> sha_state" where
  "sha_block s ws = sha_add (foldl sha_round s (zip sha_K (sha_schedule 48 ws))) s"

definition sha_init :: sha_state where
  "sha_init = (1779033703, 3144134277, 1013904242, 2773480762,
               1359893119, 2600822924, 528734635, 1541459225)"

text \<open>Padding: one bit 1, zeros up to 56 bytes modulo 64, and the bit length on 8 bytes.\<close>

definition sha_pad :: "bytes \<Rightarrow> bytes" where
  "sha_pad bs = bs @ [CHR 0x80] @ replicate ((119 - length bs mod 64) mod 64) (CHR 0x00)
     @ be_bytes 8 (8 * length bs)"

fun sha_words :: "bytes \<Rightarrow> u32 list" where
  "sha_words (a # b # c # d # bs) = foldl (\<lambda>w x. w * 256 + of_char x) 0 [a, b, c, d] # sha_words bs"
| "sha_words _ = []"

fun chunks16 :: "u32 list \<Rightarrow> u32 list list" where
  "chunks16 [] = []"
| "chunks16 (w # ws) = take 16 (w # ws) # chunks16 (drop 15 ws)"

fun sha_digest :: "sha_state \<Rightarrow> hash" where
  "sha_digest (a, b, c, d, e, f, g, h) =
     foldl (\<lambda>acc w. push_bit 32 acc OR ucast w) 0 [a, b, c, d, e, f, g, h]"

definition sha256 :: "bytes \<Rightarrow> hash" where
  "sha256 bs = sha_digest (foldl sha_block sha_init (chunks16 (sha_words (sha_pad bs))))"

lemma length_sha_pad_eq: "length (sha_pad bs) = length bs + 9 + (119 - length bs mod 64) mod 64"
  by (simp only: sha_pad_def length_append length_replicate length_be_bytes list.size)

lemma length_sha_pad: "64 dvd length (sha_pad bs)"
proof -
  have r: "length bs mod 64 < 64"
    by simp
  have "(length bs + 9 + (119 - length bs mod 64) mod 64) mod 64
      = (length bs + 9 + (119 - length bs mod 64)) mod 64"
    by (rule mod_add_right_eq)
  also have "\<dots> = (length bs mod 64 + (9 + (119 - length bs mod 64))) mod 64"
    by (simp only: mod_add_left_eq add.assoc)
  also have "length bs mod 64 + (9 + (119 - length bs mod 64)) = 128"
    using r by simp
  finally show ?thesis
    by (simp only: length_sha_pad_eq dvd_eq_mod_eq_0) simp
qed

text \<open>The FIPS 180-4 example message.\<close>

lemma sha_pad_abc:
  "sha_words (sha_pad ''abc'') = [0x61626380, 0, 0, 0, 0, 0, 0, 0, 0, 0, 0, 0, 0, 0, 0, 0x18]"
  by code_simp

lemma sha_block_abc:
  "sha_block sha_init [0x61626380, 0, 0, 0, 0, 0, 0, 0, 0, 0, 0, 0, 0, 0, 0, 0x18] =
     (0xba7816bf, 0x8f01cfea, 0x414140de, 0x5dae2223, 0xb00361a3, 0x96177a9c, 0xb410ff61, 0xf20015ad)"
  by code_simp

lemma chunks16_abc:
  "chunks16 [0x61626380, 0, 0, 0, 0, 0, 0, 0, 0, 0, 0, 0, 0, 0, 0, 0x18] =
     [[0x61626380, 0, 0, 0, 0, 0, 0, 0, 0, 0, 0, 0, 0, 0, 0, 0x18]]"
  by simp

lemma sha_digest_abc:
  "sha_digest (0xba7816bf, 0x8f01cfea, 0x414140de, 0x5dae2223,
      0xb00361a3, 0x96177a9c, 0xb410ff61, 0xf20015ad) =
     0xba7816bf8f01cfea414140de5dae2223b00361a396177a9cb410ff61f20015ad"
  by code_simp

lemma sha256_abc:
  "sha256 ''abc'' = 0xba7816bf8f01cfea414140de5dae2223b00361a396177a9cb410ff61f20015ad"
  by (simp only: sha256_def sha_pad_abc sha_block_abc chunks16_abc foldl.simps sha_digest_abc)

end
