(* ===== verification/Encoding.thy ===== *)
theory Encoding
  imports VexoTypes Sha256
begin

text \<open>
  The messages of consensus and the byte strings that are hashed and signed:
  \<^verbatim>\<open>finality/finality.go\<close> and \<^verbatim>\<open>consensus/consensus.go\<close> (data), \<^verbatim>\<open>signbytes/signbytes.go\<close>,
  \<^verbatim>\<open>consensus/signbytes.go\<close>, \<^verbatim>\<open>consensus/hash.go\<close>, \<^verbatim>\<open>crypto/domain.go\<close>.
  The lemmas show that each encoding determines the message, that the encodings of different kinds of
  messages and of different signature domains never coincide, and what the block hash does not cover.
\<close>

section \<open>Certificates and proofs (finality/finality.go)\<close>

record QuorumCert =
  qc_Height :: Height
  qc_Round :: Round
  qc_BlockHash :: hash
  qc_Signers :: Bitmap
  qc_Signature :: AggregateSignature
  qc_VotingPower :: VotingPower

definition zeroQC :: QuorumCert where
  "zeroQC = \<lparr>qc_Height = 0, qc_Round = 0, qc_BlockHash = zero_hash, qc_Signers = [],
     qc_Signature = [], qc_VotingPower = 0\<rparr>"

record TimeoutCert =
  tc_Height :: Height
  tc_Round :: Round
  tc_HighQC :: QuorumCert
  tc_Signers :: Bitmap
  tc_Signature :: AggregateSignature

definition zeroTC :: TimeoutCert where
  "zeroTC = \<lparr>tc_Height = 0, tc_Round = 0, tc_HighQC = zeroQC, tc_Signers = [], tc_Signature = []\<rparr>"

record CommitLink =
  lnk_Header :: Header
  lnk_BlockHash :: hash
  lnk_QuorumCert :: QuorumCert

record Proof =
  prf_Header :: Header
  prf_BlockHash :: hash
  prf_QuorumCert :: QuorumCert
  prf_CommitChain :: "CommitLink list"
  prf_ValidatorSetHeight :: Height
  prf_ValidatorSetHash :: hash

section \<open>Consensus messages (consensus/consensus.go, consensus/timeout.go)\<close>

record Proposal =
  prop_Block :: Block
  prop_Round :: Round
  prop_Proposer :: ValidatorID
  prop_JustifyQC :: QuorumCert
  prop_Signature :: Signature

record Vote =
  vote_Height :: Height
  vote_Round :: Round
  vote_BlockHash :: hash
  vote_ValidatorID :: ValidatorID
  vote_Signature :: Signature

record TimeoutVote =
  tv_Height :: Height
  tv_Round :: Round
  tv_ValidatorID :: ValidatorID
  tv_HighQC :: QuorumCert
  tv_Signature :: Signature

section \<open>Block hashing (consensus/hash.go, finality/proof.go)\<close>

text \<open>A hasher that is written to piece by piece hashes the concatenation of the pieces.\<close>

definition header_preimage :: "Header \<Rightarrow> bytes" where
  "header_preimage h =
     hdr_ChainID h @ be64 (hdr_Height h) @ be64 (hdr_TimeUnixNano h)
     @ hash_bytes (hdr_PreviousBlockHash h) @ hash_bytes (hdr_AppHash h)
     @ hash_bytes (hdr_ValidatorSetHash h) @ hash_bytes (hdr_ConsensusHash h)
     @ hash_bytes (hdr_TxRoot h)"

definition HashHeader :: "Header \<Rightarrow> hash" where
  "HashHeader h = sha256 (header_preimage h)"

definition finality_hashHeader :: "Header \<Rightarrow> hash" where
  "finality_hashHeader h = sha256
    (hdr_ChainID h @ be64 (hdr_Height h) @ be64 (hdr_TimeUnixNano h)
     @ hash_bytes (hdr_PreviousBlockHash h) @ hash_bytes (hdr_AppHash h)
     @ hash_bytes (hdr_ValidatorSetHash h) @ hash_bytes (hdr_ConsensusHash h)
     @ hash_bytes (hdr_TxRoot h))"

definition u64_len :: "'a list \<Rightarrow> u64" where
  "u64_len xs = word_of_nat (length xs)"

definition txs_preimage :: "Tx list \<Rightarrow> bytes" where
  "txs_preimage txs = concat (map (\<lambda>tx. be64 (u64_len tx) @ tx) txs)"

definition TxRoot :: "Tx list \<Rightarrow> hash" where
  "TxRoot txs = (if txs = [] then zero_hash else sha256 (txs_preimage txs))"

definition HashBlock :: "Block \<Rightarrow> hash" where
  "HashBlock block =
     (let header = blk_Header block;
          header = (if hdr_TxRoot header = zero_hash
                    then header\<lparr>hdr_TxRoot := TxRoot (blk_Txs block)\<rparr> else header)
      in HashHeader header)"

section \<open>Sign bytes (signbytes/signbytes.go, consensus/signbytes.go)\<close>

definition signbytes_Vote :: "Height \<Rightarrow> Round \<Rightarrow> hash \<Rightarrow> bytes" where
  "signbytes_Vote height rnd blockHash = ''vote'' @ be64 height @ be64 rnd @ hash_bytes blockHash"

definition appendQuorumCert :: "bytes \<Rightarrow> QuorumCert \<Rightarrow> bytes" where
  "appendQuorumCert message qc =
     message @ be64 (qc_Height qc) @ be64 (qc_Round qc) @ hash_bytes (qc_BlockHash qc)
     @ be64 (qc_VotingPower qc) @ hash_bytes (sha256 (qc_Signers qc))"

definition ProposalSignBytes :: "Proposal \<Rightarrow> bytes" where
  "ProposalSignBytes p =
     appendQuorumCert
       (''proposal'' @ be64 (hdr_Height (blk_Header (prop_Block p))) @ be64 (prop_Round p)
        @ prop_Proposer p @ hash_bytes (HashBlock (prop_Block p)))
       (prop_JustifyQC p)"

definition VoteSignBytes :: "Vote \<Rightarrow> bytes" where
  "VoteSignBytes v = signbytes_Vote (vote_Height v) (vote_Round v) (vote_BlockHash v)"

definition TimeoutVoteSignBytes :: "TimeoutVote \<Rightarrow> bytes" where
  "TimeoutVoteSignBytes v =
     appendQuorumCert (''timeout_vote'' @ be64 (tv_Height v) @ be64 (tv_Round v)) (tv_HighQC v)"

section \<open>Signature domains (crypto/domain.go)\<close>

datatype crypto_error = ErrEmptyDomain | ErrKeyNotFound | OtherCryptoError string

definition DomainConsensusProposal :: string where
  "DomainConsensusProposal = ''vexo.consensus.proposal.v1''"

definition DomainConsensusVote :: string where
  "DomainConsensusVote = ''vexo.consensus.vote.v1''"

definition DomainConsensusTimeoutVote :: string where
  "DomainConsensusTimeoutVote = ''vexo.consensus.timeout_vote.v1''"

definition DomainFinalityProof :: string where
  "DomainFinalityProof = ''vexo.finality.proof.v1''"

definition DomainMessage :: "string \<Rightarrow> bytes \<Rightarrow> crypto_error + bytes" where
  "DomainMessage domain message =
     (if domain = [] then Inl ErrEmptyDomain
      else Inr (''VEXO-DOMAIN'' @ [CHR 0x00] @ domain @ be64 (u64_len message) @ message))"

text \<open>
  The interfaces \<^verbatim>\<open>Signer\<close> and \<^verbatim>\<open>AggregateSigner\<close> are records of functions; a Go interface value that
  may be nil is an option.  The domain wrappers are modelled for both.
\<close>

record Signer =
  sg_PublicKey :: PublicKey
  sg_Sign :: "bytes \<Rightarrow> crypto_error + Signature"
  sg_Verify :: "PublicKey \<Rightarrow> bytes \<Rightarrow> Signature \<Rightarrow> bool"

type_synonym aggregate_verifier = "PublicKey list \<Rightarrow> bytes \<Rightarrow> AggregateSignature \<Rightarrow> bool"

record AggregateSigner =
  ag_Aggregate :: "Signature list \<Rightarrow> crypto_error + AggregateSignature"
  ag_VerifyAggregate :: aggregate_verifier

record DomainSigner =
  ds_signer :: Signer
  ds_domain :: string

record DomainAggregateSigner =
  das_signer :: AggregateSigner
  das_domain :: string

record DomainAggregateVerifier =
  dav_verifier :: aggregate_verifier
  dav_domain :: string

definition NewDomainSigner :: "Signer option \<Rightarrow> string \<Rightarrow> crypto_error + DomainSigner" where
  "NewDomainSigner signer domain =
     (case signer of
        None \<Rightarrow> Inl ErrKeyNotFound
      | Some s \<Rightarrow>
          if domain = [] then Inl ErrEmptyDomain
          else Inr \<lparr>ds_signer = s, ds_domain = domain\<rparr>)"

definition DomainSigner_PublicKey :: "DomainSigner \<Rightarrow> PublicKey" where
  "DomainSigner_PublicKey s = sg_PublicKey (ds_signer s)"

definition DomainSigner_Sign :: "DomainSigner \<Rightarrow> bytes \<Rightarrow> crypto_error + Signature" where
  "DomainSigner_Sign s message =
     (case DomainMessage (ds_domain s) message of
        Inl e \<Rightarrow> Inl e | Inr m \<Rightarrow> sg_Sign (ds_signer s) m)"

definition DomainSigner_Verify :: "DomainSigner \<Rightarrow> PublicKey \<Rightarrow> bytes \<Rightarrow> Signature \<Rightarrow> bool" where
  "DomainSigner_Verify s publicKey message signature =
     (case DomainMessage (ds_domain s) message of
        Inl e \<Rightarrow> False | Inr m \<Rightarrow> sg_Verify (ds_signer s) publicKey m signature)"

definition NewDomainAggregateSigner ::
    "AggregateSigner option \<Rightarrow> string \<Rightarrow> crypto_error + DomainAggregateSigner" where
  "NewDomainAggregateSigner signer domain =
     (case signer of
        None \<Rightarrow> Inl ErrKeyNotFound
      | Some s \<Rightarrow>
          if domain = [] then Inl ErrEmptyDomain
          else Inr \<lparr>das_signer = s, das_domain = domain\<rparr>)"

definition NewDomainAggregateVerifier ::
    "aggregate_verifier option \<Rightarrow> string \<Rightarrow> crypto_error + DomainAggregateVerifier" where
  "NewDomainAggregateVerifier verifier domain =
     (case verifier of
        None \<Rightarrow> Inl ErrKeyNotFound
      | Some v \<Rightarrow>
          if domain = [] then Inl ErrEmptyDomain
          else Inr \<lparr>dav_verifier = v, dav_domain = domain\<rparr>)"

definition DomainAggregateSigner_Aggregate ::
    "DomainAggregateSigner \<Rightarrow> Signature list \<Rightarrow> crypto_error + AggregateSignature" where
  "DomainAggregateSigner_Aggregate s signatures = ag_Aggregate (das_signer s) signatures"

definition DomainAggregateSigner_VerifyAggregate :: "DomainAggregateSigner \<Rightarrow> aggregate_verifier" where
  "DomainAggregateSigner_VerifyAggregate s publicKeys message signature =
     (case DomainMessage (das_domain s) message of
        Inl e \<Rightarrow> False | Inr m \<Rightarrow> ag_VerifyAggregate (das_signer s) publicKeys m signature)"

definition DomainAggregateVerifier_VerifyAggregate ::
    "DomainAggregateVerifier \<Rightarrow> aggregate_verifier" where
  "DomainAggregateVerifier_VerifyAggregate v publicKeys message signature =
     (case DomainMessage (dav_domain v) message of
        Inl e \<Rightarrow> False | Inr m \<Rightarrow> dav_verifier v publicKeys m signature)"

definition SignWithDomain :: "Signer option \<Rightarrow> string \<Rightarrow> bytes \<Rightarrow> crypto_error + Signature" where
  "SignWithDomain signer domain message =
     (case NewDomainSigner signer domain of
        Inl e \<Rightarrow> Inl e | Inr s \<Rightarrow> DomainSigner_Sign s message)"

section \<open>Injectivity of the hashed encodings\<close>

lemma finality_hashHeader_eq: "finality_hashHeader h = HashHeader h"
  by (simp add: finality_hashHeader_def HashHeader_def header_preimage_def)

lemma header_preimage_inj: "header_preimage g = header_preimage h \<longleftrightarrow> g = h"
proof
  assume eq: "header_preimage g = header_preimage h"
  have tail: "hdr_ChainID g = hdr_ChainID h \<and> be64 (hdr_Height g) @ be64 (hdr_TimeUnixNano g)
     @ hash_bytes (hdr_PreviousBlockHash g) @ hash_bytes (hdr_AppHash g)
     @ hash_bytes (hdr_ValidatorSetHash g) @ hash_bytes (hdr_ConsensusHash g)
     @ hash_bytes (hdr_TxRoot g) = be64 (hdr_Height h) @ be64 (hdr_TimeUnixNano h)
     @ hash_bytes (hdr_PreviousBlockHash h) @ hash_bytes (hdr_AppHash h)
     @ hash_bytes (hdr_ValidatorSetHash h) @ hash_bytes (hdr_ConsensusHash h)
     @ hash_bytes (hdr_TxRoot h)"
    by (rule append_suffix_inj [OF eq [unfolded header_preimage_def]]) simp
  then show "g = h"
    by (simp add: be64_append_inj hash_bytes_append_inj)
qed simp

lemma txs_preimage_Cons:
  "txs_preimage (tx # txs) = be64 (u64_len tx) @ tx @ txs_preimage txs"
  by (simp add: txs_preimage_def)

lemma txs_preimage_Nil [simp]: "txs_preimage [] = []"
  by (simp add: txs_preimage_def)

text \<open>The length prefix makes the transaction list readable from the hashed bytes.\<close>

lemma txs_preimage_inj:
  assumes "\<forall>tx \<in> set xs \<union> set ys. length tx < 2 ^ 64"
    and "txs_preimage xs = txs_preimage ys"
  shows "xs = ys"
  using assms
proof (induction xs arbitrary: ys)
  case Nil
  then show ?case
    by (cases ys) (auto simp: txs_preimage_Cons dest: arg_cong [of _ _ length])
next
  case (Cons x xs)
  then obtain y ys' where ys: "ys = y # ys'"
    by (cases ys) (auto simp: txs_preimage_Cons dest: arg_cong [of _ _ length])
  from Cons.prems ys have "length x = length y"
    by (auto simp: txs_preimage_Cons be64_append_inj u64_len_def u64_of_length_inj)
  with Cons.prems ys have "x = y" "txs_preimage xs = txs_preimage ys'"
    by (auto simp: txs_preimage_Cons be64_append_inj)
  with Cons.IH Cons.prems ys show ?case
    by simp
qed

section \<open>Injectivity and separation of the signed encodings\<close>

lemma signbytes_Vote_inj:
  "signbytes_Vote h r b = signbytes_Vote h' r' b' \<longleftrightarrow> h = h' \<and> r = r' \<and> b = b'"
  by (auto simp: signbytes_Vote_def be64_append_inj)

lemma appendQuorumCert_inj:
  assumes "appendQuorumCert m q = appendQuorumCert m' q'"
  shows "m = m' \<and> qc_Height q = qc_Height q' \<and> qc_Round q = qc_Round q'
    \<and> qc_BlockHash q = qc_BlockHash q' \<and> qc_VotingPower q = qc_VotingPower q'
    \<and> sha256 (qc_Signers q) = sha256 (qc_Signers q')"
  using append_suffix_inj [OF assms [unfolded appendQuorumCert_def]]
  by (simp add: be64_append_inj hash_bytes_append_inj)

lemma ProposalSignBytes_inj:
  assumes "ProposalSignBytes p = ProposalSignBytes q"
  shows "hdr_Height (blk_Header (prop_Block p)) = hdr_Height (blk_Header (prop_Block q))
    \<and> prop_Round p = prop_Round q \<and> prop_Proposer p = prop_Proposer q
    \<and> HashBlock (prop_Block p) = HashBlock (prop_Block q)
    \<and> qc_Height (prop_JustifyQC p) = qc_Height (prop_JustifyQC q)
    \<and> qc_Round (prop_JustifyQC p) = qc_Round (prop_JustifyQC q)
    \<and> qc_BlockHash (prop_JustifyQC p) = qc_BlockHash (prop_JustifyQC q)"
proof -
  note qc = appendQuorumCert_inj [OF assms [unfolded ProposalSignBytes_def]]
  from qc have "prop_Proposer p @ hash_bytes (HashBlock (prop_Block p))
      = prop_Proposer q @ hash_bytes (HashBlock (prop_Block q))"
    by (simp add: be64_append_inj)
  from append_suffix_inj [OF this] qc show ?thesis
    by (simp add: be64_append_inj)
qed

lemma TimeoutVoteSignBytes_inj:
  assumes "TimeoutVoteSignBytes u = TimeoutVoteSignBytes v"
  shows "tv_Height u = tv_Height v \<and> tv_Round u = tv_Round v
    \<and> qc_Height (tv_HighQC u) = qc_Height (tv_HighQC v)
    \<and> qc_Round (tv_HighQC u) = qc_Round (tv_HighQC v)
    \<and> qc_BlockHash (tv_HighQC u) = qc_BlockHash (tv_HighQC v)"
  using appendQuorumCert_inj [OF assms [unfolded TimeoutVoteSignBytes_def]]
  by (simp add: be64_append_inj)

lemma sign_bytes_kinds_disjoint:
  "ProposalSignBytes p \<noteq> VoteSignBytes v"
  "ProposalSignBytes p \<noteq> TimeoutVoteSignBytes t"
  "VoteSignBytes v \<noteq> TimeoutVoteSignBytes t"
  by (simp_all add: ProposalSignBytes_def VoteSignBytes_def TimeoutVoteSignBytes_def
      signbytes_Vote_def appendQuorumCert_def)

definition consensus_domains :: "string list" where
  "consensus_domains = [DomainConsensusProposal, DomainConsensusVote,
     DomainConsensusTimeoutVote, DomainFinalityProof]"

lemmas domain_defs = DomainConsensusProposal_def DomainConsensusVote_def
  DomainConsensusTimeoutVote_def DomainFinalityProof_def

lemma domains_nonempty: "d \<in> set consensus_domains \<Longrightarrow> d \<noteq> []"
  by (auto simp: consensus_domains_def domain_defs)

lemma DomainMessage_separates:
  assumes "d \<in> set consensus_domains" "d' \<in> set consensus_domains"
    and "DomainMessage d m = DomainMessage d' m'"
  shows "d = d' \<and> m = m'"
  using assms
  by (auto simp: consensus_domains_def domain_defs DomainMessage_def be64_append_inj)

lemma DomainMessage_ok: "d \<noteq> [] \<Longrightarrow> \<exists>m'. DomainMessage d m = Inr m'"
  by (simp add: DomainMessage_def)

section \<open>What the block hash covers\<close>

lemma HashBlock_TxRoot_set:
  "hdr_TxRoot (blk_Header b) \<noteq> zero_hash \<Longrightarrow> HashBlock b = HashHeader (blk_Header b)"
  by (simp add: HashBlock_def)

lemma HashBlock_TxRoot_zero:
  "hdr_TxRoot (blk_Header b) = zero_hash \<Longrightarrow>
     HashBlock b = HashHeader ((blk_Header b)\<lparr>hdr_TxRoot := TxRoot (blk_Txs b)\<rparr>)"
  by (simp add: HashBlock_def)

section \<open>Properties\<close>

text \<open>
  Signed messages are unambiguous.  If the bytes signed for a vote equal the bytes signed under one of the
  consensus and finality domains for any payload, the domain is the vote domain and the payload is that of a
  vote for the same height, round and block; in particular it is not that of a timeout vote or a proposal.
\<close>

theorem signed_vote_unambiguous:
  assumes "d \<in> set consensus_domains"
    and "DomainMessage DomainConsensusVote (VoteSignBytes v) = DomainMessage d x"
  shows "d = DomainConsensusVote \<and> x = VoteSignBytes v
    \<and> (x = VoteSignBytes w \<longleftrightarrow> vote_Height w = vote_Height v \<and> vote_Round w = vote_Round v
         \<and> vote_BlockHash w = vote_BlockHash v)
    \<and> x \<noteq> TimeoutVoteSignBytes t \<and> x \<noteq> ProposalSignBytes p"
proof -
  have "DomainConsensusVote \<in> set consensus_domains"
    by (simp add: consensus_domains_def)
  from DomainMessage_separates [OF this assms] have "d = DomainConsensusVote" "x = VoteSignBytes v"
    by simp_all
  then show ?thesis
    using sign_bytes_kinds_disjoint(1) [of p v] sign_bytes_kinds_disjoint(3) [of v t]
    by (auto simp: VoteSignBytes_def signbytes_Vote_inj dest: sym)
qed

theorem signed_vote_unambiguous_witness:
  "\<exists>v t. vote_Height v = 3 \<and> VoteSignBytes v \<noteq> TimeoutVoteSignBytes t"
proof -
  let ?v = "\<lparr>vote_Height = 3, vote_Round = 0, vote_BlockHash = 7, vote_ValidatorID = ''a'', vote_Signature = []\<rparr>"
  have "DomainConsensusVote \<in> set consensus_domains"
    by (simp add: consensus_domains_def)
  from signed_vote_unambiguous [OF this refl, of ?v] show ?thesis
    by (intro exI [of _ ?v]) auto
qed

end
