(* ===== verification/Validator.thy ===== *)
theory Validator
  imports Encoding
begin

text \<open>
  Package \<^verbatim>\<open>validator\<close>: validator-set snapshots (\<^verbatim>\<open>set.go\<close>), proposer rotation (\<^verbatim>\<open>proposer.go\<close>) and the
  admission policy (\<^verbatim>\<open>policy.go\<close>).  HOL values are immutable, so the cloning functions of the package
  are the identity and do not appear.  The locale \<open>validator_set\<close> states what the clients of the
  interface \<^verbatim>\<open>validator.Set\<close> rely on; it is interpreted for the snapshots that the registries build.
\<close>

section \<open>Data (validator.go)\<close>

record Validator =
  val_ID :: ValidatorID
  val_Address :: Address
  val_PublicKey :: PublicKey
  val_VotingPower :: VotingPower
  val_Stake :: u64
  val_Metadata :: "(string, string) gomap option"

record Candidate =
  cand_Address :: Address
  cand_PublicKey :: PublicKey
  cand_Stake :: u64
  cand_Metadata :: "(string, string) gomap option"

datatype validator_error =
    ErrInsufficientStake
  | ErrValidatorSetFull
  | ErrCandidateDenied string
  | ErrMissingCandidateKey
  | ErrValidatorExists
  | ErrValidatorNotFound
  | ErrZeroVotingPower
  | ErrMissingCandidateID
  | ErrValidatorSetNotFound
  | ValidatorCtxError ctx_error
  | OtherValidatorError string

section \<open>Snapshots (set.go)\<close>

record setSnapshot =
  set_validators :: "Validator list"
  set_byID :: "(ValidatorID, Validator) gomap"
  set_totalPower :: VotingPower
  set_hash :: hash

definition validators_preimage :: "Validator list \<Rightarrow> bytes" where
  "validators_preimage vs =
     concat (map (\<lambda>v. val_ID v @ be64 (val_VotingPower v) @ be64 (val_Stake v) @ val_PublicKey v) vs)"

definition hashValidators :: "Validator list \<Rightarrow> hash" where
  "hashValidators vs = sha256 (validators_preimage vs)"

text \<open>The loop \<^verbatim>\<open>m[v.ID] = v\<close> over a slice of validators.\<close>

definition index_by_ID :: "Validator list \<Rightarrow> (ValidatorID, Validator) gomap" where
  "index_by_ID vs = foldl (\<lambda>m v. AList.update (val_ID v) v m) [] vs"

definition newSetSnapshot :: "Validator list \<Rightarrow> setSnapshot" where
  "newSetSnapshot vs =
     \<lparr>set_validators = vs,
      set_byID = index_by_ID vs,
      set_totalPower = foldl (\<lambda>t v. MustAddVotingPowerSaturating t (val_VotingPower v)) 0 vs,
      set_hash = hashValidators vs\<rparr>"

definition Set_Hash :: "setSnapshot \<Rightarrow> hash" where
  "Set_Hash s = set_hash s"

definition Set_TotalVotingPower :: "setSnapshot \<Rightarrow> VotingPower" where
  "Set_TotalVotingPower s = set_totalPower s"

definition Set_Get :: "setSnapshot \<Rightarrow> ValidatorID \<Rightarrow> Validator option" where
  "Set_Get s i = map_of (set_byID s) i"

definition Set_List :: "setSnapshot \<Rightarrow> Validator list" where
  "Set_List s = set_validators s"

definition toMap :: "setSnapshot \<Rightarrow> (ValidatorID, Validator) gomap" where
  "toMap s = index_by_ID (set_validators s)"

section \<open>Proposer selection (proposer.go)\<close>

definition activeValidators :: "Validator list \<Rightarrow> Validator list" where
  "activeValidators vs = filter (\<lambda>v. 0 < val_VotingPower v) vs"

definition SelectProposer :: "Validator list \<Rightarrow> Height \<Rightarrow> Round \<Rightarrow> ValidatorID option" where
  "SelectProposer vs height rnd =
     (let height = (if height = 0 then 1 else height);
          active = activeValidators vs
      in if active = [] then None
         else
           let active = sort_key val_ID active;
               index = (height - 1 + rnd) mod u64_len active
           in Some (val_ID (active ! unat index)))"

section \<open>Admission policy (policy.go)\<close>

text \<open>\<^verbatim>\<open>MaxValidators\<close> is a signed Go int.  The interface \<^verbatim>\<open>AdmissionPolicy\<close> is a function.\<close>

type_synonym AdmissionPolicy = "ctx \<Rightarrow> Candidate \<Rightarrow> setSnapshot \<Rightarrow> validator_error option"

record AdmissionConfig =
  ac_Permissionless :: bool
  ac_MinStake :: u64
  ac_MaxValidators :: int
  ac_Whitelist :: "(string, bool) gomap"
  ac_RequirePublicKey :: bool

definition CanJoin :: "AdmissionConfig \<Rightarrow> AdmissionPolicy" where
  "CanJoin config ctx candidate currentSet =
     (case ctx of
        Some e \<Rightarrow> Some (ValidatorCtxError e)
      | None \<Rightarrow>
          if 0 < ac_MaxValidators config
             \<and> ac_MaxValidators config \<le> int (length (Set_List currentSet))
          then Some ErrValidatorSetFull
          else if cand_Stake candidate < ac_MinStake config then Some ErrInsufficientStake
          else if ac_RequirePublicKey config \<and> cand_PublicKey candidate = []
          then Some ErrMissingCandidateKey
          else if ac_Permissionless config then None
          else if map_of (ac_Whitelist config) (cand_Address candidate) = Some True then None
          else Some (ErrCandidateDenied ''address is not whitelisted''))"

section \<open>The contract of validator.Set\<close>

text \<open>
  The voting power behind a list of validator identifiers, as a natural number; unknown identifiers
  count for nothing.
\<close>

definition signers_power :: "(ValidatorID \<Rightarrow> Validator option) \<Rightarrow> ValidatorID list \<Rightarrow> nat" where
  "signers_power get ids =
     sum_list (map (\<lambda>i. case get i of None \<Rightarrow> 0 | Some v \<Rightarrow> unat (val_VotingPower v)) ids)"

definition list_power :: "Validator list \<Rightarrow> nat" where
  "list_power vs = sum_list (map (unat \<circ> val_VotingPower) vs)"

lemma signers_power_simps [simp]:
  "signers_power get [] = 0"
  "signers_power get (i # ids) =
     (case get i of None \<Rightarrow> 0 | Some v \<Rightarrow> unat (val_VotingPower v)) + signers_power get ids"
  "signers_power get (ids @ ids') = signers_power get ids + signers_power get ids'"
  by (simp_all add: signers_power_def)

lemma signers_power_mset: "mset ids = mset ids' \<Longrightarrow> signers_power get ids = signers_power get ids'"
  unfolding signers_power_def by (metis mset_map sum_mset_sum_list)

lemma signers_power_sum:
  "distinct ids \<Longrightarrow> signers_power get ids =
     (\<Sum>i \<in> set ids. case get i of None \<Rightarrow> 0 | Some v \<Rightarrow> unat (val_VotingPower v))"
  by (simp add: signers_power_def sum_list_distinct_conv_sum_set)

locale validator_set =
  fixes wf :: "'s \<Rightarrow> bool"
    and total_power :: "'s \<Rightarrow> VotingPower"
    and get :: "'s \<Rightarrow> ValidatorID \<Rightarrow> Validator option"
    and validators :: "'s \<Rightarrow> Validator list"
  assumes get_some: "wf s \<Longrightarrow> get s i = Some v \<Longrightarrow> v \<in> set (validators s) \<and> val_ID v = i"
    and get_listed: "wf s \<Longrightarrow> v \<in> set (validators s) \<Longrightarrow> get s (val_ID v) = Some v"
    and ids_distinct: "wf s \<Longrightarrow> distinct (map val_ID (validators s))"
    and total: "wf s \<Longrightarrow> unat (total_power s) = list_power (validators s)"
begin

lemma list_power_ids:
  assumes "wf s"
  shows "list_power (validators s) = signers_power (get s) (map val_ID (validators s))"
proof -
  have "\<forall>v \<in> set (validators s). get s (val_ID v) = Some v"
    using get_listed [OF assms] by blast
  then show ?thesis
    by (simp add: list_power_def signers_power_def comp_def cong: map_cong)
qed

lemma power_le_total:
  assumes "wf s" and "distinct ids"
  shows "signers_power (get s) ids \<le> unat (total_power s)"
proof -
  let ?w = "\<lambda>i. case get s i of None \<Rightarrow> 0 | Some v \<Rightarrow> unat (val_VotingPower v)"
  let ?all = "map val_ID (validators s)"
  have zero: "?w i = 0" if "i \<notin> set ?all" for i
    using that get_some [OF assms(1)] by (cases "get s i") auto
  have "(\<Sum>i \<in> set ids. ?w i) = (\<Sum>i \<in> set ids \<inter> set ?all. ?w i)"
    by (rule sum.mono_neutral_right) (auto simp: zero)
  also have "\<dots> \<le> (\<Sum>i \<in> set ?all. ?w i)"
    by (rule sum_mono2) auto
  finally show ?thesis
    using assms ids_distinct [OF assms(1)]
    by (simp only: total [OF assms(1)] list_power_ids [OF assms(1)] signers_power_sum)
qed

lemma overlap:
  assumes "wf s" and "distinct xs" and "distinct ys"
  shows "signers_power (get s) xs + signers_power (get s) ys
     \<le> signers_power (get s) (filter (\<lambda>i. i \<in> set ys) xs) + unat (total_power s)"
proof -
  let ?union = "ys @ filter (\<lambda>i. i \<notin> set ys) xs"
  have "mset xs = mset (filter (\<lambda>i. i \<in> set ys) xs @ filter (\<lambda>i. i \<notin> set ys) xs)"
    by (metis multiset_partition mset_append mset_filter)
  then have "signers_power (get s) xs =
      signers_power (get s) (filter (\<lambda>i. i \<in> set ys) xs @ filter (\<lambda>i. i \<notin> set ys) xs)"
    by (rule signers_power_mset)
  moreover have "signers_power (get s) ?union \<le> unat (total_power s)"
    using assms by (intro power_le_total) auto
  ultimately show ?thesis
    by simp
qed

text \<open>Two quorums overlap in at least a third of the total voting power.\<close>

lemma quorum_overlap:
  assumes "wf s" and "distinct xs" and "distinct ys"
    and "2 * unat (total_power s) \<le> 3 * signers_power (get s) xs"
    and "2 * unat (total_power s) \<le> 3 * signers_power (get s) ys"
  shows "unat (total_power s) \<le> 3 * signers_power (get s) (filter (\<lambda>i. i \<in> set ys) xs)"
  using overlap [OF assms(1-3)] assms(4,5) by linarith

end

section \<open>Snapshots satisfy the contract\<close>

text \<open>
  A snapshot is well formed when it was built from validators with distinct identifiers whose total
  voting power fits in 64 bits.
\<close>

definition snapshot_wf :: "setSnapshot \<Rightarrow> bool" where
  "snapshot_wf s \<longleftrightarrow>
     distinct (map val_ID (set_validators s)) \<and> list_power (set_validators s) < 2 ^ 64
     \<and> s = newSetSnapshot (set_validators s)"

lemma foldl_index_by_ID:
  "distinct (map fst m @ map val_ID vs) \<Longrightarrow>
     foldl (\<lambda>m v. AList.update (val_ID v) v m) m vs = m @ map (\<lambda>v. (val_ID v, v)) vs"
proof (induction vs arbitrary: m)
  case (Cons v vs)
  then have "AList.update (val_ID v) v m = m @ [(val_ID v, v)]"
    by (intro update_append_absent) auto
  with Cons show ?case
    by simp
qed simp

lemma index_by_ID_distinct:
  "distinct (map val_ID vs) \<Longrightarrow> index_by_ID vs = map (\<lambda>v. (val_ID v, v)) vs"
  by (simp add: index_by_ID_def foldl_index_by_ID)

lemma saturating_fold:
  "unat (foldl (\<lambda>t v. MustAddVotingPowerSaturating t (val_VotingPower v)) t vs)
     = min (unat t + list_power vs) (2 ^ 64 - 1)"
proof (induction vs arbitrary: t)
  case Nil
  then show ?case
    using unat_u64_less [of t] by (simp add: list_power_def)
next
  case (Cons v vs)
  then show ?case
    by (simp add: unat_saturating_power list_power_def min_def)
qed

lemma newSetSnapshot_simps [simp]:
  "set_validators (newSetSnapshot vs) = vs"
  "set_byID (newSetSnapshot vs) = index_by_ID vs"
  "set_hash (newSetSnapshot vs) = hashValidators vs"
  by (simp_all add: newSetSnapshot_def)

lemma newSetSnapshot_total:
  "unat (set_totalPower (newSetSnapshot vs)) = min (list_power vs) (2 ^ 64 - 1)"
  by (simp add: newSetSnapshot_def saturating_fold)

lemma newSetSnapshot_wf:
  "snapshot_wf (newSetSnapshot vs) \<longleftrightarrow> distinct (map val_ID vs) \<and> list_power vs < 2 ^ 64"
  by (simp add: snapshot_wf_def)

lemma Set_Get_iff:
  assumes "snapshot_wf s"
  shows "Set_Get s i = Some v \<longleftrightarrow> v \<in> set (set_validators s) \<and> val_ID v = i"
proof -
  from assms have d: "distinct (map val_ID (set_validators s))"
    and s: "s = newSetSnapshot (set_validators s)"
    by (auto simp: snapshot_wf_def)
  then have "set_byID s = map (\<lambda>v. (val_ID v, v)) (set_validators s)"
    by (metis index_by_ID_distinct newSetSnapshot_simps(2))
  moreover have "distinct (map fst (map (\<lambda>v. (val_ID v, v)) (set_validators s)))"
    using d by (simp add: comp_def)
  ultimately show ?thesis
    by (auto simp: Set_Get_def map_of_eq_Some_iff simp del: map_map)
qed

interpretation snap: validator_set snapshot_wf Set_TotalVotingPower Set_Get Set_List
proof unfold_locales
  fix s :: setSnapshot
  assume wf: "snapshot_wf s"
  then show "unat (Set_TotalVotingPower s) = list_power (Set_List s)"
    using newSetSnapshot_total [of "set_validators s"]
    by (simp add: snapshot_wf_def Set_TotalVotingPower_def Set_List_def)
qed (auto simp: Set_Get_iff Set_List_def snapshot_wf_def)

section \<open>Proposer rotation\<close>

lemma sort_key_ids: "map val_ID (sort_key val_ID vs) = sort (map val_ID vs)"
  by (rule properties_for_sort [symmetric]) simp_all

text \<open>The schedule of a validator list: the identifiers of the active validators in order.\<close>

definition schedule :: "Validator list \<Rightarrow> ValidatorID list" where
  "schedule vs = sort (map val_ID (activeValidators vs))"

lemma length_schedule [simp]: "length (schedule vs) = length (activeValidators vs)"
  by (simp add: schedule_def)

lemma schedule_empty [simp]: "schedule vs = [] \<longleftrightarrow> activeValidators vs = []"
  by (metis length_0_conv length_schedule)

lemma set_schedule: "set (schedule vs) = {val_ID v | v. v \<in> set vs \<and> 0 < val_VotingPower v}"
  by (auto simp: schedule_def activeValidators_def)

lemma length_active_le: "length (activeValidators vs) \<le> length vs"
  by (simp add: activeValidators_def)

lemma unat_mod_len:
  assumes "length xs < 2 ^ 64" "xs \<noteq> []"
  shows "unat (w mod u64_len xs) = unat w mod length xs"
  using assms by (simp add: u64_len_def unat_mod u64_of_nat)

lemma SelectProposer_schedule:
  assumes "length vs < 2 ^ 64"
  shows "SelectProposer vs h r =
     (if schedule vs = [] then None
      else Some (schedule vs ! (unat ((if h = 0 then 1 else h) - 1 + r) mod length (schedule vs))))"
proof (cases "activeValidators vs = []")
  case False
  let ?a = "sort_key val_ID (activeValidators vs)"
  let ?w = "(if h = 0 then 1 else h) - 1 + r"
  from assms length_active_le [of vs] have len: "length ?a < 2 ^ 64"
    by simp
  from False have ne: "?a \<noteq> []"
    by (metis length_0_conv length_sort)
  have idx: "unat (?w mod u64_len ?a) = unat ?w mod length ?a"
    by (rule unat_mod_len [OF len ne])
  have "unat ?w mod length ?a < length ?a"
    using ne by (intro mod_less_divisor) (simp only: length_greater_0_conv not_False_eq_True)
  then have "val_ID (?a ! (unat ?w mod length ?a)) = map val_ID ?a ! (unat ?w mod length ?a)"
    by simp
  moreover have "schedule vs = map val_ID ?a"
    by (simp add: schedule_def sort_key_ids)
  ultimately show ?thesis
    using False idx ne by (simp add: SelectProposer_def Let_def)
qed (simp add: SelectProposer_def Let_def)

lemma SelectProposer_active:
  assumes "length vs < 2 ^ 64" and "SelectProposer vs h r = Some i"
  shows "\<exists>v \<in> set vs. val_ID v = i \<and> 0 < val_VotingPower v"
proof -
  from assms have "i \<in> set (schedule vs)"
    by (auto simp: SelectProposer_schedule split: if_splits)
  then show ?thesis
    by (auto simp: set_schedule)
qed

lemma schedule_mset: "mset vs = mset vs' \<Longrightarrow> schedule vs = schedule vs'"
  unfolding schedule_def activeValidators_def
  by (rule properties_for_sort) (simp_all add: mset_filter)

lemma map_rotate:
  assumes "xs \<noteq> []"
  shows "map (\<lambda>k. xs ! ((a + k) mod length xs)) [0..<length xs] = rotate a xs"
  by (rule nth_equalityI) (simp_all add: nth_rotate)

lemma proposer_round_index:
  fixes h r :: u64
  assumes "h \<noteq> 0" and "unat h + unat r + n \<le> 2 ^ 64" and "k < n"
  shows "unat (h - 1 + (r + word_of_nat k)) = (unat h - 1 + unat r) + k"
proof -
  have h: "unat (h - 1) = unat h - 1" and pos: "0 < unat h"
    using assms(1) by (simp_all add: unat_minus_one unat_gt_0)
  have k: "unat (word_of_nat k :: u64) = k"
    using assms by (intro u64_of_nat) linarith
  have "unat (r + word_of_nat k :: u64) = unat r + k"
    using assms k pos by (subst unat_add_u64) auto
  then show ?thesis
    using assms h pos by (subst unat_add_u64) auto
qed

lemma proposer_rotation:
  assumes "length vs < 2 ^ 64" and "schedule vs \<noteq> []" and "h \<noteq> 0"
    and "unat h + unat r + length (schedule vs) \<le> 2 ^ 64"
  shows "map (\<lambda>k. SelectProposer vs h (r + word_of_nat k)) [0..<length (schedule vs)]
     = map Some (rotate (unat h - 1 + unat r) (schedule vs))"
proof -
  have "map (\<lambda>k. SelectProposer vs h (r + word_of_nat k)) [0..<length (schedule vs)]
    = map (\<lambda>k. Some (schedule vs ! ((unat h - 1 + unat r + k) mod length (schedule vs))))
        [0..<length (schedule vs)]"
    using assms proposer_round_index [OF assms(3,4)]
    by (intro map_cong) (simp_all add: SelectProposer_schedule)
  also have "\<dots> = map Some (rotate (unat h - 1 + unat r) (schedule vs))"
    by (simp only: map_rotate [OF assms(2), symmetric] map_map comp_def)
  finally show ?thesis .
qed

section \<open>Properties\<close>

text \<open>
  Proposers rotate.  Over as many consecutive rounds of a height as there are active validators, every
  active validator is selected exactly once, in the order of the identifiers, starting where the height says.
\<close>

theorem proposers_rotate:
  assumes "length vs < 2 ^ 64" and "schedule vs \<noteq> []" and "h \<noteq> 0"
    and "unat h + unat r + length (schedule vs) \<le> 2 ^ 64"
  shows "map (\<lambda>k. SelectProposer vs h (r + word_of_nat k)) [0..<length (schedule vs)]
     = map Some (rotate (unat h - 1 + unat r) (schedule vs))"
  by (rule proposer_rotation [OF assms])

theorem proposers_rotate_witness:
  "\<exists>a b. schedule [a, b] = [''x'', ''y'']
     \<and> map (\<lambda>k. SelectProposer [a, b] 2 (word_of_nat k)) [0..<2] = [Some ''y'', Some ''x'']"
proof -
  let ?v = "\<lambda>i. \<lparr>val_ID = i, val_Address = i, val_PublicKey = i, val_VotingPower = 3, val_Stake = 3, val_Metadata = None\<rparr>"
  let ?vs = "[?v ''x'', ?v ''y'']"
  have s: "schedule ?vs = [''x'', ''y'']"
    by (simp add: schedule_def activeValidators_def sort_key_def less_eq_char_def)
  have "map (\<lambda>k. SelectProposer ?vs 2 (0 + word_of_nat k)) [0..<length (schedule ?vs)]
      = map Some (rotate (unat (2 :: u64) - 1 + unat (0 :: u64)) (schedule ?vs))"
    by (rule proposers_rotate) (simp_all add: s)
  then have "map (\<lambda>k. SelectProposer ?vs 2 (word_of_nat k)) [0..<2] = [Some ''y'', Some ''x'']"
    by (simp add: s upt_conv_Cons)
  with s show ?thesis
    by (intro exI [of _ "?v ''x''"] exI [of _ "?v ''y''"] conjI)
qed

end
