(* ===== verification/Registry.thy ===== *)
theory Registry
  imports Validator
begin

text \<open>
  The versioned validator registry \<^verbatim>\<open>InMemoryRegistry\<close> (\<^verbatim>\<open>validator/registry.go\<close>).  The registry keeps
  one version of the validator set per height at which it changed; a lookup at a height uses the
  latest version at or below it.  Its abstract specification is a function from heights to validator
  maps, \<open>reg_at\<close>; every operation is shown to change it only from the height of the operation up to
  the next recorded version, and to keep the invariant \<open>registry_inv\<close>.
\<close>

section \<open>State (registry.go)\<close>

datatype RotationEventType = RotationEventJoin | RotationEventLeave | RotationEventPowerChange

record RotationEvent =
  ev_Height :: Height
  ev_Type :: RotationEventType
  ev_ValidatorID :: ValidatorID
  ev_VotingPower :: VotingPower
  ev_ValidatorSetHash :: hash

record validatorSetVersion =
  ver_height :: Height
  ver_validators :: "(ValidatorID, Validator) gomap"
  ver_hash :: hash

record InMemoryRegistry =
  reg_policy :: "AdmissionPolicy option"
  reg_validators :: "(ValidatorID, Validator) gomap"
  reg_effectiveHeight :: Height
  reg_versions :: "validatorSetVersion list"
  reg_events :: "RotationEvent list"

section \<open>Operations\<close>

definition sortedValidators :: "Validator list \<Rightarrow> Validator list" where
  "sortedValidators vs = sort_key val_ID vs"

definition sortedValidatorMap :: "(ValidatorID, Validator) gomap \<Rightarrow> Validator list" where
  "sortedValidatorMap m = sortedValidators (map snd m)"

definition snapshot :: "InMemoryRegistry \<Rightarrow> setSnapshot" where
  "snapshot r = newSetSnapshot (sortedValidatorMap (reg_validators r))"

definition selectVersion :: "validatorSetVersion list \<Rightarrow> Height \<Rightarrow> validatorSetVersion option" where
  "selectVersion versions height =
     foldl (\<lambda>selected version. if ver_height version \<le> height then Some version else selected)
       None versions"

definition snapshotAt :: "InMemoryRegistry \<Rightarrow> Height \<Rightarrow> setSnapshot" where
  "snapshotAt r height =
     (if reg_versions r = [] then snapshot r
      else case selectVersion (reg_versions r) height of
             None \<Rightarrow> newSetSnapshot []
           | Some version \<Rightarrow> newSetSnapshot (sortedValidatorMap (ver_validators version)))"

text \<open>The loop of \<^verbatim>\<open>recordVersion\<close> that overwrites a version of the same height.\<close>

fun replaceVersion ::
    "validatorSetVersion \<Rightarrow> validatorSetVersion list \<Rightarrow> validatorSetVersion list option" where
  "replaceVersion v [] = None"
| "replaceVersion v (w # ws) =
     (if ver_height w = ver_height v then Some (v # ws)
      else map_option (Cons w) (replaceVersion v ws))"

definition recordVersion :: "InMemoryRegistry \<Rightarrow> Height \<Rightarrow> InMemoryRegistry \<times> hash" where
  "recordVersion r height =
     (let height = (if height = 0 then 1 else height);
          snap = snapshot r;
          version = \<lparr>ver_height = height, ver_validators = toMap snap, ver_hash = Set_Hash snap\<rparr>;
          versions = (case replaceVersion version (reg_versions r) of
                        Some vs \<Rightarrow> vs
                      | None \<Rightarrow> sort_key ver_height (reg_versions r @ [version]))
      in (r\<lparr>reg_versions := versions\<rparr>, ver_hash version))"

definition recordMutation ::
    "InMemoryRegistry \<Rightarrow> Height \<Rightarrow> RotationEventType \<Rightarrow> ValidatorID \<Rightarrow> VotingPower \<Rightarrow> InMemoryRegistry" where
  "recordMutation r height eventType validatorID pow =
     (let (r, h) = recordVersion r height in
      r\<lparr>reg_events := reg_events r @
            [\<lparr>ev_Height = height, ev_Type = eventType, ev_ValidatorID = validatorID,
              ev_VotingPower = pow, ev_ValidatorSetHash = h\<rparr>],
         reg_effectiveHeight := height\<rparr>)"

definition NewInMemoryRegistry ::
    "AdmissionPolicy option \<Rightarrow> Validator list \<Rightarrow> validator_error + InMemoryRegistry" where
  "NewInMemoryRegistry policy initialValidators =
     (if \<exists>v \<in> set initialValidators. val_VotingPower v = 0 then Inl ErrZeroVotingPower
      else Inr (fst (recordVersion
        \<lparr>reg_policy = policy, reg_validators = index_by_ID initialValidators,
         reg_effectiveHeight = 1, reg_versions = [], reg_events = []\<rparr> 1)))"

definition SetEffectiveHeight :: "InMemoryRegistry \<Rightarrow> Height \<Rightarrow> InMemoryRegistry" where
  "SetEffectiveHeight r height =
     r\<lparr>reg_effectiveHeight := (if height = 0 then 1 else height)\<rparr>"

definition ValidatorSet :: "InMemoryRegistry \<Rightarrow> ctx \<Rightarrow> Height \<Rightarrow> validator_error + setSnapshot" where
  "ValidatorSet r ctx height =
     (case ctx of
        Some e \<Rightarrow> Inl (ValidatorCtxError e)
      | None \<Rightarrow> Inr (snapshotAt r (if height = 0 then reg_effectiveHeight r else height)))"

definition ApplyJoinAt ::
    "InMemoryRegistry \<Rightarrow> ctx \<Rightarrow> Height \<Rightarrow> Candidate \<Rightarrow> InMemoryRegistry \<times> (validator_error + Validator)" where
  "ApplyJoinAt r ctx height candidate =
     (case ctx of
        Some e \<Rightarrow> (r, Inl (ValidatorCtxError e))
      | None \<Rightarrow>
          if cand_Address candidate = [] then (r, Inl ErrMissingCandidateID)
          else
            let height = (if height = 0 then reg_effectiveHeight r else height);
                r = r\<lparr>reg_validators := toMap (snapshotAt r height)\<rparr>;
                validatorID = cand_Address candidate
            in if map_of (reg_validators r) validatorID \<noteq> None then (r, Inl ErrValidatorExists)
               else
                 case (case reg_policy r of None \<Rightarrow> None
                       | Some canJoin \<Rightarrow> canJoin ctx candidate (snapshot r)) of
                   Some e \<Rightarrow> (r, Inl e)
                 | None \<Rightarrow>
                     let v = \<lparr>val_ID = validatorID, val_Address = cand_Address candidate,
                              val_PublicKey = cand_PublicKey candidate,
                              val_VotingPower = cand_Stake candidate, val_Stake = cand_Stake candidate,
                              val_Metadata = cand_Metadata candidate\<rparr>
                     in if val_VotingPower v = 0 then (r, Inl ErrZeroVotingPower)
                        else
                          let r = r\<lparr>reg_validators := AList.update validatorID v (reg_validators r)\<rparr>
                          in (recordMutation r height RotationEventJoin validatorID (val_VotingPower v),
                              Inr v))"

definition ApplyJoin ::
    "InMemoryRegistry \<Rightarrow> ctx \<Rightarrow> Candidate \<Rightarrow> InMemoryRegistry \<times> (validator_error + Validator)" where
  "ApplyJoin r ctx candidate = ApplyJoinAt r ctx (reg_effectiveHeight r) candidate"

definition ApplyLeaveAt ::
    "InMemoryRegistry \<Rightarrow> ctx \<Rightarrow> Height \<Rightarrow> ValidatorID \<Rightarrow> InMemoryRegistry \<times> validator_error option" where
  "ApplyLeaveAt r ctx height i =
     (case ctx of
        Some e \<Rightarrow> (r, Some (ValidatorCtxError e))
      | None \<Rightarrow>
          let height = (if height = 0 then reg_effectiveHeight r else height);
              r = r\<lparr>reg_validators := toMap (snapshotAt r height)\<rparr>
          in if map_of (reg_validators r) i = None then (r, Some ErrValidatorNotFound)
             else
               let r = r\<lparr>reg_validators := AList.delete i (reg_validators r)\<rparr>
               in (recordMutation r height RotationEventLeave i 0, None))"

definition ApplyLeave ::
    "InMemoryRegistry \<Rightarrow> ctx \<Rightarrow> ValidatorID \<Rightarrow> InMemoryRegistry \<times> validator_error option" where
  "ApplyLeave r ctx i = ApplyLeaveAt r ctx (reg_effectiveHeight r) i"

definition UpdateVotingPowerAt ::
    "InMemoryRegistry \<Rightarrow> ctx \<Rightarrow> Height \<Rightarrow> ValidatorID \<Rightarrow> VotingPower
       \<Rightarrow> InMemoryRegistry \<times> validator_error option" where
  "UpdateVotingPowerAt r ctx height i pow =
     (case ctx of
        Some e \<Rightarrow> (r, Some (ValidatorCtxError e))
      | None \<Rightarrow>
          if pow = 0 then (r, Some ErrZeroVotingPower)
          else
            let height = (if height = 0 then reg_effectiveHeight r else height);
                r = r\<lparr>reg_validators := toMap (snapshotAt r height)\<rparr>
            in case map_of (reg_validators r) i of
                 None \<Rightarrow> (r, Some ErrValidatorNotFound)
               | Some v \<Rightarrow>
                   let r = r\<lparr>reg_validators :=
                               AList.update i (v\<lparr>val_VotingPower := pow\<rparr>) (reg_validators r)\<rparr>
                   in (recordMutation r height RotationEventPowerChange i pow, None))"

definition UpdateVotingPower ::
    "InMemoryRegistry \<Rightarrow> ctx \<Rightarrow> ValidatorID \<Rightarrow> VotingPower \<Rightarrow> InMemoryRegistry \<times> validator_error option" where
  "UpdateVotingPower r ctx i pow = UpdateVotingPowerAt r ctx (reg_effectiveHeight r) i pow"

definition RotationEvents :: "InMemoryRegistry \<Rightarrow> RotationEvent list" where
  "RotationEvents r = reg_events r"

section \<open>Version lists\<close>

definition versions_sorted :: "validatorSetVersion list \<Rightarrow> bool" where
  "versions_sorted vs \<longleftrightarrow> sorted_wrt (<) (map ver_height vs)"

lemma versions_sorted_Nil [simp]: "versions_sorted []"
  by (simp add: versions_sorted_def)

lemma versions_sorted_snoc:
  "versions_sorted (vs @ [v]) \<longleftrightarrow> versions_sorted vs \<and> (\<forall>w \<in> set vs. ver_height w < ver_height v)"
  by (auto simp: versions_sorted_def sorted_wrt_append)

lemma versions_sorted_iff:
  "versions_sorted vs \<longleftrightarrow> sorted (map ver_height vs) \<and> distinct (map ver_height vs)"
  by (simp add: versions_sorted_def strict_sorted_iff)

lemma selectVersion_snoc:
  "selectVersion (vs @ [v]) h = (if ver_height v \<le> h then Some v else selectVersion vs h)"
  by (simp add: selectVersion_def)

lemma selectVersion_None:
  "selectVersion vs h = None \<longleftrightarrow> (\<forall>w \<in> set vs. \<not> ver_height w \<le> h)"
  by (induction vs rule: rev_induct) (auto simp: selectVersion_snoc, simp add: selectVersion_def)

text \<open>On a sorted list the loop finds the latest version at or below the height.\<close>

lemma selectVersion_Some:
  "versions_sorted vs \<Longrightarrow> selectVersion vs h = Some v \<longleftrightarrow>
     v \<in> set vs \<and> ver_height v \<le> h \<and> (\<forall>w \<in> set vs. ver_height w \<le> h \<longrightarrow> ver_height w \<le> ver_height v)"
proof (induction vs rule: rev_induct)
  case Nil
  then show ?case
    by (simp add: selectVersion_def)
next
  case (snoc w vs)
  then show ?case
    by (auto simp: selectVersion_snoc versions_sorted_snoc)
qed

lemma replaceVersion_None:
  "replaceVersion v vs = None \<longleftrightarrow> ver_height v \<notin> ver_height ` set vs"
  by (induction vs) auto

lemma replaceVersion_heights:
  "replaceVersion v vs = Some vs' \<Longrightarrow> map ver_height vs' = map ver_height vs"
  by (induction vs arbitrary: vs') (auto split: if_splits)

lemma replaceVersion_set:
  "replaceVersion v vs = Some vs' \<Longrightarrow> distinct (map ver_height vs) \<Longrightarrow>
     set vs' = insert v {w \<in> set vs. ver_height w \<noteq> ver_height v}"
proof (induction vs arbitrary: vs')
  case (Cons w ws)
  then show ?case
    by (cases "ver_height w = ver_height v") (auto simp: image_iff, metis)
qed simp

definition putVersion :: "validatorSetVersion \<Rightarrow> validatorSetVersion list \<Rightarrow> validatorSetVersion list" where
  "putVersion v vs =
     (case replaceVersion v vs of Some ws \<Rightarrow> ws | None \<Rightarrow> sort_key ver_height (vs @ [v]))"

lemma putVersion_sorted: "versions_sorted vs \<Longrightarrow> versions_sorted (putVersion v vs)"
proof (cases "replaceVersion v vs")
  case None
  assume "versions_sorted vs"
  with None have "distinct (map ver_height (vs @ [v]))"
    by (simp add: versions_sorted_iff replaceVersion_None)
  then have "distinct (map ver_height (sort_key ver_height (vs @ [v])))"
    by (metis distinct_map distinct_sort set_sort)
  with None show ?thesis
    by (simp add: putVersion_def versions_sorted_iff)
next
  case (Some ws)
  assume "versions_sorted vs"
  with Some show ?thesis
    by (simp add: putVersion_def versions_sorted_def replaceVersion_heights)
qed

lemma putVersion_set:
  "versions_sorted vs \<Longrightarrow> set (putVersion v vs) = insert v {w \<in> set vs. ver_height w \<noteq> ver_height v}"
proof (cases "replaceVersion v vs")
  case None
  then have "ver_height v \<notin> ver_height ` set vs"
    by (simp add: replaceVersion_None)
  then have "{w \<in> set vs. ver_height w \<noteq> ver_height v} = set vs"
    by (auto simp: image_iff)
  with None show ?thesis
    by (simp add: putVersion_def)
qed (simp add: putVersion_def replaceVersion_set versions_sorted_iff)

text \<open>Looking up after recording: the new version answers from its height up to the next one.\<close>

lemma selectVersion_put:
  assumes "versions_sorted vs"
  shows "selectVersion (putVersion v vs) h =
    (if ver_height v \<le> h \<and> (\<forall>w \<in> set vs. ver_height w \<le> h \<longrightarrow> ver_height w \<le> ver_height v)
     then Some v else selectVersion vs h)"
proof (cases "selectVersion vs h")
  case None
  then have none: "\<forall>w \<in> set vs. \<not> ver_height w \<le> h"
    by (simp add: selectVersion_None)
  then have "selectVersion (putVersion v vs) h = (if ver_height v \<le> h then Some v else None)"
    using assms
    by (auto simp: selectVersion_None [of "putVersion v vs"] selectVersion_Some putVersion_set
        putVersion_sorted)
  with None none show ?thesis
    by simp
next
  case (Some w)
  with assms have w: "w \<in> set vs" "ver_height w \<le> h"
      "\<forall>x \<in> set vs. ver_height x \<le> h \<longrightarrow> ver_height x \<le> ver_height w"
    by (auto simp: selectVersion_Some)
  show ?thesis
  proof (cases "ver_height v \<le> h \<and> (\<forall>x \<in> set vs. ver_height x \<le> h \<longrightarrow> ver_height x \<le> ver_height v)")
    case True
    with assms show ?thesis
      by (auto simp: selectVersion_Some putVersion_set putVersion_sorted)
  next
    case False
    with w have "ver_height w \<noteq> ver_height v" and "ver_height v \<le> h \<longrightarrow> ver_height v \<le> ver_height w"
      by (auto simp: not_le)
    with w assms have "selectVersion (putVersion v vs) h = Some w"
      by (auto simp: selectVersion_Some putVersion_set putVersion_sorted)
    with False Some show ?thesis
      by (simp only: if_False)
  qed
qed

section \<open>Invariant and abstract specification\<close>

definition map_ok :: "(ValidatorID, Validator) gomap \<Rightarrow> bool" where
  "map_ok m \<longleftrightarrow> distinct (map fst m) \<and> (\<forall>(i, v) \<in> set m. val_ID v = i \<and> val_VotingPower v \<noteq> 0)"

definition version_ok :: "validatorSetVersion \<Rightarrow> bool" where
  "version_ok v \<longleftrightarrow> ver_height v \<noteq> 0 \<and> map_ok (ver_validators v)
     \<and> ver_hash v = hashValidators (sortedValidatorMap (ver_validators v))"

definition registry_inv :: "InMemoryRegistry \<Rightarrow> bool" where
  "registry_inv r \<longleftrightarrow> reg_versions r \<noteq> [] \<and> versions_sorted (reg_versions r)
     \<and> (\<forall>v \<in> set (reg_versions r). version_ok v) \<and> reg_effectiveHeight r \<noteq> 0"

text \<open>The specification: the validator map in force at every height.\<close>

definition reg_at :: "InMemoryRegistry \<Rightarrow> Height \<Rightarrow> (ValidatorID \<rightharpoonup> Validator)" where
  "reg_at r h = (case selectVersion (reg_versions r) h of
                   None \<Rightarrow> Map.empty | Some v \<Rightarrow> map_of (ver_validators v))"

text \<open>Height \<open>h'\<close> is governed by a change made at height \<open>h\<close>.\<close>

definition governs :: "InMemoryRegistry \<Rightarrow> Height \<Rightarrow> Height \<Rightarrow> bool" where
  "governs r h h' \<longleftrightarrow> h \<le> h' \<and> (\<forall>v \<in> set (reg_versions r). ver_height v \<le> h' \<longrightarrow> ver_height v \<le> h)"

lemma map_ok_ids: "map_ok m \<Longrightarrow> map fst m = map val_ID (map snd m)"
  by (auto simp: map_ok_def)

lemma map_ok_sorted_distinct: "map_ok m \<Longrightarrow> distinct (map val_ID (sortedValidatorMap m))"
  unfolding sortedValidatorMap_def sortedValidators_def
  by (metis distinct_sort map_ok_def map_ok_ids sort_key_ids)

lemma index_by_ID_ok:
  "distinct (map val_ID vs) \<Longrightarrow> \<forall>v \<in> set vs. val_VotingPower v \<noteq> 0 \<Longrightarrow> map_ok (index_by_ID vs)"
  by (auto simp: index_by_ID_distinct map_ok_def comp_def)

lemma map_ok_index:
  assumes "map_ok m"
  shows "map_ok (index_by_ID (sortedValidatorMap m))"
  using assms map_ok_sorted_distinct [OF assms]
  by (intro index_by_ID_ok) (auto simp: sortedValidatorMap_def sortedValidators_def map_ok_def)

lemma map_of_index:
  assumes "map_ok m"
  shows "map_of (index_by_ID (sortedValidatorMap m)) = map_of m"
proof
  fix i
  let ?vs = "sortedValidatorMap m"
  note d = map_ok_sorted_distinct [OF assms]
  have "set (map (\<lambda>v. (val_ID v, v)) ?vs) = set m"
    using assms by (force simp: sortedValidatorMap_def sortedValidators_def map_ok_def)
  moreover have "distinct (map fst (map (\<lambda>v. (val_ID v, v)) ?vs))"
    using d by (simp add: comp_def)
  moreover have "distinct (map fst m)"
    using assms by (simp add: map_ok_def)
  ultimately show "map_of (index_by_ID ?vs) i = map_of m i"
    by (metis d index_by_ID_distinct map_of_inject_set)
qed

lemma index_idem:
  assumes "map_ok m"
  shows "sortedValidatorMap (index_by_ID (sortedValidatorMap m)) = sortedValidatorMap m"
proof -
  have "map snd (index_by_ID (sortedValidatorMap m)) = sortedValidatorMap m"
    using map_ok_sorted_distinct [OF assms] by (simp add: index_by_ID_distinct comp_def)
  then show ?thesis
    by (simp add: sortedValidatorMap_def sortedValidators_def sort_key_id_if_sorted)
qed

section \<open>Effect of a recorded change\<close>

lemma recordVersion_eq:
  "h \<noteq> 0 \<Longrightarrow> recordVersion r h =
     (r\<lparr>reg_versions := putVersion
          \<lparr>ver_height = h, ver_validators = index_by_ID (sortedValidatorMap (reg_validators r)),
           ver_hash = hashValidators (sortedValidatorMap (reg_validators r))\<rparr> (reg_versions r)\<rparr>,
      hashValidators (sortedValidatorMap (reg_validators r)))"
  unfolding recordVersion_def Let_def putVersion_def snapshot_def toMap_def Set_Hash_def
    newSetSnapshot_simps
  by simp

lemma new_version_ok:
  "h \<noteq> 0 \<Longrightarrow> map_ok m \<Longrightarrow>
     version_ok \<lparr>ver_height = h, ver_validators = index_by_ID (sortedValidatorMap m),
       ver_hash = hashValidators (sortedValidatorMap m)\<rparr>"
  by (simp add: version_ok_def map_ok_index index_idem)

lemma putVersion_ne: "putVersion v vs \<noteq> []"
  by (cases vs) (auto simp: putVersion_def split: option.splits if_splits
      dest: arg_cong [of _ _ length])

lemma recordMutation_inv:
  assumes "registry_inv r" and "map_ok m" and "h \<noteq> 0"
  shows "registry_inv (recordMutation (r\<lparr>reg_validators := m\<rparr>) h t i p)"
  using assms new_version_ok [OF assms(3,2)]
  by (auto simp: recordMutation_def recordVersion_eq registry_inv_def putVersion_sorted
      putVersion_set putVersion_ne)

lemma recordMutation_at:
  assumes "registry_inv r" and "map_ok m" and "h \<noteq> 0"
  shows "reg_at (recordMutation (r\<lparr>reg_validators := m\<rparr>) h t i p) h' =
     (if governs r h h' then map_of m else reg_at r h')"
  using assms
  by (auto simp: recordMutation_def recordVersion_eq registry_inv_def reg_at_def selectVersion_put
      governs_def map_of_index)

lemma snapshotAt_inv:
  assumes "registry_inv r"
  shows "\<exists>m. map_ok m \<and> snapshotAt r h = newSetSnapshot (sortedValidatorMap m) \<and> reg_at r h = map_of m"
proof (cases "selectVersion (reg_versions r) h")
  case None
  with assms have "snapshotAt r h = newSetSnapshot (sortedValidatorMap [])" "reg_at r h = map_of []"
    by (auto simp: snapshotAt_def registry_inv_def reg_at_def sortedValidatorMap_def sortedValidators_def)
  then show ?thesis
    by (intro exI [of _ "[]"]) (simp add: map_ok_def)
next
  case (Some v)
  with assms have "version_ok v"
    by (auto simp: registry_inv_def selectVersion_Some)
  with assms Some show ?thesis
    by (auto simp: snapshotAt_def registry_inv_def reg_at_def version_ok_def)
qed

lemma toMap_snapshotAt:
  assumes "registry_inv r"
  shows "map_ok (toMap (snapshotAt r h))" "map_of (toMap (snapshotAt r h)) = reg_at r h"
  using snapshotAt_inv [OF assms, of h] by (auto simp: toMap_def map_ok_index map_of_index)

lemma Set_Get_snapshotAt: "registry_inv r \<Longrightarrow> Set_Get (snapshotAt r h) = reg_at r h"
  using snapshotAt_inv [of r h] by (auto simp: Set_Get_def map_of_index)

lemma map_ok_update:
  "map_ok m \<Longrightarrow> val_ID v = i \<Longrightarrow> val_VotingPower v \<noteq> 0 \<Longrightarrow> map_ok (AList.update i v m)"
  by (auto simp: map_ok_def distinct_update dest: update_set_cases)

lemma map_ok_delete: "map_ok m \<Longrightarrow> map_ok (AList.delete i m)"
  by (auto simp: map_ok_def AList.delete_eq distinct_map_filter)

section \<open>The operations refine the specification\<close>

definition effective :: "InMemoryRegistry \<Rightarrow> Height \<Rightarrow> Height" where
  "effective r h = (if h = 0 then reg_effectiveHeight r else h)"

definition joined :: "Candidate \<Rightarrow> Validator" where
  "joined c = \<lparr>val_ID = cand_Address c, val_Address = cand_Address c,
     val_PublicKey = cand_PublicKey c, val_VotingPower = cand_Stake c, val_Stake = cand_Stake c,
     val_Metadata = cand_Metadata c\<rparr>"

lemma effective_nz: "registry_inv r \<Longrightarrow> effective r h \<noteq> 0"
  by (simp add: effective_def registry_inv_def)

lemma inv_validators [simp]:
  "registry_inv (r\<lparr>reg_validators := m\<rparr>) = registry_inv r"
  "reg_at (r\<lparr>reg_validators := m\<rparr>) = reg_at r"
  by (auto simp: registry_inv_def reg_at_def)

lemma ApplyJoinAt_spec:
  assumes inv: "registry_inv r" and run: "ApplyJoinAt r ctx h c = (r', res)"
  shows "registry_inv r' \<and>
    (case res of
       Inl e \<Rightarrow> reg_at r' = reg_at r
     | Inr v \<Rightarrow> v = joined c \<and> cand_Stake c \<noteq> 0 \<and> reg_at r (effective r h) (cand_Address c) = None
         \<and> (\<forall>h'. reg_at r' h' =
              (if governs r (effective r h) h'
               then (reg_at r (effective r h))(cand_Address c \<mapsto> joined c) else reg_at r h')))"
proof -
  let ?h = "effective r h"
  let ?m = "toMap (snapshotAt r ?h)"
  let ?m' = "AList.update (cand_Address c) (joined c) ?m"
  note m = toMap_snapshotAt [OF inv, of ?h]
  have err: "registry_inv (r\<lparr>reg_validators := ?m\<rparr>) \<and> reg_at (r\<lparr>reg_validators := ?m\<rparr>) = reg_at r"
    using inv by simp
  show ?thesis
  proof (cases res)
    case (Inl e)
    with run have "r' = r \<or> r' = r\<lparr>reg_validators := ?m\<rparr>"
      by (auto simp: ApplyJoinAt_def Let_def effective_def split: option.splits if_splits)
    with err inv Inl show ?thesis
      by auto
  next
    case (Inr v)
    with run have ok: "cand_Stake c \<noteq> 0" "map_of ?m (cand_Address c) = None" "v = joined c"
      and r': "r' = recordMutation (r\<lparr>reg_validators := ?m'\<rparr>) ?h RotationEventJoin
          (cand_Address c) (cand_Stake c)"
      by (auto simp: ApplyJoinAt_def Let_def effective_def joined_def split: option.splits if_splits)
    have "map_ok ?m'"
      using m(1) ok(1) by (intro map_ok_update) (auto simp: joined_def)
    from recordMutation_inv [OF inv this effective_nz [OF inv]]
      recordMutation_at [OF inv this effective_nz [OF inv]] ok m(2) r' Inr
    show ?thesis
      by (simp add: update_conv')
  qed
qed

lemma ApplyLeaveAt_spec:
  assumes inv: "registry_inv r" and run: "ApplyLeaveAt r ctx h i = (r', res)"
  shows "registry_inv r' \<and>
    (case res of
       Some e \<Rightarrow> reg_at r' = reg_at r
     | None \<Rightarrow> reg_at r (effective r h) i \<noteq> None
         \<and> (\<forall>h'. reg_at r' h' =
              (if governs r (effective r h) h'
               then (reg_at r (effective r h))(i := None) else reg_at r h')))"
proof -
  let ?h = "effective r h"
  let ?m = "toMap (snapshotAt r ?h)"
  note m = toMap_snapshotAt [OF inv, of ?h]
  show ?thesis
  proof (cases res)
    case (Some e)
    with run have "r' = r \<or> r' = r\<lparr>reg_validators := ?m\<rparr>"
      by (auto simp: ApplyLeaveAt_def Let_def effective_def split: option.splits if_splits)
    with inv Some show ?thesis
      by auto
  next
    case None
    with run have ok: "map_of ?m i \<noteq> None"
      and r': "r' = recordMutation (r\<lparr>reg_validators := AList.delete i ?m\<rparr>) ?h RotationEventLeave i 0"
      by (auto simp: ApplyLeaveAt_def Let_def effective_def split: option.splits if_splits)
    from recordMutation_inv [OF inv map_ok_delete [OF m(1)] effective_nz [OF inv]]
      recordMutation_at [OF inv map_ok_delete [OF m(1)] effective_nz [OF inv]] ok m(2) r' None
    show ?thesis
      by (simp add: AList.delete_conv')
  qed
qed

lemma UpdateVotingPowerAt_spec:
  assumes inv: "registry_inv r" and run: "UpdateVotingPowerAt r ctx h i p = (r', res)"
  shows "registry_inv r' \<and>
    (case res of
       Some e \<Rightarrow> reg_at r' = reg_at r
     | None \<Rightarrow> p \<noteq> 0 \<and> (\<exists>v. reg_at r (effective r h) i = Some v
         \<and> (\<forall>h'. reg_at r' h' =
              (if governs r (effective r h) h'
               then (reg_at r (effective r h))(i \<mapsto> v\<lparr>val_VotingPower := p\<rparr>) else reg_at r h'))))"
proof -
  let ?h = "effective r h"
  let ?m = "toMap (snapshotAt r ?h)"
  note m = toMap_snapshotAt [OF inv, of ?h]
  show ?thesis
  proof (cases res)
    case (Some e)
    with run have "r' = r \<or> r' = r\<lparr>reg_validators := ?m\<rparr>"
      by (auto simp: UpdateVotingPowerAt_def Let_def effective_def split: option.splits if_splits)
    with inv Some show ?thesis
      by auto
  next
    case None
    with run obtain v where ok: "p \<noteq> 0" "map_of ?m i = Some v"
      and r': "r' = recordMutation
          (r\<lparr>reg_validators := AList.update i (v\<lparr>val_VotingPower := p\<rparr>) ?m\<rparr>) ?h RotationEventPowerChange i p"
      by (auto simp: UpdateVotingPowerAt_def Let_def effective_def split: option.splits if_splits)
    have "val_ID v = i"
      using m(1) ok(2) by (auto simp: map_ok_def dest: map_of_SomeD)
    then have "map_ok (AList.update i (v\<lparr>val_VotingPower := p\<rparr>) ?m)"
      using m(1) ok(1) by (intro map_ok_update) auto
    from recordMutation_inv [OF inv this effective_nz [OF inv]]
      recordMutation_at [OF inv this effective_nz [OF inv]] ok m(2) r' None
    show ?thesis
      by (auto simp: update_conv')
  qed
qed

lemma foldl_update_ok:
  "map_ok m \<Longrightarrow> \<forall>v \<in> set vs. val_VotingPower v \<noteq> 0 \<Longrightarrow>
     map_ok (foldl (\<lambda>m v. AList.update (val_ID v) v m) m vs)"
  by (induction vs arbitrary: m) (auto intro: map_ok_update)

lemma NewInMemoryRegistry_inv:
  assumes "NewInMemoryRegistry p vs = Inr r"
  shows "registry_inv r"
proof -
  from assms have ok: "map_ok (index_by_ID vs)"
    by (auto simp: NewInMemoryRegistry_def index_by_ID_def map_ok_def [of "[]"] intro!: foldl_update_ok
        split: if_splits)
  from assms new_version_ok [OF _ ok, of 1] show ?thesis
    by (auto simp: NewInMemoryRegistry_def recordVersion_eq registry_inv_def putVersion_ne
        putVersion_sorted putVersion_set split: if_splits)
qed

lemma SetEffectiveHeight_inv: "registry_inv r \<Longrightarrow> registry_inv (SetEffectiveHeight r h)"
  by (simp add: SetEffectiveHeight_def registry_inv_def)

section \<open>Histories of a registry\<close>

datatype registry_op =
    OpJoin ctx Height Candidate
  | OpLeave ctx Height ValidatorID
  | OpPower ctx Height ValidatorID VotingPower
  | OpEffective Height

text \<open>An operation on the registry, and whether it was accepted.\<close>

fun registry_exec :: "InMemoryRegistry \<Rightarrow> registry_op \<Rightarrow> InMemoryRegistry \<times> bool" where
  "registry_exec r (OpJoin ctx h c) = (case ApplyJoinAt r ctx h c of (r', res) \<Rightarrow> (r', \<exists>v. res = Inr v))"
| "registry_exec r (OpLeave ctx h i) = (case ApplyLeaveAt r ctx h i of (r', e) \<Rightarrow> (r', e = None))"
| "registry_exec r (OpPower ctx h i p) = (case UpdateVotingPowerAt r ctx h i p of (r', e) \<Rightarrow> (r', e = None))"
| "registry_exec r (OpEffective h) = (SetEffectiveHeight r h, True)"

fun op_height :: "InMemoryRegistry \<Rightarrow> registry_op \<Rightarrow> Height" where
  "op_height r (OpJoin ctx h c) = effective r h"
| "op_height r (OpLeave ctx h i) = effective r h"
| "op_height r (OpPower ctx h i p) = effective r h"
| "op_height r (OpEffective h) = effective r h"

text \<open>What an accepted operation does to the map of validators.\<close>

fun spec_change :: "registry_op \<Rightarrow> (ValidatorID \<rightharpoonup> Validator) \<Rightarrow> (ValidatorID \<rightharpoonup> Validator)" where
  "spec_change (OpJoin ctx h c) m = m(cand_Address c \<mapsto> joined c)"
| "spec_change (OpLeave ctx h i) m = m(i := None)"
| "spec_change (OpPower ctx h i p) m = m(i := map_option (\<lambda>v. v\<lparr>val_VotingPower := p\<rparr>) (m i))"
| "spec_change (OpEffective h) m = m"

definition changes_set :: "registry_op \<Rightarrow> bool" where
  "changes_set op \<longleftrightarrow> (case op of OpEffective h \<Rightarrow> False | _ \<Rightarrow> True)"

lemma reg_at_SetEffectiveHeight: "reg_at (SetEffectiveHeight r h) = reg_at r"
  by (auto simp: SetEffectiveHeight_def reg_at_def)

lemma registry_exec_refines:
  assumes "registry_inv r" and "registry_exec r op = (r', ok)"
  shows "registry_inv r' \<and> reg_at r' =
    (if ok \<and> changes_set op
     then (\<lambda>h. if governs r (op_height r op) h then spec_change op (reg_at r (op_height r op)) else reg_at r h)
     else reg_at r)"
proof (cases op)
  case (OpJoin ctx h c)
  obtain res where "ApplyJoinAt r ctx h c = (r', res)" and "ok \<longleftrightarrow> (\<exists>v. res = Inr v)"
    using assms(2) OpJoin by (auto split: prod.splits)
  with ApplyJoinAt_spec [OF assms(1), of ctx h c r' res] OpJoin show ?thesis
    by (cases res) (auto simp: changes_set_def)
next
  case (OpLeave ctx h i)
  obtain e where "ApplyLeaveAt r ctx h i = (r', e)" and "ok \<longleftrightarrow> e = None"
    using assms(2) OpLeave by (auto split: prod.splits)
  with ApplyLeaveAt_spec [OF assms(1), of ctx h i r' e] OpLeave show ?thesis
    by (cases e) (auto simp: changes_set_def)
next
  case (OpPower ctx h i p)
  obtain e where "UpdateVotingPowerAt r ctx h i p = (r', e)" and "ok \<longleftrightarrow> e = None"
    using assms(2) OpPower by (auto split: prod.splits)
  with UpdateVotingPowerAt_spec [OF assms(1), of ctx h i p r' e] OpPower show ?thesis
    by (cases e) (auto simp: changes_set_def)
next
  case (OpEffective h)
  with assms SetEffectiveHeight_inv [of r h] show ?thesis
    by (auto simp: changes_set_def reg_at_SetEffectiveHeight)
qed

definition registry_run :: "InMemoryRegistry \<Rightarrow> registry_op list \<Rightarrow> InMemoryRegistry" where
  "registry_run r ops = foldl (\<lambda>r op. fst (registry_exec r op)) r ops"

lemma registry_run_inv: "registry_inv r \<Longrightarrow> registry_inv (registry_run r ops)"
  unfolding registry_run_def
proof (induction ops arbitrary: r)
  case (Cons op ops)
  obtain r' ok where "registry_exec r op = (r', ok)"
    by fastforce
  with registry_exec_refines [OF Cons.prems this] Cons.IH [of r'] show ?case
    by simp
qed simp

section \<open>Properties\<close>

text \<open>
  C16: The registry refines a map of validators per height.  After any history, an operation that is accepted
  changes the validators in force exactly at the heights its effective height governs, and there exactly as the
  specification says; a refused operation changes none.  Every snapshot taken afterwards shows that map.
\<close>

theorem registry_refines_spec:
  assumes "NewInMemoryRegistry policy vs = Inr r0" and "r = registry_run r0 ops"
    and "registry_exec r op = (r', ok)"
  shows "Set_Get (snapshotAt r' h) =
    (if ok \<and> changes_set op \<and> governs r (op_height r op) h
     then spec_change op (Set_Get (snapshotAt r (op_height r op))) else Set_Get (snapshotAt r h))"
proof -
  have inv: "registry_inv r"
    unfolding assms(2) by (rule registry_run_inv [OF NewInMemoryRegistry_inv [OF assms(1)]])
  note step = registry_exec_refines [OF inv assms(3)]
  show ?thesis
    using step by (simp add: Set_Get_snapshotAt [OF inv] Set_Get_snapshotAt)
qed

text \<open>A registry of one member, and a candidate that joins at height 5.\<close>

definition ex_candidate :: Candidate where
  "ex_candidate = \<lparr>cand_Address = ''c'', cand_PublicKey = ''k'', cand_Stake = 5, cand_Metadata = None\<rparr>"

definition ex_member :: Validator where
  "ex_member = \<lparr>val_ID = ''a'', val_Address = ''a'', val_PublicKey = ''k'', val_VotingPower = 1, val_Stake = 1,
     val_Metadata = None\<rparr>"

definition ex_registry :: InMemoryRegistry where
  "ex_registry = \<lparr>reg_policy = None, reg_validators = [(''a'', ex_member)], reg_effectiveHeight = 1,
     reg_versions = [\<lparr>ver_height = 1, ver_validators = [(''a'', ex_member)],
                      ver_hash = hashValidators [ex_member]\<rparr>], reg_events = []\<rparr>"

lemma ex_registry_new: "NewInMemoryRegistry None [ex_member] = Inr ex_registry"
  by (simp add: NewInMemoryRegistry_def recordVersion_def snapshot_def sortedValidatorMap_def sortedValidators_def
      index_by_ID_def toMap_def Set_List_def Set_Hash_def ex_member_def ex_registry_def Let_def)

lemma ex_registry_at: "Set_Get (snapshotAt ex_registry h) = (if 1 \<le> h then [''a'' \<mapsto> ex_member] else Map.empty)"
  unfolding Set_Get_snapshotAt [OF NewInMemoryRegistry_inv [OF ex_registry_new]]
  by (auto simp: reg_at_def selectVersion_def ex_registry_def)

lemma ex_join: "\<exists>r'. registry_exec ex_registry (OpJoin None 5 ex_candidate) = (r', True)"
proof -
  have "toMap (snapshotAt ex_registry 5) = [(''a'', ex_member)]"
    by (simp add: snapshotAt_def selectVersion_def ex_registry_def toMap_def index_by_ID_def sortedValidatorMap_def
        sortedValidators_def ex_member_def)
  then show ?thesis
    by (simp add: ApplyJoinAt_def ex_candidate_def Let_def) (simp add: ex_registry_def Let_def)
qed

theorem registry_refines_spec_witness:
  "\<exists>r'. registry_exec ex_registry (OpJoin None 5 ex_candidate) = (r', True)
     \<and> Set_Get (snapshotAt r' 7) ''c'' = Some (joined ex_candidate) \<and> Set_Get (snapshotAt r' 3) ''c'' = None"
proof -
  let ?op = "OpJoin None 5 ex_candidate"
  obtain r' where r': "registry_exec ex_registry ?op = (r', True)"
    using ex_join by blast
  have run: "ex_registry = registry_run ex_registry []"
    by (simp add: registry_run_def)
  have "op_height ex_registry ?op = 5" "governs ex_registry 5 7" "\<not> governs ex_registry 5 3"
    by (auto simp: effective_def governs_def ex_registry_def)
  with registry_refines_spec [OF ex_registry_new run r', of 7] registry_refines_spec [OF ex_registry_new run r', of 3] r'
  show ?thesis
    by (simp add: changes_set_def ex_registry_at) (simp add: ex_candidate_def)
qed



end
