(* ===== verification/GoStrings.thy ===== *)
theory GoStrings
  imports Prelude
begin

text \<open>
  The parts of the Go packages \<^verbatim>\<open>strings\<close> and \<^verbatim>\<open>strconv\<close> that the components use, with their round trips.
\<close>

section \<open>strings.Split and strings.Join for a one-byte separator\<close>

fun splitOn :: "char \<Rightarrow> string \<Rightarrow> string list" where
  "splitOn sep [] = [[]]"
| "splitOn sep (c # cs) =
     (if c = sep then [] # splitOn sep cs
      else case splitOn sep cs of p # ps \<Rightarrow> (c # p) # ps | [] \<Rightarrow> [[c]])"

fun joinWith :: "char \<Rightarrow> string list \<Rightarrow> string" where
  "joinWith sep [] = []"
| "joinWith sep [p] = p"
| "joinWith sep (p # q # ps) = p @ [sep] @ joinWith sep (q # ps)"

lemma splitOn_ne [simp]: "splitOn sep s \<noteq> []"
  by (induction s) (auto split: list.splits)

lemma splitOn_no_sep: "sep \<notin> set p \<Longrightarrow> splitOn sep p = [p]"
  by (induction p) auto

lemma splitOn_append: "sep \<notin> set p \<Longrightarrow> splitOn sep (p @ sep # s) = p # splitOn sep s"
  by (induction p) auto

lemma splitOn_joinWith:
  "ps \<noteq> [] \<Longrightarrow> \<forall>p \<in> set ps. sep \<notin> set p \<Longrightarrow> splitOn sep (joinWith sep ps) = ps"
  by (induction sep ps rule: joinWith.induct) (auto simp: splitOn_no_sep splitOn_append)

lemma joinWith_splitOn: "joinWith sep (splitOn sep s) = s"
proof (induction s)
  case (Cons c cs)
  obtain p ps where ps: "splitOn sep cs = p # ps"
    by (cases "splitOn sep cs") auto
  with Cons show ?case
    by (cases ps) auto
qed simp

lemma splitOn_parts: "p \<in> set (splitOn sep s) \<Longrightarrow> sep \<notin> set p"
  by (induction s arbitrary: p) (auto split: if_splits list.splits)

section \<open>strconv.FormatUint in base 10\<close>

definition digit :: "nat \<Rightarrow> char" where
  "digit n = char_of (48 + n)"

function formatDec :: "nat \<Rightarrow> string" where
  "formatDec n = (if n < 10 then [digit n] else formatDec (n div 10) @ [digit (n mod 10)])"
  by auto

termination formatDec
  by (relation "measure id") auto

declare formatDec.simps [simp del]

definition parseDec :: "string \<Rightarrow> nat" where
  "parseDec s = foldl (\<lambda>a c. 10 * a + (of_char c - 48)) 0 s"

definition FormatUint :: "u64 \<Rightarrow> string" where
  "FormatUint v = formatDec (unat v)"

lemma of_char_digit: "n < 10 \<Longrightarrow> (of_char (digit n) :: nat) = 48 + n"
  by (simp add: digit_def)

lemma parseDec_formatDec [simp]: "parseDec (formatDec n) = n"
proof (induction n rule: formatDec.induct)
  case (1 n)
  then show ?case
    by (subst formatDec.simps) (simp add: parseDec_def of_char_digit)
qed

lemma formatDec_inj [simp]: "formatDec m = formatDec n \<longleftrightarrow> m = n"
  by (metis parseDec_formatDec)

lemma FormatUint_inj [simp]: "FormatUint v = FormatUint w \<longleftrightarrow> v = w"
  by (simp add: FormatUint_def word_unat_eq_iff)

lemma digit_values: "map digit [0, 1, 2, 3, 4, 5, 6, 7, 8, 9] = ''0123456789''"
  by code_simp

lemma digit_range: "n < 10 \<Longrightarrow> digit n \<in> set ''0123456789''"
proof -
  assume "n < 10"
  then have "n \<in> set [0, 1, 2, 3, 4, 5, 6, 7, 8, 9]"
    by auto
  then have "digit n \<in> set (map digit [0, 1, 2, 3, 4, 5, 6, 7, 8, 9])"
    by (metis image_eqI set_map)
  then show ?thesis
    by (simp only: digit_values)
qed

lemma formatDec_digits: "set (formatDec n) \<subseteq> set ''0123456789''"
proof (induction n rule: formatDec.induct)
  case (1 n)
  show ?case
  proof (cases "n < 10")
    case True
    with digit_range [OF True] show ?thesis
      by (subst formatDec.simps) simp
  next
    case False
    with 1 digit_range [of "n mod 10"] show ?thesis
      by (subst formatDec.simps) simp
  qed
qed

lemma FormatUint_digits: "c \<notin> set ''0123456789'' \<Longrightarrow> c \<notin> set (FormatUint v)"
  using formatDec_digits by (auto simp: FormatUint_def)

text \<open>A field without the separator at the end of a string can be read back.\<close>

lemma append_sep_prefix_inj:
  assumes "us @ sep # xs = vs @ sep # ys" and "sep \<notin> set us" and "sep \<notin> set vs"
  shows "us = vs \<and> xs = ys"
  using assms
proof (induction us arbitrary: vs)
  case Nil
  then show ?case
    by (cases vs) auto
next
  case (Cons u us)
  then show ?case
    by (cases vs) auto
qed

lemma append_sep_inj:
  assumes "xs @ sep # us = ys @ sep # vs" and "sep \<notin> set us" and "sep \<notin> set vs"
  shows "xs = ys \<and> us = vs"
proof -
  from assms(1) have "rev us @ sep # rev xs = rev vs @ sep # rev ys"
    by (metis append.assoc append_Cons append_Nil rev.simps(2) rev_append)
  from append_sep_prefix_inj [OF this] assms(2,3) show ?thesis
    by simp
qed

section \<open>strings.Cut, strings.CutSuffix and strconv.ParseUint\<close>

text \<open>\<^verbatim>\<open>strings.Cut\<close> for a one-byte separator: the text before and after it, if it occurs.\<close>

definition cutOn :: "char \<Rightarrow> string \<Rightarrow> (string \<times> string) option" where
  "cutOn sep s =
     (if sep \<in> set s then Some (takeWhile (\<lambda>c. c \<noteq> sep) s, tl (dropWhile (\<lambda>c. c \<noteq> sep) s)) else None)"

definition cutSuffix :: "string \<Rightarrow> string \<Rightarrow> string option" where
  "cutSuffix s suf = (if suffix suf s then Some (take (length s - length suf) s) else None)"

definition isDigit :: "char \<Rightarrow> bool" where
  "isDigit c \<longleftrightarrow> c \<in> set ''0123456789''"

definition ParseUint :: "string \<Rightarrow> u64 option" where
  "ParseUint s =
     (if s = [] \<or> \<not> list_all isDigit s then None
      else if 2 ^ 64 \<le> parseDec s then None else Some (word_of_nat (parseDec s)))"

lemma cutOn_append: "sep \<notin> set k \<Longrightarrow> cutOn sep (k @ sep # v) = Some (k, v)"
proof -
  assume "sep \<notin> set k"
  then have "takeWhile (\<lambda>c. c \<noteq> sep) (k @ sep # v) = k" "dropWhile (\<lambda>c. c \<noteq> sep) (k @ sep # v) = sep # v"
    by (induction k) auto
  then show ?thesis
    by (simp add: cutOn_def)
qed

lemma cutSuffix_append [simp]: "cutSuffix (s @ suf) suf = Some s"
  by (simp add: cutSuffix_def suffixI)

lemma formatDec_ne [simp]: "formatDec n \<noteq> []"
  by (subst formatDec.simps) simp

lemma formatDec_isDigit: "list_all isDigit (formatDec n)"
  using formatDec_digits [of n] unfolding list_all_iff isDigit_def by blast

lemma ParseUint_FormatUint: "ParseUint (FormatUint v) = Some v"
  using unat_u64_less [of v] formatDec_isDigit [of "unat v"]
  by (simp add: ParseUint_def FormatUint_def)

section \<open>strings.ToLower and strings.TrimSpace\<close>

text \<open>
  Bytes above 127 are left alone.  The only letters outside ASCII whose lower case is an ASCII letter lower to
  i and k, which occur in no amount and no denomination, so this does not change what a caller accepts.
\<close>

definition toLowerChar :: "char \<Rightarrow> char" where
  "toLowerChar c = (if 65 \<le> (of_char c :: nat) \<and> of_char c \<le> (90 :: nat) then char_of (of_char c + 32 :: nat) else c)"

definition ToLower :: "string \<Rightarrow> string" where
  "ToLower s = map toLowerChar s"

text \<open>The UTF-8 encodings of the characters that Unicode calls white space.\<close>

definition spaceSeqs :: "string list" where
  "spaceSeqs =
     [[CHR 0x20], [CHR 0x09], [CHR 0x0A], [CHR 0x0B], [CHR 0x0C], [CHR 0x0D],
      [CHR 0xC2, CHR 0x85], [CHR 0xC2, CHR 0xA0], [CHR 0xE1, CHR 0x9A, CHR 0x80],
      [CHR 0xE2, CHR 0x80, CHR 0x80], [CHR 0xE2, CHR 0x80, CHR 0x81], [CHR 0xE2, CHR 0x80, CHR 0x82],
      [CHR 0xE2, CHR 0x80, CHR 0x83], [CHR 0xE2, CHR 0x80, CHR 0x84], [CHR 0xE2, CHR 0x80, CHR 0x85],
      [CHR 0xE2, CHR 0x80, CHR 0x86], [CHR 0xE2, CHR 0x80, CHR 0x87], [CHR 0xE2, CHR 0x80, CHR 0x88],
      [CHR 0xE2, CHR 0x80, CHR 0x89], [CHR 0xE2, CHR 0x80, CHR 0x8A], [CHR 0xE2, CHR 0x80, CHR 0xA8],
      [CHR 0xE2, CHR 0x80, CHR 0xA9], [CHR 0xE2, CHR 0x80, CHR 0xAF], [CHR 0xE2, CHR 0x81, CHR 0x9F],
      [CHR 0xE3, CHR 0x80, CHR 0x80]]"

text \<open>The length of the white-space character that a string starts with, 0 if there is none.\<close>

definition spaceLen :: "string list \<Rightarrow> string \<Rightarrow> nat" where
  "spaceLen seqs s = (case find (\<lambda>p. prefix p s) seqs of None \<Rightarrow> 0 | Some p \<Rightarrow> length p)"

function trimWith :: "string list \<Rightarrow> string \<Rightarrow> string" where
  "trimWith seqs s =
     (if 0 < spaceLen seqs s \<and> s \<noteq> [] then trimWith seqs (drop (spaceLen seqs s) s) else s)"
  by auto

termination trimWith
  by (relation "measure (\<lambda>(_, s). length s)") auto

declare trimWith.simps [simp del]

definition TrimSpace :: "string \<Rightarrow> string" where
  "TrimSpace s = rev (trimWith (map rev spaceSeqs) (rev (trimWith spaceSeqs s)))"

text \<open>A string without white-space bytes at its ends is unchanged.\<close>

definition spaceByte :: "char \<Rightarrow> bool" where
  "spaceByte c \<longleftrightarrow> list_ex (\<lambda>p. c \<in> set p) spaceSeqs"

lemma spaceLen_zero:
  assumes "s = c # cs" and "\<forall>p \<in> set seqs. p \<noteq> [] \<and> c \<notin> set p"
  shows "spaceLen seqs s = 0"
proof -
  have "find (\<lambda>p. prefix p s) seqs = None"
    using assms by (auto simp: find_None_iff prefix_Cons)
  then show ?thesis
    by (simp add: spaceLen_def)
qed

lemma trimWith_id:
  assumes "\<forall>p \<in> set seqs. p \<noteq> [] \<and> (\<forall>c. c \<in> set p \<longrightarrow> c \<notin> set s)"
  shows "trimWith seqs s = s"
proof (cases s)
  case (Cons c cs)
  with assms have "spaceLen seqs s = 0"
    by (intro spaceLen_zero [OF Cons]) auto
  then show ?thesis
    by (subst trimWith.simps) simp
qed (subst trimWith.simps, simp)

lemma spaceSeqs_ne: "p \<in> set spaceSeqs \<Longrightarrow> p \<noteq> []"
  by (auto simp: spaceSeqs_def)

lemma TrimSpace_id:
  assumes "\<forall>c \<in> set s. \<not> spaceByte c"
  shows "TrimSpace s = s"
proof -
  have no: "c \<notin> set s" if "p \<in> set spaceSeqs" "c \<in> set p" for p c
    using assms that by (auto simp: spaceByte_def list_ex_iff)
  have "trimWith spaceSeqs s = s"
    by (rule trimWith_id) (use no spaceSeqs_ne in blast)
  moreover have "trimWith (map rev spaceSeqs) (rev s) = rev s"
    by (rule trimWith_id) (use no spaceSeqs_ne in auto)
  ultimately show ?thesis
    by (simp add: TrimSpace_def)
qed

end
