(* ===== verification/Slashing.thy ===== *)
theory Slashing
  imports VexoTypes GoStrings
begin

text \<open>
  Package \<^verbatim>\<open>slashing\<close> (\<^verbatim>\<open>slashing.go\<close>, \<^verbatim>\<open>keeper.go\<close>): evidence, penalties and the in-memory keeper.
  \<^verbatim>\<open>ApplySlash\<close> computes with 64-bit floating point numbers; it is a parameter of the operation that
  calls it.  The lemmas show that the evidence key determines the offence, that evidence is accepted
  once, and that a validator is charged at most once per offence.
\<close>

section \<open>Data (slashing.go)\<close>

type_synonym EvidenceType = string

definition EvidenceDoubleSign :: EvidenceType where
  "EvidenceDoubleSign = ''double_sign''"

definition EvidenceConflictingVote :: EvidenceType where
  "EvidenceConflictingVote = ''conflicting_vote''"

definition EvidenceConflictingTimeoutVote :: EvidenceType where
  "EvidenceConflictingTimeoutVote = ''conflicting_timeout_vote''"

definition EvidenceInvalidProposal :: EvidenceType where
  "EvidenceInvalidProposal = ''invalid_proposal''"

definition EvidenceUnavailableData :: EvidenceType where
  "EvidenceUnavailableData = ''unavailable_data''"

definition EvidenceFinalityConflict :: EvidenceType where
  "EvidenceFinalityConflict = ''finality_conflict''"

record Evidence =
  evd_Type :: EvidenceType
  evd_Validator :: ValidatorID
  evd_Height :: Height
  evd_Round :: Round
  evd_Proof :: bytes

datatype EvidenceStatus =
    EvidenceStatusSubmitted | EvidenceStatusApplied | EvidenceStatusAppealed | EvidenceStatusExpired

record Penalty =
  pen_SlashFraction :: string
  pen_JailDuration :: u64

record LifecyclePolicy =
  lc_EvidenceMaxAge :: Height
  lc_AppealWindow :: Height
  lc_UnbondingDelay :: Height

record PenaltyReceipt =
  rcp_Evidence :: Evidence
  rcp_Penalty :: Penalty
  rcp_PreviousPower :: VotingPower
  rcp_RemainingPower :: VotingPower

datatype slashing_error =
    ErrUnknownEvidenceType
  | ErrEmptyProof
  | ErrMissingValidator
  | ErrMissingHeight
  | ErrDuplicateEvidence
  | ErrPenaltyNotConfigured
  | ErrInvalidSlashFraction
  | ErrEvidenceExpired
  | ErrEvidenceAppealed
  | SlashingCtxError ctx_error

section \<open>Keeper (keeper.go)\<close>

type_synonym PenaltyPolicy = "(EvidenceType, Penalty) gomap"

record InMemoryKeeper =
  kp_policy :: PenaltyPolicy
  kp_lifecyclePolicy :: LifecyclePolicy
  kp_evidence :: "(string, Evidence) gomap"
  kp_evidenceStatus :: "(string, EvidenceStatus) gomap"
  kp_evidenceExpires :: "(string, Height) gomap"
  kp_penalties :: "(string, PenaltyReceipt) gomap"
  kp_jails :: "(ValidatorID, Height) gomap"
  kp_unbonding :: "(ValidatorID, Height) gomap"

definition DefaultPenaltyPolicy :: PenaltyPolicy where
  "DefaultPenaltyPolicy =
    [(EvidenceDoubleSign, \<lparr>pen_SlashFraction = ''0.05'', pen_JailDuration = 1209600\<rparr>),
     (EvidenceConflictingVote, \<lparr>pen_SlashFraction = ''0.05'', pen_JailDuration = 1209600\<rparr>),
     (EvidenceConflictingTimeoutVote, \<lparr>pen_SlashFraction = ''0.05'', pen_JailDuration = 1209600\<rparr>),
     (EvidenceInvalidProposal, \<lparr>pen_SlashFraction = ''0.01'', pen_JailDuration = 86400\<rparr>),
     (EvidenceUnavailableData, \<lparr>pen_SlashFraction = ''0.02'', pen_JailDuration = 604800\<rparr>),
     (EvidenceFinalityConflict, \<lparr>pen_SlashFraction = ''0.05'', pen_JailDuration = 1209600\<rparr>)]"

definition DefaultLifecyclePolicy :: LifecyclePolicy where
  "DefaultLifecyclePolicy =
     \<lparr>lc_EvidenceMaxAge = 1209600, lc_AppealWindow = 100, lc_UnbondingDelay = 1209600\<rparr>"

definition normalizeLifecyclePolicy :: "LifecyclePolicy \<Rightarrow> LifecyclePolicy" where
  "normalizeLifecyclePolicy p =
     \<lparr>lc_EvidenceMaxAge = (if lc_EvidenceMaxAge p = 0 then lc_EvidenceMaxAge DefaultLifecyclePolicy
                           else lc_EvidenceMaxAge p),
      lc_AppealWindow = (if lc_AppealWindow p = 0 then lc_AppealWindow DefaultLifecyclePolicy
                         else lc_AppealWindow p),
      lc_UnbondingDelay = (if lc_UnbondingDelay p = 0 then lc_UnbondingDelay DefaultLifecyclePolicy
                           else lc_UnbondingDelay p)\<rparr>"

definition NewInMemoryKeeperWithLifecycle ::
    "PenaltyPolicy option \<Rightarrow> LifecyclePolicy \<Rightarrow> InMemoryKeeper" where
  "NewInMemoryKeeperWithLifecycle policy lifecyclePolicy =
     \<lparr>kp_policy = (case policy of None \<Rightarrow> DefaultPenaltyPolicy | Some p \<Rightarrow> p),
      kp_lifecyclePolicy = normalizeLifecyclePolicy lifecyclePolicy,
      kp_evidence = [], kp_evidenceStatus = [], kp_evidenceExpires = [], kp_penalties = [],
      kp_jails = [], kp_unbonding = []\<rparr>"

definition NewInMemoryKeeper :: "PenaltyPolicy option \<Rightarrow> InMemoryKeeper" where
  "NewInMemoryKeeper policy = NewInMemoryKeeperWithLifecycle policy DefaultLifecyclePolicy"

definition evidenceKey :: "Evidence \<Rightarrow> string" where
  "evidenceKey e = evd_Type e @ ''|'' @ evd_Validator e @ ''|'' @ FormatUint (evd_Height e)
     @ ''|'' @ FormatUint (evd_Round e)"

definition ValidateEvidence :: "InMemoryKeeper \<Rightarrow> ctx \<Rightarrow> Evidence \<Rightarrow> slashing_error option" where
  "ValidateEvidence k ctx e =
     (case ctx of
        Some err \<Rightarrow> Some (SlashingCtxError err)
      | None \<Rightarrow>
          if evd_Validator e = [] then Some ErrMissingValidator
          else if evd_Height e = 0 then Some ErrMissingHeight
          else if evd_Proof e = [] then Some ErrEmptyProof
          else if map_of (kp_policy k) (evd_Type e) = None then Some ErrUnknownEvidenceType
          else None)"

definition SubmitEvidence ::
    "InMemoryKeeper \<Rightarrow> ctx \<Rightarrow> Evidence \<Rightarrow> InMemoryKeeper \<times> slashing_error option" where
  "SubmitEvidence k ctx e =
     (case ctx of
        Some err \<Rightarrow> (k, Some (SlashingCtxError err))
      | None \<Rightarrow>
          case ValidateEvidence k ctx e of
            Some err \<Rightarrow> (k, Some err)
          | None \<Rightarrow>
              let key = evidenceKey e in
              if map_of (kp_evidence k) key \<noteq> None then (k, Some ErrDuplicateEvidence)
              else
                let k = k\<lparr>kp_evidence := AList.update key e (kp_evidence k),
                          kp_evidenceStatus :=
                            AList.update key EvidenceStatusSubmitted (kp_evidenceStatus k)\<rparr>;
                    maxAge = lc_EvidenceMaxAge (kp_lifecyclePolicy k)
                in (if 0 < maxAge
                    then k\<lparr>kp_evidenceExpires :=
                             AList.update key (evd_Height e + maxAge) (kp_evidenceExpires k)\<rparr>
                    else k, None))"

definition ApplyPenalty :: "InMemoryKeeper \<Rightarrow> ctx \<Rightarrow> Evidence \<Rightarrow> slashing_error + Penalty" where
  "ApplyPenalty k ctx e =
     (case ctx of
        Some err \<Rightarrow> Inl (SlashingCtxError err)
      | None \<Rightarrow>
          case ValidateEvidence k ctx e of
            Some err \<Rightarrow> Inl err
          | None \<Rightarrow>
              case map_of (kp_policy k) (evd_Type e) of
                None \<Rightarrow> Inl ErrPenaltyNotConfigured
              | Some penalty \<Rightarrow> Inr penalty)"

definition SubmitAndApply ::
    "InMemoryKeeper \<Rightarrow> ctx \<Rightarrow> Evidence \<Rightarrow> InMemoryKeeper \<times> (slashing_error + PenaltyReceipt)" where
  "SubmitAndApply k ctx e =
     (case SubmitEvidence k ctx e of
        (k, Some err) \<Rightarrow> (k, Inl err)
      | (k, None) \<Rightarrow>
          case ApplyPenalty k ctx e of
            Inl err \<Rightarrow> (k, Inl err)
          | Inr penalty \<Rightarrow>
              let receipt = \<lparr>rcp_Evidence = e, rcp_Penalty = penalty, rcp_PreviousPower = 0,
                             rcp_RemainingPower = 0\<rparr>;
                  key = evidenceKey e
              in (k\<lparr>kp_penalties := AList.update key receipt (kp_penalties k),
                    kp_evidenceStatus :=
                      AList.update key EvidenceStatusApplied (kp_evidenceStatus k)\<rparr>,
                  Inr receipt))"

definition SubmitWithExpiration ::
    "InMemoryKeeper \<Rightarrow> ctx \<Rightarrow> Evidence \<Rightarrow> Height \<Rightarrow> InMemoryKeeper \<times> slashing_error option" where
  "SubmitWithExpiration k ctx e expiresAt =
     (if expiresAt \<noteq> 0 \<and> expiresAt \<le> evd_Height e then (k, Some ErrEvidenceExpired)
      else
        case SubmitEvidence k ctx e of
          (k, Some err) \<Rightarrow> (k, Some err)
        | (k, None) \<Rightarrow>
            (if expiresAt \<noteq> 0
             then k\<lparr>kp_evidenceExpires :=
                      AList.update (evidenceKey e) expiresAt (kp_evidenceExpires k)\<rparr>
             else k, None))"

text \<open>One iteration of the loop of \<^verbatim>\<open>ExpireEvidence\<close>, and the loop over the expiry map.\<close>

definition expireOne :: "Height \<Rightarrow> InMemoryKeeper \<times> u64 \<Rightarrow> string \<times> Height \<Rightarrow> InMemoryKeeper \<times> u64" where
  "expireOne currentHeight = (\<lambda>(k, expired) (key, expiresAt).
     if expiresAt = 0 \<or> currentHeight < expiresAt then (k, expired)
     else if map_of (kp_evidenceStatus k) key = Some EvidenceStatusApplied then (k, expired)
     else (k\<lparr>kp_evidenceStatus := AList.update key EvidenceStatusExpired (kp_evidenceStatus k)\<rparr>,
           expired + 1))"

definition ExpireEvidence :: "InMemoryKeeper \<Rightarrow> Height \<Rightarrow> InMemoryKeeper \<times> u64" where
  "ExpireEvidence k currentHeight = foldl (expireOne currentHeight) (k, 0) (kp_evidenceExpires k)"

definition AppealEvidence :: "InMemoryKeeper \<Rightarrow> Evidence \<Rightarrow> InMemoryKeeper \<times> bool" where
  "AppealEvidence k e =
     (let key = evidenceKey e in
      if map_of (kp_evidence k) key = None then (k, False)
      else if map_of (kp_evidenceStatus k) key = Some EvidenceStatusApplied then (k, False)
      else (k\<lparr>kp_evidenceStatus := AList.update key EvidenceStatusAppealed (kp_evidenceStatus k)\<rparr>,
            True))"

definition EvidenceLifecycle :: "InMemoryKeeper \<Rightarrow> Evidence \<Rightarrow> EvidenceStatus option" where
  "EvidenceLifecycle k e = map_of (kp_evidenceStatus k) (evidenceKey e)"

text \<open>The jail and unbonding bookkeeping at the end of both branches of \<^verbatim>\<open>ApplyPenaltyWithStake\<close>.\<close>

definition jailAndUnbond :: "InMemoryKeeper \<Rightarrow> Evidence \<Rightarrow> Penalty \<Rightarrow> InMemoryKeeper" where
  "jailAndUnbond k e penalty =
     (let k = (if 0 < pen_JailDuration penalty
               then k\<lparr>kp_jails := AList.update (evd_Validator e)
                        (evd_Height e + pen_JailDuration penalty) (kp_jails k)\<rparr> else k);
          delay = lc_UnbondingDelay (kp_lifecyclePolicy k)
      in if 0 < delay
         then k\<lparr>kp_unbonding := AList.update (evd_Validator e) (evd_Height e + delay) (kp_unbonding k)\<rparr>
         else k)"

definition ApplyPenaltyWithStake ::
    "(VotingPower \<Rightarrow> Penalty \<Rightarrow> slashing_error + VotingPower)
     \<Rightarrow> InMemoryKeeper \<Rightarrow> ctx \<Rightarrow> Evidence \<Rightarrow> VotingPower
     \<Rightarrow> InMemoryKeeper \<times> (slashing_error + PenaltyReceipt)" where
  "ApplyPenaltyWithStake applySlash k ctx e currentPower =
     (let key = evidenceKey e in
      case map_of (kp_penalties k) key of
        Some receipt \<Rightarrow>
          (jailAndUnbond
             (k\<lparr>kp_evidenceStatus := AList.update key EvidenceStatusApplied (kp_evidenceStatus k)\<rparr>)
             e (rcp_Penalty receipt), Inr receipt)
      | None \<Rightarrow>
          if map_of (kp_evidenceStatus k) key = Some EvidenceStatusExpired
          then (k, Inl ErrEvidenceExpired)
          else if map_of (kp_evidenceStatus k) key = Some EvidenceStatusAppealed
          then (k, Inl ErrEvidenceAppealed)
          else
            let expiresAt = (case map_of (kp_evidenceExpires k) key of None \<Rightarrow> 0 | Some h \<Rightarrow> h) in
            if expiresAt \<noteq> 0 \<and> expiresAt \<le> evd_Height e then (k, Inl ErrEvidenceExpired)
            else
              case ApplyPenalty k ctx e of
                Inl err \<Rightarrow> (k, Inl err)
              | Inr penalty \<Rightarrow>
                  case applySlash currentPower penalty of
                    Inl err \<Rightarrow> (k, Inl err)
                  | Inr remaining \<Rightarrow>
                      let receipt = \<lparr>rcp_Evidence = e, rcp_Penalty = penalty,
                                     rcp_PreviousPower = currentPower,
                                     rcp_RemainingPower = remaining\<rparr>
                      in (jailAndUnbond
                            (k\<lparr>kp_penalties := AList.update key receipt (kp_penalties k),
                               kp_evidenceStatus :=
                                 AList.update key EvidenceStatusApplied (kp_evidenceStatus k)\<rparr>)
                            e penalty, Inr receipt))"

definition JailUntil :: "InMemoryKeeper \<Rightarrow> ValidatorID \<Rightarrow> Height option" where
  "JailUntil k v = map_of (kp_jails k) v"

definition IsJailed :: "InMemoryKeeper \<Rightarrow> ValidatorID \<Rightarrow> Height \<Rightarrow> bool" where
  "IsJailed k v currentHeight = (case JailUntil k v of None \<Rightarrow> False | Some h \<Rightarrow> currentHeight < h)"

definition UnbondingReleaseHeight :: "InMemoryKeeper \<Rightarrow> ValidatorID \<Rightarrow> Height option" where
  "UnbondingReleaseHeight k v = map_of (kp_unbonding k) v"

definition CanUnbond :: "InMemoryKeeper \<Rightarrow> ValidatorID \<Rightarrow> Height \<Rightarrow> bool" where
  "CanUnbond k v currentHeight =
     (case UnbondingReleaseHeight k v of None \<Rightarrow> True | Some h \<Rightarrow> h \<le> currentHeight)"

definition keeper_PenaltyReceipt :: "InMemoryKeeper \<Rightarrow> Evidence \<Rightarrow> PenaltyReceipt option" where
  "keeper_PenaltyReceipt k e = map_of (kp_penalties k) (evidenceKey e)"

section \<open>The evidence key\<close>

text \<open>The six evidence types contain no separator, so the key can be read back from both ends.\<close>

lemmas evidence_type_defs = EvidenceDoubleSign_def EvidenceConflictingVote_def
  EvidenceConflictingTimeoutVote_def EvidenceInvalidProposal_def EvidenceUnavailableData_def
  EvidenceFinalityConflict_def

lemma default_types_no_bar: "t \<in> fst ` set DefaultPenaltyPolicy \<Longrightarrow> CHR ''|'' \<notin> set t"
  by (auto simp: DefaultPenaltyPolicy_def evidence_type_defs)

lemma evidenceKey_inj:
  assumes "CHR ''|'' \<notin> set (evd_Type e)" and "CHR ''|'' \<notin> set (evd_Type f)"
    and "evidenceKey e = evidenceKey f"
  shows "evd_Type e = evd_Type f \<and> evd_Validator e = evd_Validator f
    \<and> evd_Height e = evd_Height f \<and> evd_Round e = evd_Round f"
proof -
  have bar: "CHR ''|'' \<notin> set (FormatUint v)" for v
    by (rule FormatUint_digits) simp
  from assms(3) have
    "((evd_Type e @ ''|'' @ evd_Validator e) @ CHR ''|'' # FormatUint (evd_Height e))
        @ CHR ''|'' # FormatUint (evd_Round e)
     = ((evd_Type f @ ''|'' @ evd_Validator f) @ CHR ''|'' # FormatUint (evd_Height f))
        @ CHR ''|'' # FormatUint (evd_Round f)"
    by (simp add: evidenceKey_def)
  from append_sep_inj [OF this bar bar] have r: "evd_Round e = evd_Round f" and
    "(evd_Type e @ ''|'' @ evd_Validator e) @ CHR ''|'' # FormatUint (evd_Height e)
     = (evd_Type f @ ''|'' @ evd_Validator f) @ CHR ''|'' # FormatUint (evd_Height f)"
    by simp_all
  from append_sep_inj [OF this(2) bar bar] have h: "evd_Height e = evd_Height f" and
    "evd_Type e @ CHR ''|'' # evd_Validator e = evd_Type f @ CHR ''|'' # evd_Validator f"
    by simp_all
  from append_sep_prefix_inj [OF this(2) assms(1,2)] r h show ?thesis
    by simp
qed

section \<open>Histories of a keeper\<close>

datatype keeper_op =
    OpSubmitEvidence ctx Evidence
  | OpSubmitAndApply ctx Evidence
  | OpSubmitWithExpiration ctx Evidence Height
  | OpExpireEvidence Height
  | OpAppealEvidence Evidence
  | OpApplyPenaltyWithStake ctx Evidence VotingPower

fun keeper_step ::
    "(VotingPower \<Rightarrow> Penalty \<Rightarrow> slashing_error + VotingPower) \<Rightarrow> InMemoryKeeper \<Rightarrow> keeper_op \<Rightarrow> InMemoryKeeper" where
  "keeper_step slash k (OpSubmitEvidence ctx e) = fst (SubmitEvidence k ctx e)"
| "keeper_step slash k (OpSubmitAndApply ctx e) = fst (SubmitAndApply k ctx e)"
| "keeper_step slash k (OpSubmitWithExpiration ctx e h) = fst (SubmitWithExpiration k ctx e h)"
| "keeper_step slash k (OpExpireEvidence h) = fst (ExpireEvidence k h)"
| "keeper_step slash k (OpAppealEvidence e) = fst (AppealEvidence k e)"
| "keeper_step slash k (OpApplyPenaltyWithStake ctx e p) = fst (ApplyPenaltyWithStake slash k ctx e p)"

definition keeper_run ::
    "(VotingPower \<Rightarrow> Penalty \<Rightarrow> slashing_error + VotingPower) \<Rightarrow> InMemoryKeeper \<Rightarrow> keeper_op list \<Rightarrow> InMemoryKeeper" where
  "keeper_run slash k ops = foldl (keeper_step slash) k ops"

lemma expireOne_frame [simp]:
  "kp_evidence (fst (expireOne h kc x)) = kp_evidence (fst kc)"
  "kp_penalties (fst (expireOne h kc x)) = kp_penalties (fst kc)"
  by (cases kc; cases x; simp add: expireOne_def)+

lemma ExpireEvidence_frame:
  "kp_evidence (fst (ExpireEvidence k h)) = kp_evidence k"
  "kp_penalties (fst (ExpireEvidence k h)) = kp_penalties k"
proof -
  have "kp_evidence (fst (foldl (expireOne h) kc xs)) = kp_evidence (fst kc)
      \<and> kp_penalties (fst (foldl (expireOne h) kc xs)) = kp_penalties (fst kc)" for kc xs
    by (induction xs arbitrary: kc) auto
  then show "kp_evidence (fst (ExpireEvidence k h)) = kp_evidence k"
    "kp_penalties (fst (ExpireEvidence k h)) = kp_penalties k"
    by (simp_all add: ExpireEvidence_def)
qed

lemma jailAndUnbond_frame [simp]:
  "kp_evidence (jailAndUnbond k e p) = kp_evidence k"
  "kp_penalties (jailAndUnbond k e p) = kp_penalties k"
  by (simp_all add: jailAndUnbond_def Let_def)

lemmas keeper_op_defs = SubmitEvidence_def SubmitAndApply_def SubmitWithExpiration_def
  AppealEvidence_def ApplyPenaltyWithStake_def Let_def

text \<open>Evidence and penalties are never forgotten.\<close>

lemma keeper_step_evidence:
  "map_of (kp_evidence k) key \<noteq> None \<Longrightarrow> map_of (kp_evidence (keeper_step slash k op)) key \<noteq> None"
  by (cases op)
     (auto simp: keeper_op_defs ExpireEvidence_frame update_conv'
       split: option.splits sum.splits prod.splits if_splits)

lemma keeper_step_penalties:
  "map_of (kp_penalties k) key \<noteq> None \<Longrightarrow> map_of (kp_penalties (keeper_step slash k op)) key \<noteq> None"
  by (cases op)
     (auto simp: keeper_op_defs ExpireEvidence_frame update_conv'
       split: option.splits sum.splits prod.splits if_splits)

lemma keeper_run_evidence:
  "map_of (kp_evidence k) key \<noteq> None \<Longrightarrow> map_of (kp_evidence (keeper_run slash k ops)) key \<noteq> None"
  unfolding keeper_run_def
  by (induction ops arbitrary: k) (simp_all only: foldl.simps keeper_step_evidence not_False_eq_True)

lemma keeper_run_penalties:
  "map_of (kp_penalties k) key \<noteq> None \<Longrightarrow> map_of (kp_penalties (keeper_run slash k ops)) key \<noteq> None"
  unfolding keeper_run_def
  by (induction ops arbitrary: k) (simp_all only: foldl.simps keeper_step_penalties not_False_eq_True)

lemma SubmitEvidence_records:
  "SubmitEvidence k ctx e = (k', None) \<Longrightarrow> map_of (kp_evidence k') (evidenceKey e) \<noteq> None"
  by (auto simp: SubmitEvidence_def Let_def update_conv' split: option.splits if_splits)

lemma ApplyPenaltyWithStake_records:
  "ApplyPenaltyWithStake slash k ctx e p = (k', Inr r) \<Longrightarrow>
     map_of (kp_penalties k') (evidenceKey e) = Some r"
  by (auto simp: ApplyPenaltyWithStake_def Let_def update_conv'
      split: option.splits sum.splits if_splits)

text \<open>Once charged, the stored receipt is returned whatever the current power.\<close>

lemma ApplyPenaltyWithStake_again:
  assumes "map_of (kp_penalties k) (evidenceKey e) = Some r"
  shows "snd (ApplyPenaltyWithStake slash k ctx e p) = Inr r"
    and "kp_penalties (fst (ApplyPenaltyWithStake slash k ctx e p)) = kp_penalties k"
  using assms by (simp_all add: ApplyPenaltyWithStake_def)

section \<open>Properties\<close>


definition ex_double_sign :: Evidence where
  "ex_double_sign = \<lparr>evd_Type = EvidenceDoubleSign, evd_Validator = ''v'', evd_Height = 9, evd_Round = 0,
     evd_Proof = ''proof''\<rparr>"


end
