(* ===== verification/Finality.thy ===== *)
theory Finality
  imports Registry Slashing
begin

text \<open>
  Package \<^verbatim>\<open>finality\<close>: signer lists and proofs (\<^verbatim>\<open>proof.go\<close>, \<^verbatim>\<open>builder.go\<close>), the light-client verifier
  (\<^verbatim>\<open>verifier.go\<close>), the accountable-safety detector (\<^verbatim>\<open>attack_detector.go\<close>) and finality-conflict
  evidence (\<^verbatim>\<open>evidence.go\<close>).  The verifier is shown equivalent to a declarative reading of the proof
  format, and two verified proofs for different blocks are shown to expose a third of the voting power.
\<close>

datatype finality_error =
    ErrEmptySigner
  | ErrValidatorSetMismatch
  | ErrBlockHashMismatch
  | ErrHeightMismatch
  | ErrInsufficientQuorum
  | ErrVotingPowerMismatch
  | ErrMissingQCSignature
  | ErrUnknownSigner
  | ErrDuplicateSigner
  | ErrCommitChainTooShort
  | ErrCommitChainBroken
  | ErrNoFinalityConflict
  | ErrFinalitySetUnavailable
  | ErrValidatorNotInFinalityConflict
  | FinalityTypesError types_error
  | FinalityCtxError ctx_error
  | FinalityValidatorError validator_error
  | FinalitySlashingError slashing_error
  | FinalityJSONError

section \<open>Proofs and signer lists (proof.go, builder.go)\<close>

definition Proof_HeaderHash :: "Proof \<Rightarrow> hash" where
  "Proof_HeaderHash p = finality_hashHeader (prf_Header p)"

definition CommitLink_HeaderHash :: "CommitLink \<Rightarrow> hash" where
  "CommitLink_HeaderHash l = finality_hashHeader (lnk_Header l)"

definition Proof_SignBytes :: "Proof \<Rightarrow> bytes" where
  "Proof_SignBytes p =
     (let blockHash = prf_BlockHash p;
          blockHash = (if blockHash = zero_hash then qc_BlockHash (prf_QuorumCert p) else blockHash);
          blockHash = (if blockHash = zero_hash then Proof_HeaderHash p else blockHash)
      in signbytes_Vote (qc_Height (prf_QuorumCert p)) (qc_Round (prf_QuorumCert p)) blockHash)"

definition HasThreeChainCommitProof :: "Proof \<Rightarrow> bool" where
  "HasThreeChainCommitProof p \<longleftrightarrow> 2 \<le> length (prf_CommitChain p)"

definition CommitLink_SignBytes :: "CommitLink \<Rightarrow> bytes" where
  "CommitLink_SignBytes l =
     (let blockHash = qc_BlockHash (lnk_QuorumCert l);
          blockHash = (if blockHash = zero_hash then lnk_BlockHash l else blockHash)
      in signbytes_Vote (qc_Height (lnk_QuorumCert l)) (qc_Round (lnk_QuorumCert l)) blockHash)"

definition EncodeSigners :: "ValidatorID list \<Rightarrow> Bitmap" where
  "EncodeSigners signers = joinWith CHR '','' signers"

definition ParseSigners :: "Bitmap \<Rightarrow> finality_error + ValidatorID list" where
  "ParseSigners signers =
     (if signers = [] then Inr []
      else
        let parts = splitOn CHR '','' signers in
        if [] \<in> set parts then Inl ErrEmptySigner else Inr parts)"

definition NewProof :: "Header \<Rightarrow> QuorumCert \<Rightarrow> Proof" where
  "NewProof header quorumCert =
     (let blockHash = qc_BlockHash quorumCert;
          blockHash = (if blockHash = zero_hash then finality_hashHeader header else blockHash)
      in \<lparr>prf_Header = header, prf_BlockHash = blockHash, prf_QuorumCert = quorumCert,
          prf_CommitChain = [], prf_ValidatorSetHeight = hdr_Height header,
          prf_ValidatorSetHash = hdr_ValidatorSetHash header\<rparr>)"

section \<open>Verifier (verifier.go)\<close>

record Verifier =
  vf_validatorSet :: setSnapshot
  vf_signatures :: "aggregate_verifier option"
  vf_requireCommitChain :: bool

definition HasQuorum :: "VotingPower \<Rightarrow> VotingPower \<Rightarrow> bool" where
  "HasQuorum pow tot = HasTwoThirdsQuorum pow tot"

definition newVerifier :: "setSnapshot \<Rightarrow> aggregate_verifier option \<Rightarrow> bool \<Rightarrow> Verifier" where
  "newVerifier validatorSet signatures requireCommitChain =
     (let signatures =
            (case signatures of
               None \<Rightarrow> None
             | Some s \<Rightarrow>
                 (case NewDomainAggregateVerifier signatures DomainConsensusVote of
                    Inl _ \<Rightarrow> Some s
                  | Inr wrapped \<Rightarrow> Some (DomainAggregateVerifier_VerifyAggregate wrapped)))
      in \<lparr>vf_validatorSet = validatorSet, vf_signatures = signatures,
          vf_requireCommitChain = requireCommitChain\<rparr>)"

definition NewVerifier :: "setSnapshot \<Rightarrow> aggregate_verifier option \<Rightarrow> Verifier" where
  "NewVerifier validatorSet signatures = newVerifier validatorSet signatures False"

definition NewStrictVerifier :: "setSnapshot \<Rightarrow> aggregate_verifier option \<Rightarrow> Verifier" where
  "NewStrictVerifier validatorSet signatures = newVerifier validatorSet signatures True"

text \<open>The loop over the parsed signers: duplicate and membership checks, power and key accumulation.\<close>

fun collectSigners ::
    "setSnapshot \<Rightarrow> ValidatorID list \<Rightarrow> ValidatorID set \<Rightarrow> VotingPower \<Rightarrow> PublicKey list
     \<Rightarrow> finality_error + VotingPower \<times> PublicKey list" where
  "collectSigners s [] seen votingPower publicKeys = Inr (votingPower, publicKeys)"
| "collectSigners s (signer # signers) seen votingPower publicKeys =
     (if signer \<in> seen then Inl ErrDuplicateSigner
      else
        case Set_Get s signer of
          None \<Rightarrow> Inl ErrUnknownSigner
        | Some v \<Rightarrow>
            case AddVotingPower votingPower (val_VotingPower v) of
              Inl e \<Rightarrow> Inl (FinalityTypesError e)
            | Inr p \<Rightarrow>
                collectSigners s signers (insert signer seen) p (publicKeys @ [val_PublicKey v]))"

definition verifyQuorumCert ::
    "Verifier \<Rightarrow> ctx \<Rightarrow> QuorumCert \<Rightarrow> Height \<Rightarrow> hash \<Rightarrow> bytes \<Rightarrow> finality_error option" where
  "verifyQuorumCert verifier ctx cert height blockHash signBytes =
     (case ctx of
        Some e \<Rightarrow> Some (FinalityCtxError e)
      | None \<Rightarrow>
          if qc_Height cert \<noteq> height then Some ErrHeightMismatch
          else if qc_BlockHash cert \<noteq> blockHash then Some ErrBlockHashMismatch
          else if qc_Signature cert = [] then Some ErrMissingQCSignature
          else
            case ParseSigners (qc_Signers cert) of
              Inl e \<Rightarrow> Some e
            | Inr signers \<Rightarrow>
                case collectSigners (vf_validatorSet verifier) signers {} 0 [] of
                  Inl e \<Rightarrow> Some e
                | Inr (votingPower, publicKeys) \<Rightarrow>
                    if \<not> HasQuorum votingPower (Set_TotalVotingPower (vf_validatorSet verifier))
                    then Some ErrInsufficientQuorum
                    else if qc_VotingPower cert \<noteq> 0 \<and> qc_VotingPower cert \<noteq> votingPower
                    then Some ErrVotingPowerMismatch
                    else
                      case vf_signatures verifier of
                        None \<Rightarrow> None
                      | Some verify \<Rightarrow>
                          if verify publicKeys signBytes (qc_Signature cert) then None
                          else Some ErrMissingQCSignature)"

text \<open>The loop of \<^verbatim>\<open>verifyCommitChain\<close> over the links.\<close>

fun verifyLinks ::
    "Verifier \<Rightarrow> ctx \<Rightarrow> Proof \<Rightarrow> nat \<Rightarrow> Header \<Rightarrow> hash \<Rightarrow> CommitLink list \<Rightarrow> finality_error option" where
  "verifyLinks verifier ctx p index previousHeader previousHash [] = None"
| "verifyLinks verifier ctx p index previousHeader previousHash (link # links) =
     (if lnk_BlockHash link = zero_hash then Some ErrCommitChainBroken
      else if lnk_BlockHash link \<noteq> CommitLink_HeaderHash link then Some ErrBlockHashMismatch
      else if hdr_ChainID (lnk_Header link) \<noteq> hdr_ChainID (prf_Header p) then Some ErrCommitChainBroken
      else if hdr_ValidatorSetHash (lnk_Header link) \<noteq> hdr_ValidatorSetHash (prf_Header p)
      then Some ErrValidatorSetMismatch
      else if hdr_Height (lnk_Header link) \<noteq> hdr_Height previousHeader + 1
      then Some ErrCommitChainBroken
      else if hdr_PreviousBlockHash (lnk_Header link) \<noteq> previousHash then Some ErrCommitChainBroken
      else if qc_Height (lnk_QuorumCert link) \<noteq> hdr_Height previousHeader then Some ErrHeightMismatch
      else if qc_BlockHash (lnk_QuorumCert link) \<noteq> previousHash then Some ErrBlockHashMismatch
      else
        case (if index < 2
              then verifyQuorumCert verifier ctx (lnk_QuorumCert link) (hdr_Height previousHeader)
                     previousHash (CommitLink_SignBytes link)
              else None) of
          Some e \<Rightarrow> Some e
        | None \<Rightarrow> verifyLinks verifier ctx p (index + 1) (lnk_Header link) (lnk_BlockHash link) links)"

definition verifyCommitChain :: "Verifier \<Rightarrow> ctx \<Rightarrow> Proof \<Rightarrow> finality_error option" where
  "verifyCommitChain verifier ctx p =
     (if prf_CommitChain p = [] then
        (if vf_requireCommitChain verifier then Some ErrCommitChainTooShort else None)
      else if \<not> HasThreeChainCommitProof p then Some ErrCommitChainTooShort
      else
        let rootHash = prf_BlockHash p;
            rootHash = (if rootHash = zero_hash then Proof_HeaderHash p else rootHash)
        in verifyLinks verifier ctx p 0 (prf_Header p) rootHash (prf_CommitChain p))"

definition VerifyFinalityProofWithContext :: "Verifier \<Rightarrow> ctx \<Rightarrow> Proof \<Rightarrow> finality_error option" where
  "VerifyFinalityProofWithContext verifier ctx p =
     (case ctx of
        Some e \<Rightarrow> Some (FinalityCtxError e)
      | None \<Rightarrow>
          let validatorSetHash = Set_Hash (vf_validatorSet verifier) in
          if prf_ValidatorSetHash p \<noteq> validatorSetHash
             \<or> hdr_ValidatorSetHash (prf_Header p) \<noteq> validatorSetHash
          then Some ErrValidatorSetMismatch
          else if prf_ValidatorSetHeight p = 0 \<or> hdr_Height (prf_Header p) < prf_ValidatorSetHeight p
          then Some ErrHeightMismatch
          else
            let blockHash = prf_BlockHash p;
                blockHash = (if blockHash = zero_hash then Proof_HeaderHash p else blockHash)
            in case verifyQuorumCert verifier ctx (prf_QuorumCert p) (hdr_Height (prf_Header p))
                      blockHash (Proof_SignBytes p) of
                 Some e \<Rightarrow> Some e
               | None \<Rightarrow> verifyCommitChain verifier ctx p)"

definition VerifyFinalityProof :: "Verifier \<Rightarrow> Proof \<Rightarrow> finality_error option" where
  "VerifyFinalityProof verifier p = VerifyFinalityProofWithContext verifier None p"

text \<open>
  The registry verifier looks the set up at the height the proof names.  The interface
  \<^verbatim>\<open>validator.Registry\<close> is the function that returns the set at a height.
\<close>

record RegistryVerifier =
  rv_registry :: "(ctx \<Rightarrow> Height \<Rightarrow> validator_error + setSnapshot) option"
  rv_signatures :: "aggregate_verifier option"
  rv_requireCommitChain :: bool

definition RegistryVerifier_VerifyFinalityProofWithContext ::
    "RegistryVerifier \<Rightarrow> ctx \<Rightarrow> Proof \<Rightarrow> finality_error option" where
  "RegistryVerifier_VerifyFinalityProofWithContext verifier ctx p =
     (case ctx of
        Some e \<Rightarrow> Some (FinalityCtxError e)
      | None \<Rightarrow>
          case rv_registry verifier of
            None \<Rightarrow> Some ErrValidatorSetMismatch
          | Some registry \<Rightarrow>
              let validatorSetHeight = prf_ValidatorSetHeight p;
                  validatorSetHeight = (if validatorSetHeight = 0 then hdr_Height (prf_Header p)
                                        else validatorSetHeight)
              in case registry ctx validatorSetHeight of
                   Inl e \<Rightarrow> Some (FinalityValidatorError e)
                 | Inr validatorSet \<Rightarrow>
                     VerifyFinalityProofWithContext
                       (newVerifier validatorSet (rv_signatures verifier)
                          (rv_requireCommitChain verifier)) ctx p)"

section \<open>Accountable safety (attack_detector.go)\<close>

record AccountableSafetyViolation =
  asv_ChainID :: string
  asv_Height :: Height
  asv_ValidatorSetHeight :: Height
  asv_ValidatorSetHash :: hash
  asv_FirstBlockHash :: hash
  asv_SecondBlockHash :: hash
  asv_FirstAppHash :: hash
  asv_SecondAppHash :: hash
  asv_FirstRound :: Round
  asv_SecondRound :: Round
  asv_FirstSigners :: "ValidatorID list"
  asv_SecondSigners :: "ValidatorID list"
  asv_DoubleSigners :: "ValidatorID list"
  asv_DoubleSignVotingPower :: VotingPower
  asv_TotalVotingPower :: VotingPower
  asv_FaultPowerThreshold :: VotingPower

definition MeetsFaultThreshold :: "AccountableSafetyViolation \<Rightarrow> bool" where
  "MeetsFaultThreshold v \<longleftrightarrow>
     asv_FaultPowerThreshold v \<le> asv_DoubleSignVotingPower v \<and> 0 < asv_FaultPowerThreshold v"

definition faultPowerThreshold :: "VotingPower \<Rightarrow> VotingPower" where
  "faultPowerThreshold tot =
     (if tot = 0 then 0
      else
        let threshold = tot div 3 in
        if tot mod 3 \<noteq> 0 then threshold + 1 else threshold)"

definition proofBlockHash :: "Proof \<Rightarrow> hash" where
  "proofBlockHash p =
     (if prf_BlockHash p \<noteq> zero_hash then prf_BlockHash p
      else if qc_BlockHash (prf_QuorumCert p) \<noteq> zero_hash then qc_BlockHash (prf_QuorumCert p)
      else Proof_HeaderHash p)"

text \<open>The loop of \<^verbatim>\<open>overlappingVotingPower\<close> over the first signers.\<close>

fun overlapLoop ::
    "setSnapshot \<Rightarrow> ValidatorID set \<Rightarrow> ValidatorID list \<Rightarrow> ValidatorID set \<Rightarrow> ValidatorID list
     \<Rightarrow> VotingPower \<Rightarrow> finality_error + ValidatorID list \<times> VotingPower" where
  "overlapLoop s secondSet [] seen overlapping pow = Inr (overlapping, pow)"
| "overlapLoop s secondSet (signer # signers) seen overlapping pow =
     (if signer \<in> seen then overlapLoop s secondSet signers seen overlapping pow
      else if signer \<notin> secondSet
      then overlapLoop s secondSet signers (insert signer seen) overlapping pow
      else
        case Set_Get s signer of
          None \<Rightarrow> Inl ErrUnknownSigner
        | Some v \<Rightarrow>
            case AddVotingPower pow (val_VotingPower v) of
              Inl e \<Rightarrow> Inl (FinalityTypesError e)
            | Inr p \<Rightarrow>
                overlapLoop s secondSet signers (insert signer seen) (overlapping @ [signer]) p)"

definition overlappingVotingPower ::
    "setSnapshot \<Rightarrow> ValidatorID list \<Rightarrow> ValidatorID list \<Rightarrow> finality_error + ValidatorID list \<times> VotingPower" where
  "overlappingVotingPower s firstSigners secondSigners =
     (case overlapLoop s (set secondSigners) firstSigners {} [] 0 of
        Inl e \<Rightarrow> Inl e
      | Inr (overlapping, pow) \<Rightarrow> Inr (sort overlapping, pow))"

definition sortedSigners :: "ValidatorID list \<Rightarrow> ValidatorID list" where
  "sortedSigners signers = sort signers"

text \<open>The interface \<^verbatim>\<open>validatorSetProvider\<close>; a provider may return a nil set.\<close>

type_synonym set_provider = "ctx \<Rightarrow> Height \<Rightarrow> finality_error + setSnapshot option"

definition staticValidatorSetProvider :: "setSnapshot option \<Rightarrow> set_provider" where
  "staticValidatorSetProvider validatorSet ctx height =
     (case ctx of
        Some e \<Rightarrow> Inl (FinalityCtxError e)
      | None \<Rightarrow>
          (case validatorSet of
             None \<Rightarrow> Inl ErrFinalitySetUnavailable
           | Some s \<Rightarrow> Inr (Some s)))"

definition DetectAccountableSafetyViolationWithContext ::
    "ctx \<Rightarrow> set_provider option \<Rightarrow> Proof \<Rightarrow> Proof \<Rightarrow> finality_error + AccountableSafetyViolation" where
  "DetectAccountableSafetyViolationWithContext ctx sets p1 p2 =
     (case ctx of
        Some e \<Rightarrow> Inl (FinalityCtxError e)
      | None \<Rightarrow>
          if hdr_Height (prf_Header p1) \<noteq> hdr_Height (prf_Header p2) then Inl ErrHeightMismatch
          else if proofBlockHash p1 = proofBlockHash p2 then Inl ErrNoFinalityConflict
          else if prf_ValidatorSetHeight p1 = 0 \<or> prf_ValidatorSetHeight p2 = 0
                  \<or> prf_ValidatorSetHeight p1 \<noteq> prf_ValidatorSetHeight p2
          then Inl ErrHeightMismatch
          else if prf_ValidatorSetHash p1 \<noteq> prf_ValidatorSetHash p2
                  \<or> hdr_ValidatorSetHash (prf_Header p1) \<noteq> hdr_ValidatorSetHash (prf_Header p2)
          then Inl ErrValidatorSetMismatch
          else
            case sets of
              None \<Rightarrow> Inl ErrFinalitySetUnavailable
            | Some provider \<Rightarrow>
                case provider ctx (prf_ValidatorSetHeight p1) of
                  Inl e \<Rightarrow> Inl e
                | Inr None \<Rightarrow> Inl ErrFinalitySetUnavailable
                | Inr (Some s) \<Rightarrow>
                    if prf_ValidatorSetHash p1 \<noteq> Set_Hash s then Inl ErrValidatorSetMismatch
                    else
                      case ParseSigners (qc_Signers (prf_QuorumCert p1)) of
                        Inl e \<Rightarrow> Inl e
                      | Inr firstSigners \<Rightarrow>
                          case ParseSigners (qc_Signers (prf_QuorumCert p2)) of
                            Inl e \<Rightarrow> Inl e
                          | Inr secondSigners \<Rightarrow>
                              case overlappingVotingPower s firstSigners secondSigners of
                                Inl e \<Rightarrow> Inl e
                              | Inr (doubleSigners, doubleSignPower) \<Rightarrow>
                                  Inr \<lparr>asv_ChainID = hdr_ChainID (prf_Header p1),
                                       asv_Height = hdr_Height (prf_Header p1),
                                       asv_ValidatorSetHeight = prf_ValidatorSetHeight p1,
                                       asv_ValidatorSetHash = prf_ValidatorSetHash p1,
                                       asv_FirstBlockHash = proofBlockHash p1,
                                       asv_SecondBlockHash = proofBlockHash p2,
                                       asv_FirstAppHash = hdr_AppHash (prf_Header p1),
                                       asv_SecondAppHash = hdr_AppHash (prf_Header p2),
                                       asv_FirstRound = qc_Round (prf_QuorumCert p1),
                                       asv_SecondRound = qc_Round (prf_QuorumCert p2),
                                       asv_FirstSigners = sortedSigners firstSigners,
                                       asv_SecondSigners = sortedSigners secondSigners,
                                       asv_DoubleSigners = doubleSigners,
                                       asv_DoubleSignVotingPower = doubleSignPower,
                                       asv_TotalVotingPower = Set_TotalVotingPower s,
                                       asv_FaultPowerThreshold =
                                         faultPowerThreshold (Set_TotalVotingPower s)\<rparr>)"

definition DetectAccountableSafetyViolation ::
    "setSnapshot option \<Rightarrow> Proof \<Rightarrow> Proof \<Rightarrow> finality_error + AccountableSafetyViolation" where
  "DetectAccountableSafetyViolation validatorSet p1 p2 =
     DetectAccountableSafetyViolationWithContext None
       (Some (staticValidatorSetProvider validatorSet)) p1 p2"

text \<open>The detector keeps the first verified proof of every height.\<close>

record AttackDetector =
  det_verifier :: "(ctx \<Rightarrow> Proof \<Rightarrow> finality_error option) option"
  det_sets :: "set_provider option"
  det_proofs :: "(Height, Proof) gomap"

definition NewAttackDetector :: "setSnapshot \<Rightarrow> aggregate_verifier option \<Rightarrow> AttackDetector" where
  "NewAttackDetector validatorSet signatures =
     \<lparr>det_verifier = Some (VerifyFinalityProofWithContext (NewVerifier validatorSet signatures)),
      det_sets = Some (staticValidatorSetProvider (Some validatorSet)), det_proofs = []\<rparr>"

definition ObserveWithContext ::
    "AttackDetector \<Rightarrow> ctx \<Rightarrow> Proof
     \<Rightarrow> AttackDetector \<times> (finality_error + AccountableSafetyViolation option)" where
  "ObserveWithContext detector ctx p =
     (case ctx of
        Some e \<Rightarrow> (detector, Inl (FinalityCtxError e))
      | None \<Rightarrow>
          (case (det_verifier detector, det_sets detector) of
             (Some verify, Some sets) \<Rightarrow>
               (case verify ctx p of
                  Some e \<Rightarrow> (detector, Inl e)
                | None \<Rightarrow>
                    case map_of (det_proofs detector) (hdr_Height (prf_Header p)) of
                      None \<Rightarrow>
                        (detector\<lparr>det_proofs :=
                           AList.update (hdr_Height (prf_Header p)) p (det_proofs detector)\<rparr>, Inr None)
                    | Some previous \<Rightarrow>
                        (case DetectAccountableSafetyViolationWithContext ctx (det_sets detector)
                                previous p of
                           Inl ErrNoFinalityConflict \<Rightarrow> (detector, Inr None)
                         | Inl e \<Rightarrow> (detector, Inl e)
                         | Inr violation \<Rightarrow> (detector, Inr (Some violation))))
           | _ \<Rightarrow> (detector, Inl ErrFinalitySetUnavailable)))"

section \<open>Finality-conflict evidence (evidence.go)\<close>

record ConflictProof =
  cp_First :: Proof
  cp_Second :: Proof

definition containsSigner :: "ValidatorID list \<Rightarrow> ValidatorID \<Rightarrow> bool" where
  "containsSigner signers target \<longleftrightarrow> target \<in> set signers"

definition NewConflictEvidence ::
    "(ConflictProof \<Rightarrow> bytes) \<Rightarrow> setSnapshot option \<Rightarrow> Proof \<Rightarrow> Proof \<Rightarrow> ValidatorID
     \<Rightarrow> finality_error + Evidence" where
  "NewConflictEvidence marshal validatorSet p1 p2 validatorID =
     (if validatorID = [] then Inl (FinalitySlashingError ErrMissingValidator)
      else
        case DetectAccountableSafetyViolation validatorSet p1 p2 of
          Inl e \<Rightarrow> Inl e
        | Inr violation \<Rightarrow>
            if \<not> containsSigner (asv_DoubleSigners violation) validatorID
            then Inl ErrValidatorNotInFinalityConflict
            else Inr \<lparr>evd_Type = EvidenceFinalityConflict, evd_Validator = validatorID,
                      evd_Height = hdr_Height (prf_Header p1),
                      evd_Round = qc_Round (prf_QuorumCert p1),
                      evd_Proof = marshal \<lparr>cp_First = p1, cp_Second = p2\<rparr>\<rparr>)"

definition VerifyConflictEvidence ::
    "(bytes \<Rightarrow> ConflictProof option) \<Rightarrow> setSnapshot \<Rightarrow> aggregate_verifier option \<Rightarrow> Evidence
     \<Rightarrow> finality_error + AccountableSafetyViolation" where
  "VerifyConflictEvidence unmarshal validatorSet signatures evidence =
     (if evd_Type evidence \<noteq> EvidenceFinalityConflict
      then Inl (FinalitySlashingError ErrUnknownEvidenceType)
      else
        case unmarshal (evd_Proof evidence) of
          None \<Rightarrow> Inl FinalityJSONError
        | Some decoded \<Rightarrow>
            if hdr_Height (prf_Header (cp_First decoded)) \<noteq> evd_Height evidence
               \<or> hdr_Height (prf_Header (cp_Second decoded)) \<noteq> evd_Height evidence
               \<or> qc_Round (prf_QuorumCert (cp_First decoded)) \<noteq> evd_Round evidence
            then Inl ErrHeightMismatch
            else
              let verifier = NewVerifier validatorSet signatures in
              case VerifyFinalityProof verifier (cp_First decoded) of
                Some e \<Rightarrow> Inl e
              | None \<Rightarrow>
                  case VerifyFinalityProof verifier (cp_Second decoded) of
                    Some e \<Rightarrow> Inl e
                  | None \<Rightarrow>
                      case DetectAccountableSafetyViolation (Some validatorSet)
                             (cp_First decoded) (cp_Second decoded) of
                        Inl e \<Rightarrow> Inl e
                      | Inr violation \<Rightarrow>
                          if \<not> containsSigner (asv_DoubleSigners violation) (evd_Validator evidence)
                          then Inl ErrValidatorNotInFinalityConflict
                          else Inr violation)"

section \<open>Signer lists\<close>

definition signer_ok :: "ValidatorID \<Rightarrow> bool" where
  "signer_ok i \<longleftrightarrow> i \<noteq> [] \<and> CHR '','' \<notin> set i"

lemma joinWith_empty: "joinWith sep ps = [] \<longleftrightarrow> ps = [] \<or> ps = [[]]"
  by (induction sep ps rule: joinWith.induct) auto

lemma ParseSigners_EncodeSigners:
  assumes "list_all signer_ok ids"
  shows "ParseSigners (EncodeSigners ids) = Inr ids"
proof (cases "ids = []")
  case False
  from assms have "\<forall>p \<in> set ids. CHR '','' \<notin> set p" and "[] \<notin> set ids"
    by (auto simp: list_all_iff signer_ok_def)
  with False splitOn_joinWith [OF False, of "CHR '',''"] show ?thesis
    by (auto simp: ParseSigners_def EncodeSigners_def joinWith_empty)
qed (simp add: ParseSigners_def EncodeSigners_def)

lemma EncodeSigners_ParseSigners:
  assumes "ParseSigners b = Inr ids"
  shows "EncodeSigners ids = b \<and> list_all signer_ok ids"
  using assms
  by (auto simp: ParseSigners_def Let_def EncodeSigners_def joinWith_splitOn list_all_iff signer_ok_def
      dest: splitOn_parts split: if_splits)

section \<open>Quorum certificates\<close>

lemma collectSigners_iff:
  "collectSigners s ids seen p keys = Inr (p', keys') \<longleftrightarrow>
     distinct ids \<and> set ids \<inter> seen = {} \<and> list_all (\<lambda>i. Set_Get s i \<noteq> None) ids
     \<and> unat p + signers_power (Set_Get s) ids < 2 ^ 64
     \<and> unat p' = unat p + signers_power (Set_Get s) ids
     \<and> keys' = keys @ map (\<lambda>i. val_PublicKey (the (Set_Get s i))) ids"
proof (induction ids arbitrary: seen p keys)
  case Nil
  then show ?case
    using unat_u64_less [of p] by (auto simp: word_unat_eq_iff)
next
  case (Cons i ids)
  show ?case
  proof (cases "i \<in> seen \<or> Set_Get s i = None")
    case False
    then obtain v where v: "Set_Get s i = Some v"
      by auto
    show ?thesis
    proof (cases "unat p + unat (val_VotingPower v) < 2 ^ 64")
      case True
      with False v show ?thesis
        by (auto simp: AddVotingPower_cases Cons.IH unat_add_u64)
    qed (use False v in \<open>auto simp: AddVotingPower_cases\<close>)
  qed auto
qed

text \<open>What an accepted certificate is, declaratively.\<close>

definition qc_valid ::
    "setSnapshot \<Rightarrow> aggregate_verifier option \<Rightarrow> QuorumCert \<Rightarrow> Height \<Rightarrow> hash \<Rightarrow> bytes \<Rightarrow> bool" where
  "qc_valid s signatures cert height blockHash signBytes \<longleftrightarrow>
     qc_Height cert = height \<and> qc_BlockHash cert = blockHash \<and> qc_Signature cert \<noteq> []
     \<and> (\<exists>ids. ParseSigners (qc_Signers cert) = Inr ids \<and> distinct ids
          \<and> list_all (\<lambda>i. Set_Get s i \<noteq> None) ids
          \<and> signers_power (Set_Get s) ids < 2 ^ 64
          \<and> Set_TotalVotingPower s \<noteq> 0
          \<and> 2 * unat (Set_TotalVotingPower s) \<le> 3 * signers_power (Set_Get s) ids
          \<and> (qc_VotingPower cert = 0 \<or> unat (qc_VotingPower cert) = signers_power (Set_Get s) ids)
          \<and> (case signatures of None \<Rightarrow> True
             | Some verify \<Rightarrow> verify (map (\<lambda>i. val_PublicKey (the (Set_Get s i))) ids) signBytes
                 (qc_Signature cert)))"

lemma collect_Inr_power:
  assumes "collectSigners s ids {} 0 [] = Inr (p, keys)"
  shows "unat p = signers_power (Set_Get s) ids"
    and "keys = map (\<lambda>i. val_PublicKey (the (Set_Get s i))) ids"
  using assms by (auto simp: collectSigners_iff)

lemma verifyQuorumCert_sound:
  assumes "verifyQuorumCert v None cert h b m = None"
  shows "qc_valid (vf_validatorSet v) (vf_signatures v) cert h b m"
proof -
  let ?s = "vf_validatorSet v"
  from assms obtain ids p keys where
    head: "qc_Height cert = h" "qc_BlockHash cert = b" "qc_Signature cert \<noteq> []"
    and ids: "ParseSigners (qc_Signers cert) = Inr ids"
    and col: "collectSigners ?s ids {} 0 [] = Inr (p, keys)"
    and quo: "HasQuorum p (Set_TotalVotingPower ?s)"
    and pow: "qc_VotingPower cert = 0 \<or> qc_VotingPower cert = p"
    and sig: "case vf_signatures v of None \<Rightarrow> True | Some f \<Rightarrow> f keys m (qc_Signature cert)"
    by (auto simp: verifyQuorumCert_def split: if_splits sum.splits option.splits)
  from head ids quo pow sig col collect_Inr_power [OF col] show ?thesis
    unfolding qc_valid_def
    by (auto simp: collectSigners_iff HasQuorum_def HasTwoThirdsQuorum_iff word_unat_eq_iff)
qed

lemma verifyQuorumCert_complete:
  assumes "qc_valid (vf_validatorSet v) (vf_signatures v) cert h b m"
  shows "verifyQuorumCert v None cert h b m = None"
proof -
  let ?s = "vf_validatorSet v"
  from assms obtain ids where
    head: "qc_Height cert = h" "qc_BlockHash cert = b" "qc_Signature cert \<noteq> []"
    and ids: "ParseSigners (qc_Signers cert) = Inr ids" "distinct ids"
      "list_all (\<lambda>i. Set_Get ?s i \<noteq> None) ids"
    and quo: "signers_power (Set_Get ?s) ids < 2 ^ 64" "Set_TotalVotingPower ?s \<noteq> 0"
      "2 * unat (Set_TotalVotingPower ?s) \<le> 3 * signers_power (Set_Get ?s) ids"
    and pow: "qc_VotingPower cert = 0 \<or> unat (qc_VotingPower cert) = signers_power (Set_Get ?s) ids"
    and sig: "case vf_signatures v of None \<Rightarrow> True
        | Some f \<Rightarrow> f (map (\<lambda>i. val_PublicKey (the (Set_Get ?s i))) ids) m (qc_Signature cert)"
    unfolding qc_valid_def by blast
  let ?p = "word_of_nat (signers_power (Set_Get ?s) ids) :: u64"
  have p: "unat ?p = signers_power (Set_Get ?s) ids"
    using quo(1) by (rule u64_of_nat)
  then have "collectSigners ?s ids {} 0 [] =
      Inr (?p, map (\<lambda>i. val_PublicKey (the (Set_Get ?s i))) ids)"
    using ids quo(1) by (simp add: collectSigners_iff)
  moreover have "HasQuorum ?p (Set_TotalVotingPower ?s)"
    using quo p by (simp add: HasQuorum_def HasTwoThirdsQuorum_iff)
  moreover have "qc_VotingPower cert = 0 \<or> qc_VotingPower cert = ?p"
    using pow p by (auto simp: word_unat_eq_iff)
  ultimately show ?thesis
    using head ids(1) sig by (auto simp: verifyQuorumCert_def split: option.splits)
qed

lemma verifyQuorumCert_iff:
  "verifyQuorumCert v None cert h b m = None \<longleftrightarrow>
     qc_valid (vf_validatorSet v) (vf_signatures v) cert h b m"
  using verifyQuorumCert_sound verifyQuorumCert_complete by blast

section \<open>Finality proofs\<close>

text \<open>The block before link \<open>i\<close>: the root of the proof or the previous link.\<close>

definition chain_prev :: "Header \<Rightarrow> hash \<Rightarrow> CommitLink list \<Rightarrow> nat \<Rightarrow> Header \<times> hash" where
  "chain_prev header blockHash links i =
     (if i = 0 then (header, blockHash)
      else (lnk_Header (links ! (i - 1)), lnk_BlockHash (links ! (i - 1))))"

definition link_valid :: "Verifier \<Rightarrow> Proof \<Rightarrow> bool \<Rightarrow> Header \<times> hash \<Rightarrow> CommitLink \<Rightarrow> bool" where
  "link_valid v p checkQC prev l \<longleftrightarrow>
     lnk_BlockHash l \<noteq> zero_hash \<and> lnk_BlockHash l = HashHeader (lnk_Header l)
     \<and> hdr_ChainID (lnk_Header l) = hdr_ChainID (prf_Header p)
     \<and> hdr_ValidatorSetHash (lnk_Header l) = hdr_ValidatorSetHash (prf_Header p)
     \<and> hdr_Height (lnk_Header l) = hdr_Height (fst prev) + 1
     \<and> hdr_PreviousBlockHash (lnk_Header l) = snd prev
     \<and> qc_Height (lnk_QuorumCert l) = hdr_Height (fst prev)
     \<and> qc_BlockHash (lnk_QuorumCert l) = snd prev
     \<and> (checkQC \<longrightarrow> qc_valid (vf_validatorSet v) (vf_signatures v) (lnk_QuorumCert l)
                     (hdr_Height (fst prev)) (snd prev) (CommitLink_SignBytes l))"

definition chain_valid :: "Verifier \<Rightarrow> Proof \<Rightarrow> nat \<Rightarrow> Header \<Rightarrow> hash \<Rightarrow> CommitLink list \<Rightarrow> bool" where
  "chain_valid v p k header blockHash links \<longleftrightarrow>
     (\<forall>i < length links. link_valid v p (k + i < 2) (chain_prev header blockHash links i) (links ! i))"

lemma chain_valid_Nil [simp]: "chain_valid v p k header blockHash []"
  by (simp add: chain_valid_def)

lemma chain_valid_Cons:
  "chain_valid v p k header blockHash (l # ls) \<longleftrightarrow>
     link_valid v p (k < 2) (header, blockHash) l
     \<and> chain_valid v p (k + 1) (lnk_Header l) (lnk_BlockHash l) ls"
proof -
  have "chain_prev header blockHash (l # ls) (Suc i) = chain_prev (lnk_Header l) (lnk_BlockHash l) ls i" for i
    by (cases i) (simp_all add: chain_prev_def)
  then show ?thesis
    by (simp add: chain_valid_def All_less_Suc2 chain_prev_def [of _ _ _ 0])
qed

lemma verifyLinks_iff:
  "verifyLinks v None p k header blockHash links = None \<longleftrightarrow> chain_valid v p k header blockHash links"
proof (induction links arbitrary: k header blockHash)
  case (Cons l ls)
  show ?case
  proof (cases "k < 2")
    case True
    then show ?thesis
      by (auto simp: chain_valid_Cons link_valid_def Cons.IH CommitLink_HeaderHash_def
          finality_hashHeader_eq verifyQuorumCert_iff [symmetric] split: option.splits)
  next
    case False
    then show ?thesis
      by (auto simp: chain_valid_Cons link_valid_def Cons.IH CommitLink_HeaderHash_def
          finality_hashHeader_eq split: option.splits)
  qed
qed simp

definition root_hash :: "Proof \<Rightarrow> hash" where
  "root_hash p = (if prf_BlockHash p = zero_hash then HashHeader (prf_Header p) else prf_BlockHash p)"

text \<open>What an accepted finality proof is, declaratively.\<close>

definition proof_valid :: "Verifier \<Rightarrow> Proof \<Rightarrow> bool" where
  "proof_valid v p \<longleftrightarrow>
     prf_ValidatorSetHash p = Set_Hash (vf_validatorSet v)
     \<and> hdr_ValidatorSetHash (prf_Header p) = Set_Hash (vf_validatorSet v)
     \<and> 0 < prf_ValidatorSetHeight p \<and> prf_ValidatorSetHeight p \<le> hdr_Height (prf_Header p)
     \<and> qc_valid (vf_validatorSet v) (vf_signatures v) (prf_QuorumCert p) (hdr_Height (prf_Header p))
         (root_hash p) (Proof_SignBytes p)
     \<and> (if prf_CommitChain p = [] then \<not> vf_requireCommitChain v
        else 2 \<le> length (prf_CommitChain p)
             \<and> chain_valid v p 0 (prf_Header p) (root_hash p) (prf_CommitChain p))"

lemma VerifyFinalityProof_iff: "VerifyFinalityProof v p = None \<longleftrightarrow> proof_valid v p"
  by (auto simp: VerifyFinalityProof_def VerifyFinalityProofWithContext_def Let_def proof_valid_def
      verifyCommitChain_def HasThreeChainCommitProof_def Proof_HeaderHash_def finality_hashHeader_eq
      root_hash_def verifyQuorumCert_iff [symmetric] verifyLinks_iff word_gt_0 not_less
      split: option.splits if_splits)

lemma proof_valid_block_hash: "proof_valid v p \<Longrightarrow> qc_BlockHash (prf_QuorumCert p) = proofBlockHash p"
  by (auto simp: proof_valid_def qc_valid_def root_hash_def proofBlockHash_def Proof_HeaderHash_def
      finality_hashHeader_eq)

section \<open>Accountable safety\<close>

lemma unat_faultPowerThreshold: "unat (faultPowerThreshold t) = (unat t + 2) div 3"
proof -
  have "unat (t div 3 + 1 :: u64) = unat t div 3 + 1"
    using unat_u64_less [of t] by (subst unat_add_u64) (auto simp: unat_div)
  then show ?thesis
    by (auto simp: faultPowerThreshold_def Let_def unat_div word_unat_eq_iff unat_mod; presburger)
qed

lemma overlapLoop_ok:
  "distinct ids \<Longrightarrow> set ids \<inter> seen = {} \<Longrightarrow> list_all (\<lambda>i. Set_Get s i \<noteq> None) ids \<Longrightarrow>
   unat p + signers_power (Set_Get s) (filter (\<lambda>i. i \<in> S) ids) < 2 ^ 64 \<Longrightarrow>
     \<exists>q. overlapLoop s S ids seen acc p = Inr (acc @ filter (\<lambda>i. i \<in> S) ids, q)
       \<and> unat q = unat p + signers_power (Set_Get s) (filter (\<lambda>i. i \<in> S) ids)"
proof (induction ids arbitrary: seen acc p)
  case (Cons i ids)
  then obtain v where v: "Set_Get s i = Some v"
    by auto
  show ?case
  proof (cases "i \<in> S")
    case True
    with Cons.prems v have "unat p + unat (val_VotingPower v) < 2 ^ 64"
      by auto
    with True v Cons.prems Cons.IH [of "insert i seen" "p + val_VotingPower v" "acc @ [i]"]
    show ?thesis
      by (auto simp: AddVotingPower_cases unat_add_u64)
  next
    case False
    with v Cons.prems Cons.IH [of "insert i seen" p acc] show ?thesis
      by auto
  qed
qed simp

lemma overlappingVotingPower_ok:
  assumes "snapshot_wf s" "distinct xs" "list_all (\<lambda>i. Set_Get s i \<noteq> None) xs"
  shows "\<exists>q. overlappingVotingPower s xs ys = Inr (sort (filter (\<lambda>i. i \<in> set ys) xs), q)
     \<and> unat q = signers_power (Set_Get s) (filter (\<lambda>i. i \<in> set ys) xs)"
proof -
  have "signers_power (Set_Get s) (filter (\<lambda>i. i \<in> set ys) xs) \<le> unat (Set_TotalVotingPower s)"
    using assms by (intro snap.power_le_total) auto
  also have "\<dots> < 2 ^ 64"
    using unat_u64_less [of "Set_TotalVotingPower s"] by simp
  finally show ?thesis
    using overlapLoop_ok [OF assms(2) _ assms(3), of "{}" 0 "set ys" "[]"]
    by (auto simp: overlappingVotingPower_def)
qed

lemma qc_valid_signers:
  assumes "qc_valid s f cert h b m"
  obtains ids where "ParseSigners (qc_Signers cert) = Inr ids" "distinct ids"
    "list_all (\<lambda>i. Set_Get s i \<noteq> None) ids" "Set_TotalVotingPower s \<noteq> 0"
    "2 * unat (Set_TotalVotingPower s) \<le> 3 * signers_power (Set_Get s) ids"
  using assms unfolding qc_valid_def by blast

lemma accountable_safety_detect:
  assumes wf: "snapshot_wf (vf_validatorSet v)"
    and "proof_valid v p1" and "proof_valid v p2"
    and "hdr_Height (prf_Header p1) = hdr_Height (prf_Header p2)"
    and "prf_ValidatorSetHeight p1 = prf_ValidatorSetHeight p2"
    and "proofBlockHash p1 \<noteq> proofBlockHash p2"
  shows "\<exists>w ids1 ids2. DetectAccountableSafetyViolation (Some (vf_validatorSet v)) p1 p2 = Inr w
    \<and> ParseSigners (qc_Signers (prf_QuorumCert p1)) = Inr ids1
    \<and> ParseSigners (qc_Signers (prf_QuorumCert p2)) = Inr ids2
    \<and> set (asv_DoubleSigners w) = set ids1 \<inter> set ids2
    \<and> unat (asv_DoubleSignVotingPower w) = signers_power (Set_Get (vf_validatorSet v)) (asv_DoubleSigners w)
    \<and> unat (Set_TotalVotingPower (vf_validatorSet v)) \<le> 3 * unat (asv_DoubleSignVotingPower w)
    \<and> MeetsFaultThreshold w"
proof -
  let ?s = "vf_validatorSet v"
  from assms(2) obtain xs where xs: "ParseSigners (qc_Signers (prf_QuorumCert p1)) = Inr xs" "distinct xs"
    "list_all (\<lambda>i. Set_Get ?s i \<noteq> None) xs" "Set_TotalVotingPower ?s \<noteq> 0"
    "2 * unat (Set_TotalVotingPower ?s) \<le> 3 * signers_power (Set_Get ?s) xs"
    by (auto simp: proof_valid_def elim: qc_valid_signers)
  from assms(3) obtain ys where ys: "ParseSigners (qc_Signers (prf_QuorumCert p2)) = Inr ys" "distinct ys"
    "2 * unat (Set_TotalVotingPower ?s) \<le> 3 * signers_power (Set_Get ?s) ys"
    by (auto simp: proof_valid_def elim: qc_valid_signers)
  let ?o = "filter (\<lambda>i. i \<in> set ys) xs"
  obtain q where q: "overlappingVotingPower ?s xs ys = Inr (sort ?o, q)"
    "unat q = signers_power (Set_Get ?s) ?o"
    using overlappingVotingPower_ok [OF wf xs(2,3)] by blast
  have third: "unat (Set_TotalVotingPower ?s) \<le> 3 * unat q"
    using snap.quorum_overlap [OF wf xs(2) ys(2) xs(5) ys(3)] q(2) by simp
  have thr: "faultPowerThreshold (Set_TotalVotingPower ?s) \<le> q"
    "0 < faultPowerThreshold (Set_TotalVotingPower ?s)"
    using third xs(4) by (auto simp: word_le_nat_alt word_less_nat_alt unat_faultPowerThreshold
        word_unat_eq_iff)
  have pow: "signers_power (Set_Get ?s) (sort ?o) = unat q"
    by (subst q(2)) (rule signers_power_mset, simp)
  let ?w = "DetectAccountableSafetyViolation (Some ?s) p1 p2"
  from assms(2-6) xs(1) ys(1) q(1) obtain w where w: "?w = Inr w"
    "asv_DoubleSigners w = sort ?o" "asv_DoubleSignVotingPower w = q"
    "asv_FaultPowerThreshold w = faultPowerThreshold (Set_TotalVotingPower ?s)"
    by (simp add: DetectAccountableSafetyViolation_def DetectAccountableSafetyViolationWithContext_def
        staticValidatorSetProvider_def proof_valid_def word_gt_0)
  with xs(1) ys(1) pow third thr show ?thesis
    by (intro exI [of _ w] exI [of _ xs] exI [of _ ys]) (auto simp: MeetsFaultThreshold_def)
qed

section \<open>Fields that verification does not bind\<close>

text \<open>
  When the proof carries a block hash, the header enters the checks only through its chain identifier,
  height and validator-set hash.
\<close>

definition same_checked_fields :: "Header \<Rightarrow> Header \<Rightarrow> bool" where
  "same_checked_fields g h \<longleftrightarrow> hdr_ChainID g = hdr_ChainID h \<and> hdr_Height g = hdr_Height h
     \<and> hdr_ValidatorSetHash g = hdr_ValidatorSetHash h"

lemma link_valid_cong:
  assumes "same_checked_fields (prf_Header p) (prf_Header q)"
    and "hdr_Height (fst prev) = hdr_Height (fst prev')" and "snd prev = snd prev'"
  shows "link_valid v p c prev l = link_valid v q c prev' l"
  using assms by (simp add: link_valid_def same_checked_fields_def)

lemma chain_valid_cong:
  assumes "same_checked_fields (prf_Header p) (prf_Header q)"
    and "hdr_Height g = hdr_Height h"
  shows "chain_valid v p k g b links = chain_valid v q k h b links"
proof -
  have "link_valid v p c (chain_prev g b links i) l = link_valid v q c (chain_prev h b links i) l"
    for c i l
    by (rule link_valid_cong [OF assms(1)]) (auto simp: chain_prev_def assms(2))
  then show ?thesis
    by (simp add: chain_valid_def)
qed

lemma proof_valid_header_cong:
  assumes "prf_BlockHash p \<noteq> zero_hash" and "same_checked_fields h (prf_Header p)"
  shows "proof_valid v (p\<lparr>prf_Header := h\<rparr>) = proof_valid v p"
proof -
  have "chain_valid v (p\<lparr>prf_Header := h\<rparr>) 0 h (prf_BlockHash p) links
      = chain_valid v p 0 (prf_Header p) (prf_BlockHash p) links" for links
    by (rule chain_valid_cong) (use assms(2) in \<open>simp_all add: same_checked_fields_def\<close>)
  with assms show ?thesis
    by (simp add: proof_valid_def root_hash_def Proof_SignBytes_def Let_def same_checked_fields_def)
qed

lemma proof_valid_set_height:
  assumes "0 < k" and "k \<le> hdr_Height (prf_Header p)" and "proof_valid v p"
  shows "proof_valid v (p\<lparr>prf_ValidatorSetHeight := k\<rparr>)"
proof -
  have "chain_valid v (p\<lparr>prf_ValidatorSetHeight := k\<rparr>) 0 (prf_Header p) (root_hash p) links
      = chain_valid v p 0 (prf_Header p) (root_hash p) links" for links
    by (rule chain_valid_cong) (simp_all add: same_checked_fields_def)
  moreover have "root_hash (p\<lparr>prf_ValidatorSetHeight := k\<rparr>) = root_hash p"
    by (simp add: root_hash_def)
  moreover have "Proof_SignBytes (p\<lparr>prf_ValidatorSetHeight := k\<rparr>) = Proof_SignBytes p"
    by (simp add: Proof_SignBytes_def Let_def Proof_HeaderHash_def)
  ultimately show ?thesis
    using assms by (simp add: proof_valid_def)
qed

section \<open>Conflict evidence\<close>

lemma NewVerifier_set [simp]: "vf_validatorSet (NewVerifier s f) = s"
  by (simp add: NewVerifier_def newVerifier_def Let_def)

lemma overlapLoop_Inr:
  "overlapLoop s S ids seen acc p = Inr (xs, q) \<Longrightarrow> set xs \<subseteq> set acc \<union> (set ids \<inter> S)"
  by (induction s S ids seen acc p rule: overlapLoop.induct)
     (auto split: if_splits option.splits sum.splits)

lemma Detect_double_signers:
  assumes "DetectAccountableSafetyViolation (Some s) p1 p2 = Inr w" and "i \<in> set (asv_DoubleSigners w)"
  shows "\<exists>xs ys. ParseSigners (qc_Signers (prf_QuorumCert p1)) = Inr xs
    \<and> ParseSigners (qc_Signers (prf_QuorumCert p2)) = Inr ys \<and> i \<in> set xs \<and> i \<in> set ys"
proof -
  from assms(1) obtain xs ys zs q where
    xs: "ParseSigners (qc_Signers (prf_QuorumCert p1)) = Inr xs"
    and ys: "ParseSigners (qc_Signers (prf_QuorumCert p2)) = Inr ys"
    and o: "overlapLoop s (set ys) xs {} [] 0 = Inr (zs, q)" "asv_DoubleSigners w = sort zs"
    by (auto simp: DetectAccountableSafetyViolation_def DetectAccountableSafetyViolationWithContext_def
        staticValidatorSetProvider_def overlappingVotingPower_def
        split: if_splits sum.splits option.splits prod.splits)
  with overlapLoop_Inr [OF o(1)] assms(2) show ?thesis
    by auto
qed

lemma Detect_conflict:
  assumes "DetectAccountableSafetyViolation s p1 p2 = Inr w"
  shows "hdr_Height (prf_Header p1) = hdr_Height (prf_Header p2)
    \<and> prf_ValidatorSetHeight p1 = prf_ValidatorSetHeight p2
    \<and> proofBlockHash p1 \<noteq> proofBlockHash p2"
  using assms
  by (auto simp: DetectAccountableSafetyViolation_def DetectAccountableSafetyViolationWithContext_def
      split: if_splits)

lemma VerifyConflictEvidence_sound:
  assumes "VerifyConflictEvidence unmarshal s f e = Inr w"
  shows "\<exists>p1 p2 xs ys. unmarshal (evd_Proof e) = Some \<lparr>cp_First = p1, cp_Second = p2\<rparr>
    \<and> proof_valid (NewVerifier s f) p1 \<and> proof_valid (NewVerifier s f) p2
    \<and> hdr_Height (prf_Header p1) = evd_Height e \<and> hdr_Height (prf_Header p2) = evd_Height e
    \<and> proofBlockHash p1 \<noteq> proofBlockHash p2
    \<and> ParseSigners (qc_Signers (prf_QuorumCert p1)) = Inr xs
    \<and> ParseSigners (qc_Signers (prf_QuorumCert p2)) = Inr ys
    \<and> evd_Validator e \<in> set xs \<and> evd_Validator e \<in> set ys"
proof -
  from assms obtain c where c: "unmarshal (evd_Proof e) = Some c"
    "hdr_Height (prf_Header (cp_First c)) = evd_Height e"
    "hdr_Height (prf_Header (cp_Second c)) = evd_Height e"
    "VerifyFinalityProof (NewVerifier s f) (cp_First c) = None"
    "VerifyFinalityProof (NewVerifier s f) (cp_Second c) = None"
    "DetectAccountableSafetyViolation (Some s) (cp_First c) (cp_Second c) = Inr w"
    "evd_Validator e \<in> set (asv_DoubleSigners w)"
    by (auto simp: VerifyConflictEvidence_def Let_def containsSigner_def
        split: if_splits option.splits sum.splits)
  from c Detect_double_signers [OF c(6,7)] Detect_conflict [OF c(6)] show ?thesis
    by (cases c) (auto simp: VerifyFinalityProof_iff)
qed

lemma NewConflictEvidence_accepted:
  assumes "unmarshal (marshal \<lparr>cp_First = p1, cp_Second = p2\<rparr>) = Some \<lparr>cp_First = p1, cp_Second = p2\<rparr>"
    and "proof_valid (NewVerifier s f) p1" and "proof_valid (NewVerifier s f) p2"
    and "NewConflictEvidence marshal (Some s) p1 p2 i = Inr e"
  shows "\<exists>w. VerifyConflictEvidence unmarshal s f e = Inr w"
proof -
  from assms(4) obtain w where w: "DetectAccountableSafetyViolation (Some s) p1 p2 = Inr w"
    "i \<in> set (asv_DoubleSigners w)"
    and e: "e = \<lparr>evd_Type = EvidenceFinalityConflict, evd_Validator = i,
                 evd_Height = hdr_Height (prf_Header p1), evd_Round = qc_Round (prf_QuorumCert p1),
                 evd_Proof = marshal \<lparr>cp_First = p1, cp_Second = p2\<rparr>\<rparr>"
    by (auto simp: NewConflictEvidence_def containsSigner_def split: if_splits sum.splits)
  from w Detect_conflict [OF w(1)] assms(2,3) e show ?thesis
    by (simp add: VerifyConflictEvidence_def assms(1) containsSigner_def VerifyFinalityProof_iff [symmetric])
qed

section \<open>Detector\<close>

text \<open>
  A detector that has kept a verified proof of a height reports the violation when it observes a
  verified proof of the same height and set for another block.
\<close>

lemma Observe_detects:
  assumes "snapshot_wf s"
    and "ObserveWithContext (NewAttackDetector s f) None p1 = (d, Inr None)"
    and "proof_valid (NewVerifier s f) p2"
    and "hdr_Height (prf_Header p1) = hdr_Height (prf_Header p2)"
    and "prf_ValidatorSetHeight p1 = prf_ValidatorSetHeight p2"
    and "proofBlockHash p1 \<noteq> proofBlockHash p2"
  shows "\<exists>w. ObserveWithContext d None p2 = (d, Inr (Some w)) \<and> MeetsFaultThreshold w"
proof -
  from assms(2) have p1: "VerifyFinalityProofWithContext (NewVerifier s f) None p1 = None"
    and d: "d = (NewAttackDetector s f)\<lparr>det_proofs := [(hdr_Height (prf_Header p1), p1)]\<rparr>"
    by (auto simp: ObserveWithContext_def NewAttackDetector_def split: option.splits)
  from p1 have "proof_valid (NewVerifier s f) p1"
    by (simp add: VerifyFinalityProof_iff [symmetric] VerifyFinalityProof_def)
  with assms accountable_safety_detect [of "NewVerifier s f" p1 p2]
  obtain w where "DetectAccountableSafetyViolation (Some s) p1 p2 = Inr w" "MeetsFaultThreshold w"
    by auto
  with assms(3,4) d show ?thesis
    by (simp add: ObserveWithContext_def NewAttackDetector_def VerifyFinalityProof_iff [symmetric]
        VerifyFinalityProof_def DetectAccountableSafetyViolation_def)
qed

section \<open>Example set\<close>

text \<open>Four validators of power 1, and finality proofs of height 7.\<close>

definition ex_validator :: "ValidatorID \<Rightarrow> Validator" where
  "ex_validator i = \<lparr>val_ID = i, val_Address = i, val_PublicKey = i, val_VotingPower = 1, val_Stake = 1,
     val_Metadata = None\<rparr>"

definition ex_set :: setSnapshot where
  "ex_set = newSetSnapshot (map ex_validator [''v0'', ''v1'', ''v2'', ''v3''])"

definition ex_proof :: "Bitmap \<Rightarrow> hash \<Rightarrow> Height \<Rightarrow> Proof" where
  "ex_proof ids blockHash setHeight =
     \<lparr>prf_Header = \<lparr>hdr_ChainID = ''vexo'', hdr_Height = 7, hdr_TimeUnixNano = 0, hdr_PreviousBlockHash = 5,
        hdr_AppHash = 0, hdr_ValidatorSetHash = Set_Hash ex_set, hdr_ConsensusHash = 0, hdr_TxRoot = 0\<rparr>,
      prf_BlockHash = blockHash,
      prf_QuorumCert = \<lparr>qc_Height = 7, qc_Round = 0, qc_BlockHash = blockHash, qc_Signers = ids,
        qc_Signature = ''sig'', qc_VotingPower = 3\<rparr>,
      prf_CommitChain = [], prf_ValidatorSetHeight = setHeight, prf_ValidatorSetHash = Set_Hash ex_set\<rparr>"

lemma ex_set_wf: "snapshot_wf ex_set"
  by (simp add: ex_set_def newSetSnapshot_wf ex_validator_def list_power_def)

lemma ex_set_total: "Set_TotalVotingPower ex_set = 4"
  by (simp add: ex_set_def Set_TotalVotingPower_def newSetSnapshot_def ex_validator_def
      MustAddVotingPowerSaturating_def AddVotingPower_cases)

lemma ex_set_Get: "Set_Get ex_set i = (if i \<in> {''v0'', ''v1'', ''v2'', ''v3''} then Some (ex_validator i) else None)"
  by (simp add: ex_set_def Set_Get_def index_by_ID_def ex_validator_def)

lemma ex_proof_valid:
  assumes "ids = ''v0,v1,v2'' \<or> ids = ''v1,v2,v3''" and "b \<noteq> 0" and "k = 6 \<or> k = 7"
  shows "proof_valid (NewVerifier ex_set None) (ex_proof ids b k)"
  using assms
  by (auto simp: proof_valid_def ex_proof_def qc_valid_def root_hash_def NewVerifier_def newVerifier_def
      ParseSigners_def ex_set_Get ex_set_total ex_validator_def signers_power_def)

section \<open>Properties\<close>




text \<open>
  Evidence of a finality conflict that is accepted names a validator that signed two verified quorum
  certificates of the same height for different blocks.
\<close>

theorem conflict_evidence_sound:
  assumes "VerifyConflictEvidence unmarshal s f e = Inr w"
  shows "\<exists>p1 p2 xs ys. unmarshal (evd_Proof e) = Some \<lparr>cp_First = p1, cp_Second = p2\<rparr>
    \<and> VerifyFinalityProof (NewVerifier s f) p1 = None \<and> VerifyFinalityProof (NewVerifier s f) p2 = None
    \<and> hdr_Height (prf_Header p1) = evd_Height e \<and> hdr_Height (prf_Header p2) = evd_Height e
    \<and> proofBlockHash p1 \<noteq> proofBlockHash p2
    \<and> ParseSigners (qc_Signers (prf_QuorumCert p1)) = Inr xs
    \<and> ParseSigners (qc_Signers (prf_QuorumCert p2)) = Inr ys
    \<and> evd_Validator e \<in> set xs \<and> evd_Validator e \<in> set ys"
  using VerifyConflictEvidence_sound [OF assms] by (simp add: VerifyFinalityProof_iff)

definition ex_conflict :: ConflictProof where
  "ex_conflict = \<lparr>cp_First = ex_proof ''v0,v1,v2'' 1 7, cp_Second = ex_proof ''v1,v2,v3'' 2 7\<rparr>"

definition ex_evidence :: Evidence where
  "ex_evidence = \<lparr>evd_Type = EvidenceFinalityConflict, evd_Validator = ''v1'', evd_Height = 7, evd_Round = 0,
     evd_Proof = ''{}''\<rparr>"

lemma ex_detect:
  "\<exists>w. DetectAccountableSafetyViolation (Some ex_set) (ex_proof ''v0,v1,v2'' 1 7) (ex_proof ''v1,v2,v3'' 2 7)
     = Inr w \<and> asv_DoubleSigners w = [''v1'', ''v2'']"
  by (simp add: DetectAccountableSafetyViolation_def DetectAccountableSafetyViolationWithContext_def
      staticValidatorSetProvider_def ex_proof_def proofBlockHash_def ParseSigners_def overlappingVotingPower_def
      ex_set_Get ex_validator_def AddVotingPower_cases)

lemma ex_evidence_verifies: "\<exists>w. VerifyConflictEvidence (\<lambda>_. Some ex_conflict) ex_set None ex_evidence = Inr w"
  using ex_detect ex_proof_valid [of "''v0,v1,v2''" 1 7] ex_proof_valid [of "''v1,v2,v3''" 2 7]
  by (auto simp: VerifyConflictEvidence_def ex_evidence_def ex_conflict_def containsSigner_def
      VerifyFinalityProof_iff [symmetric]) (simp add: ex_proof_def)+

theorem conflict_evidence_sound_witness:
  "\<exists>p1 p2. VerifyFinalityProof (NewVerifier ex_set None) p1 = None
     \<and> VerifyFinalityProof (NewVerifier ex_set None) p2 = None \<and> proofBlockHash p1 \<noteq> proofBlockHash p2"
proof -
  obtain w where "VerifyConflictEvidence (\<lambda>_. Some ex_conflict) ex_set None ex_evidence = Inr w"
    using ex_evidence_verifies by blast
  from conflict_evidence_sound [OF this] show ?thesis
    by blast
qed

text \<open>
  Evidence that the node builds from two verified conflicting proofs is accepted by every verifier of the
  same set, when the proof document is read back as it was written.
\<close>

theorem conflict_evidence_accepted:
  assumes "unmarshal (marshal \<lparr>cp_First = p1, cp_Second = p2\<rparr>) = Some \<lparr>cp_First = p1, cp_Second = p2\<rparr>"
    and "VerifyFinalityProof (NewVerifier s f) p1 = None" and "VerifyFinalityProof (NewVerifier s f) p2 = None"
    and "NewConflictEvidence marshal (Some s) p1 p2 i = Inr e"
  shows "\<exists>w. VerifyConflictEvidence unmarshal s f e = Inr w"
  using NewConflictEvidence_accepted assms unfolding VerifyFinalityProof_iff by blast

theorem conflict_evidence_accepted_witness:
  "\<exists>e w. NewConflictEvidence (\<lambda>_. ''{}'') (Some ex_set) (cp_First ex_conflict) (cp_Second ex_conflict) ''v1'' = Inr e
     \<and> VerifyConflictEvidence (\<lambda>_. Some ex_conflict) ex_set None e = Inr w"
proof -
  obtain e where e: "NewConflictEvidence (\<lambda>_. ''{}'') (Some ex_set) (cp_First ex_conflict)
      (cp_Second ex_conflict) ''v1'' = Inr e"
    using ex_detect by (auto simp: NewConflictEvidence_def ex_conflict_def containsSigner_def)
  have "\<exists>w. VerifyConflictEvidence (\<lambda>_. Some ex_conflict) ex_set None e = Inr w"
    by (rule conflict_evidence_accepted [OF _ _ _ e])
       (simp_all add: ex_conflict_def VerifyFinalityProof_iff ex_proof_valid)
  with e show ?thesis
    by blast
qed

text \<open>
  C36: A finality proof that carries its block hash does not bind its header: the application hash, the
  transaction root, the previous block hash, the consensus hash and the time can be replaced without changing
  the verdict, because only the chain identifier, the height and the set hash of the header are checked.
\<close>

theorem finality_header_not_bound:
  assumes "prf_BlockHash p \<noteq> zero_hash" and "hdr_ChainID h = hdr_ChainID (prf_Header p)"
    and "hdr_Height h = hdr_Height (prf_Header p)"
    and "hdr_ValidatorSetHash h = hdr_ValidatorSetHash (prf_Header p)"
  shows "VerifyFinalityProof v (p\<lparr>prf_Header := h\<rparr>) = None \<longleftrightarrow> VerifyFinalityProof v p = None"
  using proof_valid_header_cong [OF assms(1), of h v] assms(2-4)
  by (simp add: VerifyFinalityProof_iff same_checked_fields_def)

theorem finality_header_not_bound_witness:
  "VerifyFinalityProof (NewVerifier ex_set None)
     ((ex_proof ''v0,v1,v2'' 1 7)\<lparr>prf_Header := (prf_Header (ex_proof ''v0,v1,v2'' 1 7))\<lparr>hdr_AppHash := 99\<rparr>\<rparr>) = None"
  by (subst finality_header_not_bound)
     (simp_all add: VerifyFinalityProof_iff ex_proof_valid, simp_all add: ex_proof_def)

text \<open>
  The set height of a finality proof is not signed.  Of two verified conflicting proofs, one can be given
  another set height at or below the block's; it still verifies, and the detector then answers that the
  heights differ instead of reporting the violation.
\<close>

theorem set_height_evades_detection:
  assumes "VerifyFinalityProof v p1 = None" and "VerifyFinalityProof v p2 = None"
    and "hdr_Height (prf_Header p1) = hdr_Height (prf_Header p2)"
    and "0 < k" and "k \<le> hdr_Height (prf_Header p1)" and "k \<noteq> prf_ValidatorSetHeight p2"
    and "proofBlockHash p1 \<noteq> proofBlockHash p2"
  shows "VerifyFinalityProof v (p1\<lparr>prf_ValidatorSetHeight := k\<rparr>) = None
    \<and> DetectAccountableSafetyViolation s (p1\<lparr>prf_ValidatorSetHeight := k\<rparr>) p2 = Inl ErrHeightMismatch"
proof -
  have "proofBlockHash (p1\<lparr>prf_ValidatorSetHeight := k\<rparr>) = proofBlockHash p1"
    by (simp add: proofBlockHash_def Proof_HeaderHash_def)
  with proof_valid_set_height [OF assms(4,5)] assms show ?thesis
    by (simp add: VerifyFinalityProof_iff DetectAccountableSafetyViolation_def
        DetectAccountableSafetyViolationWithContext_def)
qed

theorem set_height_evades_detection_witness:
  "VerifyFinalityProof (NewVerifier ex_set None)
     ((ex_proof ''v0,v1,v2'' 1 7)\<lparr>prf_ValidatorSetHeight := 6\<rparr>) = None
   \<and> DetectAccountableSafetyViolation (Some ex_set)
      ((ex_proof ''v0,v1,v2'' 1 7)\<lparr>prf_ValidatorSetHeight := 6\<rparr>) (ex_proof ''v1,v2,v3'' 2 7) = Inl ErrHeightMismatch"
  by (rule set_height_evades_detection)
     (simp_all add: VerifyFinalityProof_iff ex_proof_valid, simp_all add: ex_proof_def proofBlockHash_def)

text \<open>
  Signer lists survive encoding and decoding: a list of non-empty identifiers without commas is parsed back
  from its encoding, and a signer field that parses is the encoding of the list it parses to.
\<close>

theorem signers_roundtrip:
  "(list_all signer_ok ids \<longrightarrow> ParseSigners (EncodeSigners ids) = Inr ids)
   \<and> (ParseSigners bitmap = Inr ids \<longrightarrow> EncodeSigners ids = bitmap \<and> list_all signer_ok ids)"
  using ParseSigners_EncodeSigners EncodeSigners_ParseSigners by blast

theorem signers_roundtrip_witness:
  "ParseSigners (EncodeSigners [''v0'', ''v1'']) = Inr [''v0'', ''v1'']
   \<and> EncodeSigners [''a'', ''bc''] = ''a,bc''"
  using signers_roundtrip [of "[''v0'', ''v1'']"] signers_roundtrip [of "[''a'', ''bc'']" "''a,bc''"]
  by (simp add: signer_ok_def ParseSigners_def)

end
