(* ===== verification/BlockTree.thy ===== *)
theory BlockTree
  imports Finality
begin

text \<open>
  The block tree (\<^verbatim>\<open>consensus/block_tree.go\<close>), the three-chain commit rule (\<^verbatim>\<open>consensus/commit_rule.go\<close>)
  and the commit index (\<^verbatim>\<open>consensus/internal/safety/commit_index.go\<close>).  The walk to the ancestors may
  run forever on a cyclic tree; it is modelled with as much fuel as there are blocks, \<open>None\<close> standing
  for a walk that does not return, and shown to return the ancestor relation on acyclic trees.
\<close>

datatype consensus_error =
    ErrUnknownValidator
  | ErrConflictingVote
  | ErrNoQuorum
  | ErrInvalidProposal string
  | ErrStaleProposal
  | ErrInvalidVote string
  | ErrUnknownVoteBlock
  | ErrStaleVote
  | ErrUnsafeProposal
  | ErrUnexpectedProposer
  | ErrUnsafeVote
  | ErrAggregateRequired
  | ErrMissingSignature
  | ErrConflictingCommit
  | ErrCommitRuleNotSatisfied
  | ErrBlockNotFound
  | ErrInvalidBlockCert
  | ErrStaleTimeoutCert
  | ErrConflictingTimeoutVote
  | ErrVotesDoNotConflict
  | ErrTimeoutVotesDoNotConflict
  | ErrVotePairMismatch
  | ErrNoValidators
  | ErrChainIDRequired
  | ErrValidatorSetRequired
  | ErrChainIDMismatch string
  | ConsensusTypesError types_error
  | ConsensusCtxError ctx_error
  | ConsensusCryptoError crypto_error
  | ConsensusValidatorError validator_error
  | MarshalError string
  | DoesNotReturn

section \<open>Block tree (block_tree.go)\<close>

record BlockNode =
  node_Block :: Block
  node_Hash :: hash
  node_ParentHash :: hash
  node_JustifyQC :: QuorumCert
  node_QuorumCert :: QuorumCert

record BlockTree =
  tree_blocks :: "(hash, BlockNode) gomap"
  tree_highQC :: QuorumCert

definition NewBlockTree :: BlockTree where
  "NewBlockTree = \<lparr>tree_blocks = [], tree_highQC = zeroQC\<rparr>"

definition isBetterQC :: "QuorumCert \<Rightarrow> QuorumCert \<Rightarrow> bool" where
  "isBetterQC candidate current =
     (if qc_Height candidate \<noteq> qc_Height current then qc_Height current < qc_Height candidate
      else qc_Round current < qc_Round candidate)"

definition ObserveQuorumCert :: "BlockTree \<Rightarrow> QuorumCert \<Rightarrow> BlockTree" where
  "ObserveQuorumCert tree qc =
     (if qc_Height qc = 0 \<or> qc_BlockHash qc = zero_hash then tree
      else if isBetterQC qc (tree_highQC tree) then tree\<lparr>tree_highQC := qc\<rparr>
      else tree)"

definition Tree_Get :: "BlockTree \<Rightarrow> hash \<Rightarrow> BlockNode option" where
  "Tree_Get tree blockHash = map_of (tree_blocks tree) blockHash"

definition Tree_Insert :: "BlockTree \<Rightarrow> Block \<Rightarrow> hash \<Rightarrow> QuorumCert \<Rightarrow> BlockTree \<times> BlockNode" where
  "Tree_Insert tree block blockHash justifyQC =
     (let node = \<lparr>node_Block = block, node_Hash = blockHash,
                  node_ParentHash = hdr_PreviousBlockHash (blk_Header block),
                  node_JustifyQC = justifyQC, node_QuorumCert = zeroQC\<rparr>;
          node = (case Tree_Get tree blockHash of
                    None \<Rightarrow> node
                  | Some previous \<Rightarrow> node\<lparr>node_QuorumCert := node_QuorumCert previous\<rparr>);
          tree = tree\<lparr>tree_blocks := AList.update blockHash node (tree_blocks tree)\<rparr>
      in (ObserveQuorumCert tree justifyQC, node))"

definition SetQuorumCert :: "BlockTree \<Rightarrow> QuorumCert \<Rightarrow> BlockTree \<times> consensus_error option" where
  "SetQuorumCert tree qc =
     (if qc_Height qc = 0 \<or> qc_BlockHash qc = zero_hash then (tree, Some ErrInvalidBlockCert)
      else
        case Tree_Get tree (qc_BlockHash qc) of
          None \<Rightarrow> (tree, Some ErrBlockNotFound)
        | Some node \<Rightarrow>
            if hdr_Height (blk_Header (node_Block node)) \<noteq> qc_Height qc
            then (tree, Some ErrInvalidBlockCert)
            else
              let node = node\<lparr>node_QuorumCert := qc\<rparr>;
                  tree = tree\<lparr>tree_blocks := AList.update (qc_BlockHash qc) node (tree_blocks tree)\<rparr>
              in (ObserveQuorumCert tree qc, None))"

definition Tree_HighQC :: "BlockTree \<Rightarrow> QuorumCert" where
  "Tree_HighQC tree = tree_highQC tree"

text \<open>The loop of \<^verbatim>\<open>Extends\<close>, with fuel.\<close>

fun extendsLoop :: "nat \<Rightarrow> BlockTree \<Rightarrow> hash \<Rightarrow> hash \<Rightarrow> bool option" where
  "extendsLoop 0 tree current ancestor = None"
| "extendsLoop (Suc n) tree current ancestor =
     (if current = zero_hash then Some False
      else if current = ancestor then Some True
      else
        case Tree_Get tree current of
          None \<Rightarrow> Some False
        | Some node \<Rightarrow> extendsLoop n tree (node_ParentHash node) ancestor)"

definition Extends :: "BlockTree \<Rightarrow> hash \<Rightarrow> hash \<Rightarrow> bool option" where
  "Extends tree descendant ancestor =
     (if descendant = zero_hash \<or> ancestor = zero_hash then Some False
      else extendsLoop (length (tree_blocks tree) + 2) tree descendant ancestor)"

section \<open>Commit rule (commit_rule.go)\<close>

record CommitCandidate =
  cc_BlockHeight :: Height
  cc_BlockHash :: hash
  cc_ParentHeight :: Height
  cc_ParentHash :: hash
  cc_GrandparentHeight :: Height
  cc_GrandparentHash :: hash
  cc_BlockQC :: QuorumCert
  cc_ParentQC :: QuorumCert

record CommitDecision =
  cd_CommittedHeight :: Height
  cd_CommittedBlockHash :: hash
  cd_CommitQC :: QuorumCert

definition CommitCandidate_of :: "BlockTree \<Rightarrow> hash \<Rightarrow> CommitCandidate option" where
  "CommitCandidate_of tree blockHash =
     (case Tree_Get tree blockHash of
        None \<Rightarrow> None
      | Some node \<Rightarrow>
          if qc_Height (node_JustifyQC node) = 0 then None
          else
            case Tree_Get tree (qc_BlockHash (node_JustifyQC node)) of
              None \<Rightarrow> None
            | Some parent \<Rightarrow>
                if qc_Height (node_JustifyQC parent) = 0 then None
                else
                  Some \<lparr>cc_BlockHeight = hdr_Height (blk_Header (node_Block node)),
                        cc_BlockHash = node_Hash node,
                        cc_ParentHeight = hdr_Height (blk_Header (node_Block parent)),
                        cc_ParentHash = node_Hash parent,
                        cc_GrandparentHeight = qc_Height (node_JustifyQC parent),
                        cc_GrandparentHash = qc_BlockHash (node_JustifyQC parent),
                        cc_BlockQC = node_JustifyQC node,
                        cc_ParentQC = node_JustifyQC parent\<rparr>)"

definition Decide :: "CommitCandidate \<Rightarrow> consensus_error + CommitDecision" where
  "Decide c =
     (if cc_BlockHash c = zero_hash \<or> cc_ParentHash c = zero_hash \<or> cc_GrandparentHash c = zero_hash
      then Inl ErrCommitRuleNotSatisfied
      else if qc_BlockHash (cc_BlockQC c) \<noteq> cc_ParentHash c then Inl ErrCommitRuleNotSatisfied
      else if qc_BlockHash (cc_ParentQC c) \<noteq> cc_GrandparentHash c then Inl ErrCommitRuleNotSatisfied
      else if cc_BlockHeight c = 0 \<or> cc_ParentHeight c = 0 \<or> cc_GrandparentHeight c = 0
              \<or> qc_Height (cc_BlockQC c) = 0 \<or> qc_Height (cc_ParentQC c) = 0
      then Inl ErrCommitRuleNotSatisfied
      else if cc_BlockHeight c \<noteq> cc_ParentHeight c + 1
              \<or> cc_ParentHeight c \<noteq> cc_GrandparentHeight c + 1
              \<or> qc_Height (cc_BlockQC c) \<noteq> cc_ParentHeight c
              \<or> qc_Height (cc_ParentQC c) \<noteq> cc_GrandparentHeight c
      then Inl ErrCommitRuleNotSatisfied
      else Inr \<lparr>cd_CommittedHeight = cc_GrandparentHeight c,
                cd_CommittedBlockHash = cc_GrandparentHash c,
                cd_CommitQC = cc_ParentQC c\<rparr>)"

section \<open>Commit index (internal/safety/commit_index.go)\<close>

record CommitIndex =
  ci_byHeight :: "(Height, hash) gomap"

definition NewCommitIndex :: CommitIndex where
  "NewCommitIndex = \<lparr>ci_byHeight = []\<rparr>"

definition Record :: "CommitIndex \<Rightarrow> Height \<Rightarrow> hash \<Rightarrow> CommitIndex \<times> consensus_error option" where
  "Record index height blockHash =
     (case map_of (ci_byHeight index) height of
        Some existing \<Rightarrow>
          if existing \<noteq> blockHash then (index, Some ErrConflictingCommit)
          else (index\<lparr>ci_byHeight := AList.update height blockHash (ci_byHeight index)\<rparr>, None)
      | None \<Rightarrow>
          (index\<lparr>ci_byHeight := AList.update height blockHash (ci_byHeight index)\<rparr>, None))"

section \<open>Certificates only improve\<close>

text \<open>The lexicographic order on (height, round).\<close>

definition qc_le :: "QuorumCert \<Rightarrow> QuorumCert \<Rightarrow> bool" where
  "qc_le q q' \<longleftrightarrow> qc_Height q < qc_Height q' \<or> (qc_Height q = qc_Height q' \<and> qc_Round q \<le> qc_Round q')"

lemma qc_le_refl [simp]: "qc_le q q"
  by (simp add: qc_le_def)

lemma qc_le_trans: "qc_le q r \<Longrightarrow> qc_le r s \<Longrightarrow> qc_le q s"
  by (auto simp: qc_le_def)

lemma isBetterQC_iff: "isBetterQC q' q \<longleftrightarrow> \<not> qc_le q' q"
  by (auto simp: isBetterQC_def qc_le_def not_le not_less)

lemma isBetterQC_le: "isBetterQC q' q \<Longrightarrow> qc_le q q'"
  by (auto simp: isBetterQC_def qc_le_def split: if_splits)

lemma Observe_mono: "qc_le (tree_highQC t) (tree_highQC (ObserveQuorumCert t q))"
  by (simp add: ObserveQuorumCert_def isBetterQC_le)

lemma Observe_blocks [simp]: "tree_blocks (ObserveQuorumCert t q) = tree_blocks t"
  by (simp add: ObserveQuorumCert_def)

lemma Insert_mono: "qc_le (tree_highQC t) (tree_highQC (fst (Tree_Insert t b h q)))"
  using Observe_mono [of "t\<lparr>tree_blocks := m\<rparr>" for m] by (simp add: Tree_Insert_def Let_def)

lemma SetQuorumCert_mono: "qc_le (tree_highQC t) (tree_highQC (fst (SetQuorumCert t q)))"
  using Observe_mono [of "t\<lparr>tree_blocks := m\<rparr>" for m]
  by (simp add: SetQuorumCert_def Let_def split: option.splits)

section \<open>Tree invariant\<close>

text \<open>Every node is stored under its own hash, and its hash is the hash of its block.\<close>

definition tree_wf :: "(Block \<Rightarrow> hash) \<Rightarrow> BlockTree \<Rightarrow> bool" where
  "tree_wf hb t \<longleftrightarrow> distinct (map fst (tree_blocks t))
     \<and> (\<forall>(k, n) \<in> set (tree_blocks t). node_Hash n = k \<and> hb (node_Block n) = k
          \<and> node_ParentHash n = hdr_PreviousBlockHash (blk_Header (node_Block n)))"

lemma tree_wf_New: "tree_wf hb NewBlockTree"
  by (simp add: tree_wf_def NewBlockTree_def)

lemma tree_wf_Get:
  "tree_wf hb t \<Longrightarrow> Tree_Get t k = Some n \<Longrightarrow> node_Hash n = k \<and> hb (node_Block n) = k
     \<and> node_ParentHash n = hdr_PreviousBlockHash (blk_Header (node_Block n))"
  by (auto simp: tree_wf_def Tree_Get_def dest: map_of_SomeD)

lemma tree_wf_Observe: "tree_wf hb (ObserveQuorumCert t q) = tree_wf hb t"
  by (simp add: tree_wf_def)

lemma tree_wf_Insert:
  "tree_wf hb t \<Longrightarrow> hb b = h \<Longrightarrow> tree_wf hb (fst (Tree_Insert t b h q))"
  by (auto simp: Tree_Insert_def Let_def tree_wf_Observe)
     (auto simp: tree_wf_def distinct_update dest!: update_set_cases split: option.splits)

lemma tree_wf_SetQuorumCert: "tree_wf hb t \<Longrightarrow> tree_wf hb (fst (SetQuorumCert t q))"
  by (auto simp: SetQuorumCert_def Let_def tree_wf_Observe split: option.splits)
     (auto simp: tree_wf_def distinct_update Tree_Get_def dest!: update_set_cases map_of_SomeD)

section \<open>The ancestor walk\<close>

inductive extends_rel :: "BlockTree \<Rightarrow> hash \<Rightarrow> hash \<Rightarrow> bool" for t where
  extends_refl: "a \<noteq> zero_hash \<Longrightarrow> extends_rel t a a"
| extends_step: "x \<noteq> zero_hash \<Longrightarrow> Tree_Get t x = Some n \<Longrightarrow> extends_rel t (node_ParentHash n) a
    \<Longrightarrow> extends_rel t x a"

inductive_cases extends_relE: "extends_rel t x a"

lemma extendsLoop_sound: "extendsLoop k t x a = Some True \<Longrightarrow> extends_rel t x a"
  by (induction k t x a rule: extendsLoop.induct)
     (auto intro: extends_rel.intros split: if_splits option.splits)

lemma extendsLoop_complete: "extends_rel t x a \<Longrightarrow> extendsLoop k t x a \<noteq> Some False"
proof (induction arbitrary: k rule: extends_rel.induct)
  case (extends_refl a)
  then show ?case
    by (cases k) auto
next
  case (extends_step x n a)
  then show ?case
    by (cases k) auto
qed

text \<open>A rank that decreases from every block to its parent excludes cycles.\<close>

definition tree_rank :: "(hash \<Rightarrow> nat) \<Rightarrow> BlockTree \<Rightarrow> bool" where
  "tree_rank r t \<longleftrightarrow> (\<forall>x n. Tree_Get t x = Some n \<longrightarrow> node_ParentHash n \<noteq> zero_hash \<longrightarrow> r (node_ParentHash n) < r x)"

lemma extendsLoop_returns:
  assumes "tree_rank r t"
  shows "card {y \<in> fst ` set (tree_blocks t). r y \<le> r x} + 2 \<le> k \<Longrightarrow> extendsLoop k t x a \<noteq> None"
proof (induction k arbitrary: x)
  case (Suc k)
  let ?below = "\<lambda>x. {y \<in> fst ` set (tree_blocks t). r y \<le> r x}"
  show ?case
  proof (cases "x = zero_hash \<or> x = a \<or> Tree_Get t x = None")
    case False
    then obtain n where n: "Tree_Get t x = Some n"
      by auto
    then have x: "x \<in> ?below x"
      by (auto simp: Tree_Get_def dest: map_of_SomeD intro: rev_image_eqI)
    show ?thesis
    proof (cases "node_ParentHash n = zero_hash")
      case True
      from x have "0 < card (?below x)"
        by (intro card_gt_0_iff [THEN iffD2]) auto
      with Suc.prems have "0 < k"
        by simp
      with True n False show ?thesis
        by (cases k) auto
    next
      case p: False
      with assms n have less: "r (node_ParentHash n) < r x"
        by (auto simp: tree_rank_def)
      then have "x \<notin> ?below (node_ParentHash n)"
        by (simp add: not_le)
      moreover have "?below (node_ParentHash n) \<subseteq> ?below x"
        using less by auto
      ultimately have "?below (node_ParentHash n) \<subset> ?below x"
        using x by blast
      then have "card (?below (node_ParentHash n)) < card (?below x)"
        by (intro psubset_card_mono) auto
      with Suc n False show ?thesis
        by auto
    qed
  qed auto
qed simp

lemma Extends_returns:
  assumes "tree_rank r t"
  shows "Extends t d a \<noteq> None"
proof -
  have "card {y \<in> fst ` set (tree_blocks t). r y \<le> r d} \<le> card (fst ` set (tree_blocks t))"
    by (intro card_mono) auto
  also have "\<dots> \<le> length (tree_blocks t)"
    by (metis card_length length_map set_map)
  finally have "extendsLoop (length (tree_blocks t) + 2) t d a \<noteq> None"
    by (intro extendsLoop_returns [OF assms]) simp
  then show ?thesis
    unfolding Extends_def by (metis option.distinct(1))
qed

lemma Extends_exact:
  assumes "tree_rank r t" and "a \<noteq> zero_hash" and "d \<noteq> zero_hash"
  shows "Extends t d a = Some (extends_rel t d a)"
proof -
  have e: "Extends t d a = extendsLoop (length (tree_blocks t) + 2) t d a"
    using assms(2,3) by (simp only: Extends_def if_False simp_thms)
  obtain b where b: "Extends t d a = Some b"
    using Extends_returns [OF assms(1), of d a] by auto
  show ?thesis
  proof (cases b)
    case True
    with b e extendsLoop_sound show ?thesis
      by metis
  next
    case False
    with b e extendsLoop_complete show ?thesis
      by metis
  qed
qed

section \<open>The commit rule\<close>

text \<open>A decision needs three consecutive heights linked by certificates.\<close>

lemma Decide_iff:
  "Decide c = Inr d \<longleftrightarrow>
     cc_BlockHash c \<noteq> zero_hash \<and> cc_ParentHash c \<noteq> zero_hash \<and> cc_GrandparentHash c \<noteq> zero_hash
     \<and> qc_BlockHash (cc_BlockQC c) = cc_ParentHash c \<and> qc_Height (cc_BlockQC c) = cc_ParentHeight c
     \<and> qc_BlockHash (cc_ParentQC c) = cc_GrandparentHash c
     \<and> qc_Height (cc_ParentQC c) = cc_GrandparentHeight c
     \<and> cc_BlockHeight c = cc_ParentHeight c + 1 \<and> cc_ParentHeight c = cc_GrandparentHeight c + 1
     \<and> cc_GrandparentHeight c \<noteq> 0 \<and> cc_ParentHeight c \<noteq> 0 \<and> cc_BlockHeight c \<noteq> 0
     \<and> d = \<lparr>cd_CommittedHeight = cc_GrandparentHeight c, cd_CommittedBlockHash = cc_GrandparentHash c,
            cd_CommitQC = cc_ParentQC c\<rparr>"
  by (auto simp: Decide_def)

lemma Decide_error: "Decide c = Inl e \<Longrightarrow> e = ErrCommitRuleNotSatisfied"
  by (auto simp: Decide_def split: if_splits)

section \<open>The commit index\<close>

lemma Record_ok:
  "Record i h b = (i', None) \<Longrightarrow>
     map_of (ci_byHeight i') = (map_of (ci_byHeight i))(h \<mapsto> b)
     \<and> (map_of (ci_byHeight i) h = None \<or> map_of (ci_byHeight i) h = Some b)"
  by (auto simp: Record_def update_conv' split: option.splits if_splits)

lemma Record_error:
  "Record i h b = (i', Some e) \<Longrightarrow>
     i' = i \<and> e = ErrConflictingCommit \<and> (\<exists>b'. map_of (ci_byHeight i) h = Some b' \<and> b' \<noteq> b)"
  by (auto simp: Record_def split: option.splits if_splits)

section \<open>Properties\<close>


definition ex_header :: "hash \<Rightarrow> Header" where
  "ex_header parent = \<lparr>hdr_ChainID = ''vexo'', hdr_Height = 1, hdr_TimeUnixNano = 0,
     hdr_PreviousBlockHash = parent, hdr_AppHash = 0, hdr_ValidatorSetHash = 0, hdr_ConsensusHash = 0,
     hdr_TxRoot = 0\<rparr>"

definition ex_tree :: BlockTree where
  "ex_tree =
     fst (Tree_Insert (fst (Tree_Insert NewBlockTree \<lparr>blk_Header = ex_header 0, blk_Txs = []\<rparr> 1 zeroQC))
       \<lparr>blk_Header = ex_header 1, blk_Txs = []\<rparr> 2 zeroQC)"


end
