(* ===== verification/Timeout.thy ===== *)
theory Timeout
  imports BlockTree
begin

text \<open>
  The pacemaker (\<^verbatim>\<open>consensus/pacemaker.go\<close>) and the timeout collector (\<^verbatim>\<open>consensus/timeout.go\<close>), and the
  vote tally that timeout and quorum certificates share.  Nested Go maps that are only indexed are
  functions; the innermost map, which is ranged over, is an association list.
\<close>

section \<open>Pacemaker (pacemaker.go)\<close>

record Pacemaker =
  pm_height :: Height
  pm_round :: Round

definition NewPacemaker :: "Height \<Rightarrow> Round \<Rightarrow> Pacemaker" where
  "NewPacemaker height rnd = \<lparr>pm_height = height, pm_round = rnd\<rparr>"

definition AdvanceRound :: "Pacemaker \<Rightarrow> TimeoutCert \<Rightarrow> Pacemaker \<times> consensus_error option" where
  "AdvanceRound pm tc =
     (if tc_Height tc < pm_height pm then (pm, Some ErrStaleTimeoutCert)
      else if pm_height pm < tc_Height tc
      then (pm\<lparr>pm_height := tc_Height tc, pm_round := tc_Round tc + 1\<rparr>, None)
      else if tc_Round tc < pm_round pm then (pm, Some ErrStaleTimeoutCert)
      else (pm\<lparr>pm_round := tc_Round tc + 1\<rparr>, None))"

definition AdvanceHeight :: "Pacemaker \<Rightarrow> Height \<Rightarrow> Pacemaker" where
  "AdvanceHeight pm height =
     (if pm_height pm < height then pm\<lparr>pm_height := height, pm_round := 0\<rparr> else pm)"

section \<open>Tallying votes (timeout.go, state_machine.go)\<close>

type_synonym aggregator = "Signature list \<Rightarrow> crypto_error + AggregateSignature"

definition hasQuorum :: "VotingPower \<Rightarrow> VotingPower \<Rightarrow> bool" where
  "hasQuorum pow tot = HasTwoThirdsQuorum pow tot"

definition allSignaturesPresent :: "Signature list \<Rightarrow> bool" where
  "allSignaturesPresent signatures \<longleftrightarrow> signatures \<noteq> [] \<and> list_all (\<lambda>s. s \<noteq> []) signatures"

text \<open>
  The loop over the votes of a round: unknown validators are skipped, power is added with the overflow
  check, signatures are collected; \<open>upd\<close> is what the timeout loop does with the high certificate.
\<close>

fun tallyVotes ::
    "setSnapshot \<Rightarrow> ('v \<Rightarrow> Signature) \<Rightarrow> ('v \<Rightarrow> 'a \<Rightarrow> 'a) \<Rightarrow> (ValidatorID, 'v) gomap
     \<Rightarrow> VotingPower \<Rightarrow> 'a \<Rightarrow> (ValidatorID \<times> Signature) list
     \<Rightarrow> consensus_error + VotingPower \<times> 'a \<times> (ValidatorID \<times> Signature) list" where
  "tallyVotes s sig upd [] votingPower a votes = Inr (votingPower, a, votes)"
| "tallyVotes s sig upd ((i, v) # rest) votingPower a votes =
     (case Set_Get s i of
        None \<Rightarrow> tallyVotes s sig upd rest votingPower a votes
      | Some validatorInfo \<Rightarrow>
          case AddVotingPower votingPower (val_VotingPower validatorInfo) of
            Inl e \<Rightarrow> Inl (ConsensusTypesError e)
          | Inr p \<Rightarrow> tallyVotes s sig upd rest p (upd v a) (votes @ [(i, sig v)]))"

text \<open>What both builders do after the loop: quorum, sorting, aggregation.\<close>

definition certify ::
    "setSnapshot \<Rightarrow> aggregator option \<Rightarrow> VotingPower \<Rightarrow> (ValidatorID \<times> Signature) list
     \<Rightarrow> consensus_error + Bitmap \<times> AggregateSignature" where
  "certify s agg votingPower votes =
     (if \<not> hasQuorum votingPower (Set_TotalVotingPower s) then Inl ErrNoQuorum
      else
        let votes = sort_key fst votes;
            signers = map fst votes;
            signatures = map snd votes
        in case agg of
             None \<Rightarrow> Inl ErrAggregateRequired
           | Some aggregate \<Rightarrow>
               if \<not> allSignaturesPresent signatures then Inl ErrMissingSignature
               else
                 case aggregate signatures of
                   Inl e \<Rightarrow> Inl (ConsensusCryptoError e)
                 | Inr aggregateSignature \<Rightarrow> Inr (joinWith CHR '','' signers, aggregateSignature))"

section \<open>Timeout collector (timeout.go)\<close>

record TimeoutCollector =
  tcol_validatorSet :: setSnapshot
  tcol_aggregator :: "aggregator option"
  tcol_votes :: "Height \<Rightarrow> Round \<Rightarrow> (ValidatorID, TimeoutVote) gomap"

definition NewTimeoutCollectorWithAggregator :: "setSnapshot \<Rightarrow> aggregator option \<Rightarrow> TimeoutCollector" where
  "NewTimeoutCollectorWithAggregator validatorSet agg =
     \<lparr>tcol_validatorSet = validatorSet, tcol_aggregator = agg, tcol_votes = (\<lambda>_ _. [])\<rparr>"

definition NewTimeoutCollector :: "setSnapshot \<Rightarrow> TimeoutCollector" where
  "NewTimeoutCollector validatorSet = NewTimeoutCollectorWithAggregator validatorSet None"

definition sameQC :: "QuorumCert \<Rightarrow> QuorumCert \<Rightarrow> bool" where
  "sameQC q q' \<longleftrightarrow> qc_Height q = qc_Height q' \<and> qc_Round q = qc_Round q' \<and> qc_BlockHash q = qc_BlockHash q'"

definition AddVote :: "TimeoutCollector \<Rightarrow> TimeoutVote \<Rightarrow> TimeoutCollector \<times> consensus_error option" where
  "AddVote c vote =
     (case Set_Get (tcol_validatorSet c) (tv_ValidatorID vote) of
        None \<Rightarrow> (c, Some ErrUnknownValidator)
      | Some _ \<Rightarrow>
          let roundVotes = tcol_votes c (tv_Height vote) (tv_Round vote) in
          case map_of roundVotes (tv_ValidatorID vote) of
            Some previous \<Rightarrow>
              if \<not> sameQC (tv_HighQC previous) (tv_HighQC vote) then (c, Some ErrConflictingTimeoutVote)
              else (c, None)
          | None \<Rightarrow>
              (c\<lparr>tcol_votes := (tcol_votes c)(tv_Height vote :=
                   (tcol_votes c (tv_Height vote))(tv_Round vote :=
                      AList.update (tv_ValidatorID vote) vote roundVotes))\<rparr>, None))"

definition ConflictingVote :: "TimeoutCollector \<Rightarrow> TimeoutVote \<Rightarrow> TimeoutVote option" where
  "ConflictingVote c vote =
     (case map_of (tcol_votes c (tv_Height vote) (tv_Round vote)) (tv_ValidatorID vote) of
        None \<Rightarrow> None
      | Some previous \<Rightarrow>
          if sameQC (tv_HighQC previous) (tv_HighQC vote) then None else Some previous)"

definition BuildTimeoutCert :: "TimeoutCollector \<Rightarrow> Height \<Rightarrow> Round \<Rightarrow> consensus_error + TimeoutCert" where
  "BuildTimeoutCert c height rnd =
     (let roundVotes = tcol_votes c height rnd in
      if roundVotes = [] then Inl ErrNoQuorum
      else
        case tallyVotes (tcol_validatorSet c) tv_Signature
               (\<lambda>v q. if isBetterQC (tv_HighQC v) q then tv_HighQC v else q) roundVotes 0 zeroQC [] of
          Inl e \<Rightarrow> Inl e
        | Inr (votingPower, highQC, votes) \<Rightarrow>
            case certify (tcol_validatorSet c) (tcol_aggregator c) votingPower votes of
              Inl e \<Rightarrow> Inl e
            | Inr (signers, signature) \<Rightarrow>
                Inr \<lparr>tc_Height = height, tc_Round = rnd, tc_HighQC = highQC, tc_Signers = signers,
                     tc_Signature = signature\<rparr>)"

section \<open>The pacemaker never goes back\<close>

definition pm_le :: "Pacemaker \<Rightarrow> Pacemaker \<Rightarrow> bool" where
  "pm_le p q \<longleftrightarrow> pm_height p < pm_height q \<or> (pm_height p = pm_height q \<and> pm_round p \<le> pm_round q)"

lemma AdvanceRound_le:
  assumes "AdvanceRound p tc = (q, e)" and "tc_Round tc \<noteq> max_u64"
  shows "pm_le p q"
proof -
  from assms(2) have "tc_Round tc \<le> tc_Round tc + 1"
    by (simp add: word_le_nat_alt unat_succ_u64)
  with assms(1) show ?thesis
    by (auto simp: AdvanceRound_def pm_le_def split: if_splits)
qed

lemma AdvanceHeight_le: "pm_le p (AdvanceHeight p h)"
  by (simp add: AdvanceHeight_def pm_le_def)

section \<open>What a tally is\<close>

lemma tallyVotes_Inr:
  "tallyVotes s sig upd votes p a acc = Inr (p', a', acc') \<Longrightarrow>
     unat p' = unat p + signers_power (Set_Get s) (map fst votes)
     \<and> acc' = acc @ map (\<lambda>(i, v). (i, sig v)) (filter (\<lambda>(i, v). Set_Get s i \<noteq> None) votes)
     \<and> a' = fold upd (map snd (filter (\<lambda>(i, v). Set_Get s i \<noteq> None) votes)) a"
proof (induction s sig upd votes p a acc arbitrary: p' a' acc' rule: tallyVotes.induct)
  case (2 s sig upd i v rest p a acc)
  show ?case
  proof (cases "Set_Get s i")
    case None
    with "2.IH"(1) [OF None] "2.prems" show ?thesis
      by simp
  next
    case (Some w)
    with "2.prems" have fits: "unat p + unat (val_VotingPower w) < 2 ^ 64"
      by (auto simp: AddVotingPower_cases split: if_splits)
    then have add: "AddVotingPower p (val_VotingPower w) = Inr (p + val_VotingPower w)"
      by (simp add: AddVotingPower_cases)
    from "2.IH"(2) [OF Some add] "2.prems" Some add fits show ?thesis
      by (simp add: unat_add_u64)
  qed
qed auto

lemma tallyVotes_total:
  assumes "snapshot_wf s"
  shows "distinct (ids @ map fst votes) \<Longrightarrow> unat p = signers_power (Set_Get s) ids \<Longrightarrow>
     \<exists>p' a' acc'. tallyVotes s sig upd votes p a acc = Inr (p', a', acc')"
proof (induction votes arbitrary: ids p a acc)
  case (Cons x votes)
  obtain i v where x: "x = (i, v)"
    by (cases x)
  show ?case
  proof (cases "Set_Get s i")
    case None
    with Cons.IH [of ids p a acc] Cons.prems x show ?thesis
      by auto
  next
    case (Some w)
    have "signers_power (Set_Get s) (i # ids) \<le> unat (Set_TotalVotingPower s)"
      using Cons.prems x by (intro snap.power_le_total [OF assms]) auto
    with Some Cons.prems(2) have fits: "unat p + unat (val_VotingPower w) < 2 ^ 64"
      using unat_u64_less [of "Set_TotalVotingPower s"] by simp
    have "distinct ((i # ids) @ map fst votes)"
      using Cons.prems(1) x by auto
    moreover have "unat (p + val_VotingPower w) = signers_power (Set_Get s) (i # ids)"
      using fits Some Cons.prems(2) by (simp add: unat_add_u64)
    ultimately show ?thesis
      using Cons.IH [of "i # ids" "p + val_VotingPower w"] Some fits x
      by (auto simp: AddVotingPower_cases)
  qed
qed simp

lemma certify_Inr:
  assumes "certify s agg p votes = Inr (signers, signature)"
  shows "hasQuorum p (Set_TotalVotingPower s) \<and> signers = EncodeSigners (sort (map fst votes))
    \<and> allSignaturesPresent (map snd (sort_key fst votes))
    \<and> (\<exists>f. agg = Some f \<and> f (map snd (sort_key fst votes)) = Inr signature)"
proof -
  have "map fst (sort_key fst votes) = sort (map fst votes)"
    by (rule properties_for_sort [symmetric]) simp_all
  with assms show ?thesis
    by (auto simp: certify_def Let_def EncodeSigners_def split: if_splits option.splits sum.splits)
qed

lemma signers_power_known:
  "signers_power get (filter (\<lambda>i. get i \<noteq> None) ids) = signers_power get ids"
  by (induction ids) auto

lemma map_fst_filter: "map fst (filter (\<lambda>(i, v). P i) xs) = filter P (map fst xs)"
  by (induction xs) auto

text \<open>
  A certificate built from a tally names distinct known validators whose joint power is the tallied
  power and reaches the quorum.
\<close>

lemma tally_certified:
  assumes "distinct (map fst votes)"
    and "tallyVotes s sig upd votes 0 a [] = Inr (p, a', acc)"
    and "certify s agg p acc = Inr (signers, signature)"
  shows "\<exists>ids. signers = EncodeSigners ids \<and> sorted ids \<and> distinct ids
    \<and> set ids = {i \<in> fst ` set votes. Set_Get s i \<noteq> None}
    \<and> unat p = signers_power (Set_Get s) ids
    \<and> Set_TotalVotingPower s \<noteq> 0
    \<and> 2 * unat (Set_TotalVotingPower s) \<le> 3 * signers_power (Set_Get s) ids"
proof -
  note t = tallyVotes_Inr [OF assms(2)]
  note c = certify_Inr [OF assms(3)]
  let ?ids = "filter (\<lambda>i. Set_Get s i \<noteq> None) (map fst votes)"
  have acc: "map fst acc = ?ids"
    using t by (simp only: map_map comp_def case_prod_beta fst_conv append_Nil)
      (rule map_fst_filter)
  have "signers_power (Set_Get s) (sort ?ids) = signers_power (Set_Get s) ?ids"
    by (rule signers_power_mset) simp
  then have pow: "signers_power (Set_Get s) (sort ?ids) = unat p"
    using t by (simp only: signers_power_known unat_0 add_0)
  show ?thesis
    using assms(1) c acc pow
    by (intro exI [of _ "sort ?ids"]) (auto simp: hasQuorum_def HasTwoThirdsQuorum_iff)
qed

section \<open>Timeout collector\<close>

definition round_wf :: "setSnapshot \<Rightarrow> Height \<Rightarrow> Round \<Rightarrow> (ValidatorID, TimeoutVote) gomap \<Rightarrow> bool" where
  "round_wf s h r m \<longleftrightarrow> distinct (map fst m)
     \<and> (\<forall>i v. (i, v) \<in> set m \<longrightarrow> tv_ValidatorID v = i \<and> tv_Height v = h \<and> tv_Round v = r
          \<and> Set_Get s i \<noteq> None)"

definition collector_wf :: "TimeoutCollector \<Rightarrow> bool" where
  "collector_wf c \<longleftrightarrow> (\<forall>h r. round_wf (tcol_validatorSet c) h r (tcol_votes c h r))"

lemma collector_wf_New: "collector_wf (NewTimeoutCollectorWithAggregator s agg)"
  by (simp add: collector_wf_def round_wf_def NewTimeoutCollectorWithAggregator_def)

lemma round_wf_update:
  assumes "round_wf s (tv_Height v) (tv_Round v) m" and "Set_Get s (tv_ValidatorID v) \<noteq> None"
  shows "round_wf s (tv_Height v) (tv_Round v) (AList.update (tv_ValidatorID v) v m)"
  using assms by (auto simp: round_wf_def distinct_update dest!: update_set_cases)

lemma AddVote_wf: "collector_wf c \<Longrightarrow> collector_wf (fst (AddVote c v))"
  by (auto simp: AddVote_def collector_wf_def Let_def intro!: round_wf_update split: option.splits)

lemma AddVote_conflict:
  "snd (AddVote c v) = Some ErrConflictingTimeoutVote \<longleftrightarrow>
     Set_Get (tcol_validatorSet c) (tv_ValidatorID v) \<noteq> None \<and> ConflictingVote c v \<noteq> None"
  by (auto simp: AddVote_def ConflictingVote_def Let_def split: option.splits if_splits)

lemma fold_better_le:
  "qc_le q (fold (\<lambda>v q. if isBetterQC (f v) q then f v else q) vs q)"
  by (induction vs arbitrary: q) (auto intro: qc_le_trans isBetterQC_le)

lemma fold_better_max:
  "v \<in> set vs \<Longrightarrow> qc_le (f v) (fold (\<lambda>v q. if isBetterQC (f v) q then f v else q) vs q)"
proof (induction vs arbitrary: q)
  case (Cons w vs)
  show ?case
  proof (cases "v = w")
    case True
    have "qc_le (f w) (if isBetterQC (f w) q then f w else q)"
      by (auto simp: isBetterQC_iff)
    from qc_le_trans [OF this fold_better_le [of _ f]] True show ?thesis
      by (simp only: fold_simps)
  next
    case False
    with Cons show ?thesis
      by simp
  qed
qed simp

lemma BuildTimeoutCert_sound:
  assumes wf: "collector_wf c" and run: "BuildTimeoutCert c h r = Inr tc"
  shows "tc_Height tc = h \<and> tc_Round tc = r
    \<and> (\<forall>(i, v) \<in> set (tcol_votes c h r). qc_le (tv_HighQC v) (tc_HighQC tc))
    \<and> (\<exists>ids. tc_Signers tc = EncodeSigners ids \<and> distinct ids
         \<and> set ids = fst ` set (tcol_votes c h r)
         \<and> Set_TotalVotingPower (tcol_validatorSet c) \<noteq> 0
         \<and> 2 * unat (Set_TotalVotingPower (tcol_validatorSet c))
             \<le> 3 * signers_power (Set_Get (tcol_validatorSet c)) ids)"
proof -
  let ?s = "tcol_validatorSet c" and ?votes = "tcol_votes c h r"
  let ?upd = "\<lambda>v q. if isBetterQC (tv_HighQC v) q then tv_HighQC v else q"
  from run obtain p q acc signers signature where
    t: "tallyVotes ?s tv_Signature ?upd ?votes 0 zeroQC [] = Inr (p, q, acc)"
    and c: "certify ?s (tcol_aggregator c) p acc = Inr (signers, signature)"
    and tc: "tc = \<lparr>tc_Height = h, tc_Round = r, tc_HighQC = q, tc_Signers = signers,
                   tc_Signature = signature\<rparr>"
    by (auto simp: BuildTimeoutCert_def Let_def split: if_splits sum.splits)
  from wf have d: "distinct (map fst ?votes)"
    and known: "\<forall>(i, v) \<in> set ?votes. Set_Get ?s i \<noteq> None"
    unfolding collector_wf_def round_wf_def by blast+
  have "filter (\<lambda>(i, v). Set_Get ?s i \<noteq> None) ?votes = ?votes"
    using known by (auto intro: filter_True)
  then have "q = fold ?upd (map snd ?votes) zeroQC"
    using tallyVotes_Inr [OF t] by simp
  then have high: "\<forall>(i, v) \<in> set ?votes. qc_le (tv_HighQC v) q"
    using fold_better_max [of _ "map snd ?votes" tv_HighQC zeroQC] by force
  have "{i \<in> fst ` set ?votes. Set_Get ?s i \<noteq> None} = fst ` set ?votes"
    using known by auto
  with tally_certified [OF d t c] high tc show ?thesis
    by auto
qed

section \<open>Properties\<close>


definition ex_timeout_vote :: "ValidatorID \<Rightarrow> Height \<Rightarrow> TimeoutVote" where
  "ex_timeout_vote i high = \<lparr>tv_Height = 5, tv_Round = 1, tv_ValidatorID = i,
     tv_HighQC = zeroQC\<lparr>qc_Height := high\<rparr>, tv_Signature = ''s''\<rparr>"

definition ex_collector :: TimeoutCollector where
  "ex_collector = foldl (\<lambda>c v. fst (AddVote c v)) (NewTimeoutCollectorWithAggregator ex_set (Some (\<lambda>_. Inr ''agg'')))
     [ex_timeout_vote ''v0'' 3, ex_timeout_vote ''v2'' 4, ex_timeout_vote ''v1'' 2]"


end
