(* ===== verification/Merkle.thy ===== *)
theory Merkle
  imports Encoding
begin

text \<open>
  Binary hash trees, shared by the state proofs and the data-availability commitments.  A tree is given
  by the hash of an inner node, by what happens to the last hash of a level of odd length, and by the
  path steps recorded for it.  The locale \<open>merkle_tree\<close> states the one law that relates the two; in it,
  every path that is built leads from its leaf to the root, and a path binds its leaf unless the node
  hash collides on the pairs that the path hashes.
\<close>

section \<open>Levels, root and path\<close>

type_synonym merkle_step = "bool \<times> hash"

fun merkle_level :: "(hash \<Rightarrow> hash \<Rightarrow> hash) \<Rightarrow> (hash \<Rightarrow> hash) \<Rightarrow> hash list \<Rightarrow> hash list" where
  "merkle_level node lone [] = []"
| "merkle_level node lone [x] = [lone x]"
| "merkle_level node lone (x # y # xs) = node x y # merkle_level node lone xs"

lemma length_merkle_level [simp]: "length (merkle_level node lone xs) = (length xs + 1) div 2"
  by (induction node lone xs rule: merkle_level.induct) auto

function merkle_loop :: "(hash \<Rightarrow> hash \<Rightarrow> hash) \<Rightarrow> (hash \<Rightarrow> hash) \<Rightarrow> hash list \<Rightarrow> hash" where
  "merkle_loop node lone level =
     (if 1 < length level then merkle_loop node lone (merkle_level node lone level) else level ! 0)"
  by auto

termination merkle_loop
  by (relation "measure (\<lambda>(_, _, level). length level)") auto

declare merkle_loop.simps [simp del]

text \<open>One level of a path; the flag says that the sibling is on the left.\<close>

definition merkle_step_at :: "(hash \<Rightarrow> merkle_step list) \<Rightarrow> hash list \<Rightarrow> nat \<Rightarrow> merkle_step list" where
  "merkle_step_at alone level index =
     (if even index then
        (if index + 1 < length level then [(False, level ! (index + 1))] else alone (level ! index))
      else [(True, level ! (index - 1))])"

function merkle_path ::
    "(hash \<Rightarrow> hash \<Rightarrow> hash) \<Rightarrow> (hash \<Rightarrow> hash) \<Rightarrow> (hash \<Rightarrow> merkle_step list) \<Rightarrow> hash list \<Rightarrow> nat
     \<Rightarrow> merkle_step list" where
  "merkle_path node lone alone level index =
     (if 1 < length level
      then merkle_step_at alone level index
           @ merkle_path node lone alone (merkle_level node lone level) (index div 2)
      else [])"
  by auto

termination merkle_path
  by (relation "measure (\<lambda>(_, _, _, level, _). length level)") auto

declare merkle_path.simps [simp del]

definition merkle_climb :: "(hash \<Rightarrow> hash \<Rightarrow> hash) \<Rightarrow> hash \<Rightarrow> merkle_step list \<Rightarrow> hash" where
  "merkle_climb node leaf path =
     foldl (\<lambda>h (left, sibling). if left then node sibling h else node h sibling) leaf path"

lemma merkle_climb_simps [simp]:
  "merkle_climb node h [] = h"
  "merkle_climb node h ((left, s) # path) =
     merkle_climb node (if left then node s h else node h s) path"
  "merkle_climb node h (path @ path') = merkle_climb node (merkle_climb node h path) path'"
  by (simp_all add: merkle_climb_def)

lemma merkle_level_nth:
  "i < length xs \<Longrightarrow> merkle_level node lone xs ! (i div 2) =
     (if even i then (if i + 1 < length xs then node (xs ! i) (xs ! (i + 1)) else lone (xs ! i))
      else node (xs ! (i - 1)) (xs ! i))"
proof (induction node lone xs arbitrary: i rule: merkle_level.induct)
  case (3 node lone x y xs)
  show ?case
  proof (cases "i < 2")
    case True
    then show ?thesis
      by (cases i) auto
  next
    case False
    then obtain j where j: "i = Suc (Suc j)"
      by (metis add_2_eq_Suc le_Suc_ex not_less)
    with "3.IH" [of j] "3.prems" show ?thesis
      by (cases j) auto
  qed
qed auto

section \<open>Completeness and binding\<close>

locale merkle_tree =
  fixes node :: "hash \<Rightarrow> hash \<Rightarrow> hash"
    and lone :: "hash \<Rightarrow> hash"
    and alone :: "hash \<Rightarrow> merkle_step list"
  assumes lone_climb: "merkle_climb node h (alone h) = lone h"
begin

lemma climb_step:
  assumes "i < length level"
  shows "merkle_climb node (level ! i) (merkle_step_at alone level i)
    = merkle_level node lone level ! (i div 2)"
  using merkle_level_nth [OF assms, of node lone]
  by (simp add: merkle_step_at_def lone_climb)

lemma path_complete:
  "i < length level \<Longrightarrow>
     merkle_climb node (level ! i) (merkle_path node lone alone level i) = merkle_loop node lone level"
proof (induction "length level" arbitrary: level i rule: less_induct)
  case less
  show ?case
  proof (cases "1 < length level")
    case True
    let ?next = "merkle_level node lone level"
    have "length ?next < length level" and "i div 2 < length ?next"
      using True less.prems by auto
    from less.hyps [OF this] climb_step [OF less.prems] True show ?thesis
      by (subst merkle_path.simps, subst merkle_loop.simps) simp
  next
    case False
    with less.prems have "i = 0"
      by linarith
    with False show ?thesis
      by (subst merkle_path.simps, subst merkle_loop.simps) simp
  qed
qed

end

text \<open>The pairs that are hashed when a path is climbed.\<close>

fun climb_inputs :: "(hash \<Rightarrow> hash \<Rightarrow> hash) \<Rightarrow> hash \<Rightarrow> merkle_step list \<Rightarrow> (hash \<times> hash) list" where
  "climb_inputs node h [] = []"
| "climb_inputs node h ((left, s) # path) =
     (if left then (s, h) else (h, s))
     # climb_inputs node (if left then node s h else node h s) path"

lemma climb_binding:
  assumes "map fst p = map fst q"
    and "merkle_climb node g p = merkle_climb node h q"
    and "inj_on (\<lambda>(l, r). node l r) (set (climb_inputs node g p) \<union> set (climb_inputs node h q))"
  shows "g = h \<and> p = q"
  using assms
proof (induction p arbitrary: g h q)
  case (Cons a p)
  obtain left s where a: "a = (left, s)"
    by (cases a)
  with Cons.prems(1) obtain s' q' where q: "q = (left, s') # q'" and dirs: "map fst p = map fst q'"
    by (cases q) auto
  let ?x = "if left then (s, g) else (g, s)" and ?y = "if left then (s', h) else (h, s')"
  let ?g = "if left then node s g else node g s" and ?h = "if left then node s' h else node h s'"
  let ?n = "\<lambda>(l, r). node l r"
  have e: "merkle_climb node ?g p = merkle_climb node ?h q'"
    using Cons.prems(2) a q by simp
  have sub: "inj_on ?n (set (climb_inputs node ?g p) \<union> set (climb_inputs node ?h q'))"
    by (rule inj_on_subset [OF Cons.prems(3)]) (simp only: a q climb_inputs.simps list.set, blast)
  note ih = Cons.IH [OF dirs e sub]
  have "?n ?x = ?n ?y"
    using conjunct1 [OF ih] by (simp split: if_splits)
  moreover have "?x \<in> set (climb_inputs node g (a # p)) \<union> set (climb_inputs node h q)"
    and "?y \<in> set (climb_inputs node g (a # p)) \<union> set (climb_inputs node h q)"
    by (simp_all only: a q climb_inputs.simps list.set) blast+
  ultimately have "?x = ?y"
    by (rule inj_onD [OF Cons.prems(3)])
  with ih a q show ?case
    by (simp split: if_splits)
qed simp

section \<open>Trees that repeat the last hash of an odd level\<close>

function merkle_depth :: "nat \<Rightarrow> nat" where
  "merkle_depth n = (if 1 < n then Suc (merkle_depth ((n + 1) div 2)) else 0)"
  by auto

termination merkle_depth
  by (relation "measure id") auto

declare merkle_depth.simps [simp del]

primrec index_dirs :: "nat \<Rightarrow> nat \<Rightarrow> bool list" where
  "index_dirs 0 i = []"
| "index_dirs (Suc n) i = odd i # index_dirs n (i div 2)"

lemma length_index_dirs [simp]: "length (index_dirs n i) = n"
  by (induction n arbitrary: i) auto

text \<open>The pairs that are hashed when the root is computed.\<close>

fun merkle_pairs :: "hash list \<Rightarrow> (hash \<times> hash) list" where
  "merkle_pairs [] = []"
| "merkle_pairs [x] = [(x, x)]"
| "merkle_pairs (x # y # xs) = (x, y) # merkle_pairs xs"

lemma length_merkle_pairs [simp]: "length (merkle_pairs xs) = (length xs + 1) div 2"
  by (induction xs rule: merkle_pairs.induct) auto

lemma merkle_pairs_nth:
  "i < length xs \<Longrightarrow> merkle_pairs xs ! (i div 2) =
     (if even i then (xs ! i, if i + 1 < length xs then xs ! (i + 1) else xs ! i) else (xs ! (i - 1), xs ! i))"
proof (induction xs arbitrary: i rule: merkle_pairs.induct)
  case (3 x y xs)
  show ?case
  proof (cases "i < 2")
    case True
    then show ?thesis
      by (cases i) auto
  next
    case False
    then obtain j where j: "i = Suc (Suc j)"
      by (metis add_2_eq_Suc le_Suc_ex not_less)
    with "3.IH" [of j] "3.prems" show ?thesis
      by (cases j) auto
  qed
qed auto

function merkle_inputs :: "(hash \<Rightarrow> hash \<Rightarrow> hash) \<Rightarrow> hash list \<Rightarrow> (hash \<times> hash) list" where
  "merkle_inputs node level =
     (if 1 < length level
      then merkle_pairs level @ merkle_inputs node (merkle_level node (\<lambda>x. node x x) level) else [])"
  by auto

termination merkle_inputs
  by (relation "measure (\<lambda>(_, level). length level)") auto

declare merkle_inputs.simps [simp del]

lemma climb_inputs_append:
  "climb_inputs node h (p @ q) = climb_inputs node h p @ climb_inputs node (merkle_climb node h p) q"
  by (induction node h p rule: climb_inputs.induct) auto

lemma climb_is_node:
  "p \<noteq> [] \<Longrightarrow> \<exists>l r. (l, r) \<in> set (climb_inputs node h p) \<and> merkle_climb node h p = node l r"
proof (induction p arbitrary: h)
  case (Cons s p)
  obtain left x where s: "s = (left, x)"
    by (cases s)
  show ?case
  proof (cases "p = []")
    case True
    with s show ?thesis
      by auto
  next
    case False
    from Cons.IH [OF this, of "if left then node x h else node h x"] s show ?thesis
      by (auto split: if_splits)
  qed
qed simp

locale duplicating_tree =
  fixes node :: "hash \<Rightarrow> hash \<Rightarrow> hash"
begin

abbreviation root :: "hash list \<Rightarrow> hash" where
  "root \<equiv> merkle_loop node (\<lambda>x. node x x)"

abbreviation path :: "hash list \<Rightarrow> nat \<Rightarrow> merkle_step list" where
  "path \<equiv> merkle_path node (\<lambda>x. node x x) (\<lambda>x. [(False, x)])"

abbreviation up :: "hash list \<Rightarrow> hash list" where
  "up \<equiv> merkle_level node (\<lambda>x. node x x)"

end

sublocale duplicating_tree \<subseteq> dup: merkle_tree node "\<lambda>x. node x x" "\<lambda>x. [(False, x)]"
  by unfold_locales simp

context duplicating_tree
begin

lemma path_inputs:
  "i < length X \<Longrightarrow> map fst (path X i) = index_dirs (merkle_depth (length X)) i
     \<and> set (climb_inputs node (X ! i) (path X i)) \<subseteq> set (merkle_inputs node X)"
proof (induction "length X" arbitrary: X i rule: less_induct)
  case less
  show ?case
  proof (cases "1 < length X")
    case True
    have lt: "length (up X) < length X" "i div 2 < length (up X)"
      using True less.prems by auto
    note ih = less.hyps [OF lt]
    have pair: "merkle_pairs X ! (i div 2) \<in> set (merkle_pairs X)"
      using less.prems by (intro nth_mem) auto
    have "up X ! (i div 2) = (if odd i then node (X ! (i - 1)) (X ! i)
        else node (X ! i) (if i + 1 < length X then X ! (i + 1) else X ! i))"
      using merkle_level_nth [OF less.prems, of node "\<lambda>x. node x x"] by simp
    with ih True pair merkle_pairs_nth [OF less.prems] show ?thesis
      by (subst (1 2) merkle_path.simps, subst merkle_inputs.simps, subst merkle_depth.simps)
         (auto simp: merkle_step_at_def split: if_splits)
  next
    case False
    then show ?thesis
      by (subst (1 2) merkle_path.simps, subst merkle_depth.simps) simp
  qed
qed

text \<open>Because the last hash is repeated, every sequence of directions leads from some leaf to the root.\<close>

lemma every_direction:
  "X \<noteq> [] \<Longrightarrow> length ds = merkle_depth (length X) \<Longrightarrow>
     \<exists>i q. i < length X \<and> map fst q = ds \<and> merkle_climb node (X ! i) q = root X
       \<and> set (climb_inputs node (X ! i) q) \<subseteq> set (merkle_inputs node X)"
proof (induction "length X" arbitrary: X ds rule: less_induct)
  case less
  show ?case
  proof (cases "1 < length X")
    case True
    then obtain d ds' where ds: "ds = d # ds'" "length ds' = merkle_depth (length (up X))"
      using less.prems(2) by (cases ds) (auto simp: merkle_depth.simps [of "length X"])
    have "length (up X) < length X" "up X \<noteq> []"
      using True by (auto dest: arg_cong [of _ _ length])
    from less.hyps [OF this ds(2)] obtain j q where j: "j < length (up X)" "map fst q = ds'"
      "merkle_climb node (up X ! j) q = root (up X)"
      "set (climb_inputs node (up X ! j) q) \<subseteq> set (merkle_inputs node (up X))"
      by blast
    define i where "i = (if d \<and> 2 * j + 1 < length X then 2 * j + 1 else 2 * j)"
    define s where "s = (if d then X ! (2 * j) else if 2 * j + 1 < length X then X ! (2 * j + 1) else X ! (2 * j))"
    have len: "2 * j < length X"
      using j(1) by simp
    have i: "i < length X"
      using len by (simp add: i_def)
    have pairs: "merkle_pairs X ! j = (X ! (2 * j), if 2 * j + 1 < length X then X ! (2 * j + 1) else X ! (2 * j))"
      using merkle_pairs_nth [OF len] by simp
    have upj: "up X ! j = (if 2 * j + 1 < length X then node (X ! (2 * j)) (X ! (2 * j + 1))
        else node (X ! (2 * j)) (X ! (2 * j)))"
      using merkle_level_nth [OF len, of node "\<lambda>x. node x x"] by simp
    have step: "(if d then node s (X ! i) else node (X ! i) s) = up X ! j"
      "(if d then (s, X ! i) else (X ! i, s)) = merkle_pairs X ! j"
      using upj pairs by (auto simp: i_def s_def)
    have inp: "merkle_pairs X ! j \<in> set (merkle_pairs X)"
      using j(1) by (intro nth_mem) simp
    have "merkle_climb node (X ! i) ((d, s) # q) = root X"
      using step(1) j(3) True by (subst merkle_loop.simps) simp
    moreover have "set (climb_inputs node (X ! i) ((d, s) # q)) \<subseteq> set (merkle_inputs node X)"
      using step j(4) inp True
      by (subst merkle_inputs.simps) (auto simp del: length_merkle_level)
    ultimately show ?thesis
      using i j(2) ds(1) by (intro exI [of _ i] exI [of _ "(d, s) # q"]) simp
  next
    case False
    with less.prems have "length X = 1" "ds = []"
      by (simp_all add: merkle_depth.simps [of "length X"] le_antisym Suc_le_eq)
    then show ?thesis
      by (intro exI [of _ 0] exI [of _ "[]"]) (simp add: merkle_loop.simps)
  qed
qed

lemma path_root: "i < length X \<Longrightarrow> merkle_climb node (X ! i) (path X i) = root X"
  by (rule dup.path_complete)

text \<open>
  Two trees with the same root: when the node hash does not collide on the pairs they hash and no leaf is
  the hash of such a pair, they have the same depth, agree on the common indices, and an index that only one
  of them has would repeat a leaf of the other.
\<close>

lemma depth_not_less:
  assumes "X \<noteq> []" "Y \<noteq> []" "root X = root Y"
    and "inj_on (\<lambda>(l, r). node l r) (set (merkle_inputs node X) \<union> set (merkle_inputs node Y))"
    and "\<And>x l r. x \<in> set X \<Longrightarrow> (l, r) \<in> set (merkle_inputs node Y) \<Longrightarrow> x \<noteq> node l r"
  shows "\<not> merkle_depth (length X) < merkle_depth (length Y)"
proof
  assume lt: "merkle_depth (length X) < merkle_depth (length Y)"
  define p where "p = path Y 0"
  define k where "k = merkle_depth (length Y) - merkle_depth (length X)"
  have p: "map fst p = index_dirs (merkle_depth (length Y)) 0" "merkle_climb node (Y ! 0) p = root Y"
    "set (climb_inputs node (Y ! 0) p) \<subseteq> set (merkle_inputs node Y)"
    using path_inputs [of 0 Y] path_root [of 0 Y] assms(2) by (auto simp: p_def)
  then have len: "length p = merkle_depth (length Y)"
    by (metis length_index_dirs length_map)
  define h where "h = merkle_climb node (Y ! 0) (take k p)"
  have split: "merkle_climb node h (drop k p) = root Y"
    "set (climb_inputs node (Y ! 0) (take k p)) \<subseteq> set (merkle_inputs node Y)"
    "set (climb_inputs node h (drop k p)) \<subseteq> set (merkle_inputs node Y)"
    using p(2,3) merkle_climb_simps(3) [of node "Y ! 0" "take k p" "drop k p"]
      climb_inputs_append [of node "Y ! 0" "take k p" "drop k p"] by (simp_all add: h_def)
  have "length (map fst (drop k p)) = merkle_depth (length X)"
    using lt len by (simp add: k_def)
  from every_direction [OF assms(1) this] obtain i q where q: "i < length X" "map fst q = map fst (drop k p)"
    "merkle_climb node (X ! i) q = root X" "set (climb_inputs node (X ! i) q) \<subseteq> set (merkle_inputs node X)"
    by blast
  have "X ! i = h"
    using climb_binding [OF q(2) _ inj_on_subset [OF assms(4) Un_mono [OF q(4) split(3)]]] q(3) split(1) assms(3)
    by simp
  moreover have "take k p \<noteq> []"
    using lt len by (auto simp: k_def)
  from climb_is_node [OF this, of node "Y ! 0"] obtain l r where "(l, r) \<in> set (climb_inputs node (Y ! 0) (take k p))" "h = node l r"
    by (auto simp: h_def)
  ultimately show False
    using assms(5) [of "X ! i" l r] nth_mem [OF q(1)] split(2) by auto
qed

lemma tree_binding:
  assumes "X \<noteq> []" "Y \<noteq> []" "root X = root Y"
    and "inj_on (\<lambda>(l, r). node l r) (set (merkle_inputs node X) \<union> set (merkle_inputs node Y))"
    and "\<And>x l r. x \<in> set X \<union> set Y \<Longrightarrow>
      (l, r) \<in> set (merkle_inputs node X) \<union> set (merkle_inputs node Y) \<Longrightarrow> x \<noteq> node l r"
    and "j < length Y"
  shows "\<exists>i < length X. X ! i = Y ! j \<and> (j < length X \<longrightarrow> i = j)"
proof -
  have depth: "merkle_depth (length X) = merkle_depth (length Y)"
    using depth_not_less [OF assms(1-4)] depth_not_less [OF assms(2,1) assms(3) [symmetric]] assms(4,5)
    by (simp add: Un_commute linorder_neq_iff)
  define ds where "ds = index_dirs (merkle_depth (length X)) j"
  have y: "map fst (path Y j) = ds" "merkle_climb node (Y ! j) (path Y j) = root Y"
    "set (climb_inputs node (Y ! j) (path Y j)) \<subseteq> set (merkle_inputs node Y)"
    using path_inputs [OF assms(6)] path_root [OF assms(6)] depth by (simp_all add: ds_def)
  have "\<exists>i q. i < length X \<and> map fst q = ds \<and> merkle_climb node (X ! i) q = root X
      \<and> set (climb_inputs node (X ! i) q) \<subseteq> set (merkle_inputs node X) \<and> (j < length X \<longrightarrow> i = j)"
  proof (cases "j < length X")
    case True
    then show ?thesis
      using path_inputs [OF True] path_root [OF True]
      by (intro exI [of _ j] exI [of _ "path X j"]) (simp add: ds_def)
  next
    case False
    then show ?thesis
      using every_direction [OF assms(1), of ds] by (auto simp: ds_def)
  qed
  then obtain i q where q: "i < length X" "map fst q = ds" "merkle_climb node (X ! i) q = root X"
    "set (climb_inputs node (X ! i) q) \<subseteq> set (merkle_inputs node X)" "j < length X \<longrightarrow> i = j"
    by blast
  have "X ! i = Y ! j"
    using climb_binding [OF _ _ inj_on_subset [OF assms(4) Un_mono [OF q(4) y(3)]]] q(2,3) y(1,2) assms(3)
    by simp
  with q show ?thesis
    by blast
qed

end

end
