(* ===== verification/DataAvailability.thy ===== *)
theory DataAvailability
  imports Merkle
begin

text \<open>
  Package \<^verbatim>\<open>dataavailability\<close>: the transaction encoding, its chunks, the commitment over them, chunk
  proofs and sampling.  The encoding is read back exactly and is canonical, chunk proofs that are built are
  accepted, the commitment binds the transaction list unless SHA-256 collides on the strings hashed for it,
  and an accepted sample report covers every requested chunk.  The Reed-Solomon parity chunks are not
  modelled.
\<close>

datatype da_error =
    ErrCommitmentMismatch
  | ErrMissingData
  | ErrInvalidChunkSize
  | ErrInvalidDataShards
  | ErrInvalidParityShards
  | ErrInvalidChunkProof
  | ErrInsufficientChunks
  | ErrInvalidEncoding
  | ErrInvalidSamplePolicy
  | ErrInvalidSampleSet
  | MakeslicePanic

definition DefaultChunkSize :: u64 where
  "DefaultChunkSize = 1024"

definition DefaultDataShards :: u64 where
  "DefaultDataShards = 8"

definition DefaultParityShards :: u64 where
  "DefaultParityShards = 2"

definition maxErasureShards :: u64 where
  "maxErasureShards = 255"

section \<open>Data\<close>

record DAProof =
  dap_Commitment :: hash
  dap_TxCount :: u64
  dap_TotalBytes :: u64
  dap_EncodedSize :: u64
  dap_ChunkSize :: u64
  dap_ChunkCount :: u64
  dap_DataShards :: u64
  dap_ParityShards :: u64
  dap_ParityCount :: u64

definition zeroDAProof :: DAProof where
  "zeroDAProof = \<lparr>dap_Commitment = 0, dap_TxCount = 0, dap_TotalBytes = 0, dap_EncodedSize = 0,
     dap_ChunkSize = 0, dap_ChunkCount = 0, dap_DataShards = 0, dap_ParityShards = 0, dap_ParityCount = 0\<rparr>"

record Chunk =
  ch_Index :: u64
  ch_Data :: bytes

record MerkleSibling =
  sib_Hash :: hash
  sib_Left :: bool

record ChunkProof =
  chp_Commitment :: hash
  chp_ChunkSize :: u64
  chp_ChunkCount :: u64
  chp_Index :: u64
  chp_Data :: bytes
  chp_Path :: "MerkleSibling list"

record SamplePolicy =
  sp_Samples :: u64
  sp_MinSamples :: u64

record SampleRequest =
  sr_Commitment :: hash
  sr_Height :: Height
  sr_ChunkCount :: u64
  sr_Indices :: "u64 list"
  sr_Seed :: hash

record SampleReport =
  rep_Commitment :: hash
  rep_Height :: Height
  rep_ChunkCount :: u64
  rep_Requested :: u64
  rep_Verified :: u64
  rep_CoverageBPS :: u64
  rep_VerifiedIndices :: "u64 list"

section \<open>Transaction encoding\<close>

definition encodeTransactions :: "Tx list \<Rightarrow> bytes" where
  "encodeTransactions txs = be64 (u64_len txs) @ concat (map (\<lambda>tx. be64 (u64_len tx) @ tx) txs)"

text \<open>\<^verbatim>\<open>binary.BigEndian.Uint64\<close>.\<close>

definition getUint64 :: "bytes \<Rightarrow> u64" where
  "getUint64 bs = word_of_nat (be_nat bs)"

text \<open>The loop of the decoder; its state is the unread suffix of the data.\<close>

primrec decodeLoop :: "nat \<Rightarrow> bytes \<Rightarrow> Tx list \<Rightarrow> da_error + Tx list" where
  "decodeLoop 0 rest txs = (if rest \<noteq> [] then Inl ErrInvalidEncoding else Inr txs)"
| "decodeLoop (Suc n) rest txs =
     (if length rest < 8 then Inl ErrInvalidEncoding
      else
        let sz = getUint64 (take 8 rest);
            rest = drop 8 rest
        in if length rest < unat sz then Inl ErrInvalidEncoding
           else decodeLoop n (drop (unat sz) rest) (txs @ [take (unat sz) rest]))"

text \<open>
  The slice for the result is allocated with the count that the data announces; \<open>maxCap\<close> is the largest
  capacity the runtime grants, above which \<^verbatim>\<open>make\<close> panics.
\<close>

definition decodeTransactions :: "nat \<Rightarrow> bytes \<Rightarrow> da_error + Tx list" where
  "decodeTransactions maxCap data =
     (if length data < 8 then Inl ErrInvalidEncoding
      else
        let count = getUint64 (take 8 data) in
        if maxCap < unat count then Inl MakeslicePanic
        else decodeLoop (unat count) (drop 8 data) [])"

section \<open>Chunks and their tree\<close>

text \<open>Signed 64-bit arithmetic wraps around; the quotient of Go truncates towards zero.\<close>

definition wrap_int :: "int \<Rightarrow> int" where
  "wrap_int x = sint (word_of_int x :: u64)"

definition chunk_at :: "bytes \<Rightarrow> nat \<Rightarrow> nat \<Rightarrow> Chunk" where
  "chunk_at data sz index =
     \<lparr>ch_Index = word_of_nat index, ch_Data = take sz (drop (index * sz) data)\<rparr>"

definition splitChunks :: "bytes \<Rightarrow> u64 \<Rightarrow> da_error + Chunk list" where
  "splitChunks data chunkSize =
     (if chunkSize = 0 \<or> 2 ^ 63 - 1 < unat chunkSize then Inl ErrInvalidChunkSize
      else
        let sz = int (unat chunkSize);
            n = wrap_int (int (length data) + sz - 1);
            chunkCount = (if n < 0 then - ((- n) div sz) else n div sz);
            chunkCount = (if chunkCount = 0 then 1 else chunkCount)
        in if chunkCount < 0 then Inl MakeslicePanic
           else Inr (map (chunk_at data (unat chunkSize)) [0..<nat chunkCount]))"

definition chunk_preimage :: "Chunk \<Rightarrow> bytes" where
  "chunk_preimage c = [CHR 0x00] @ be64 (ch_Index c) @ be64 (u64_len (ch_Data c)) @ ch_Data c"

definition chunkLeaf :: "Chunk \<Rightarrow> hash" where
  "chunkLeaf c = sha256 (chunk_preimage c)"

definition parent_preimage :: "hash \<times> hash \<Rightarrow> bytes" where
  "parent_preimage = (\<lambda>(left, right). [CHR 0x01] @ hash_bytes left @ hash_bytes right)"

definition parentHash :: "hash \<Rightarrow> hash \<Rightarrow> hash" where
  "parentHash left right = sha256 (parent_preimage (left, right))"

definition chunkLeaves :: "Chunk list \<Rightarrow> hash list" where
  "chunkLeaves chunks = map chunkLeaf (sort_key ch_Index chunks)"

definition da_merkleRoot :: "hash list \<Rightarrow> hash" where
  "da_merkleRoot leaves =
     (if leaves = [] then zero_hash else merkle_loop parentHash (\<lambda>x. parentHash x x) leaves)"

definition da_merklePath :: "hash list \<Rightarrow> nat \<Rightarrow> MerkleSibling list" where
  "da_merklePath leaves target =
     map (\<lambda>(left, h). \<lparr>sib_Hash = h, sib_Left = left\<rparr>)
       (merkle_path parentHash (\<lambda>x. parentHash x x) (\<lambda>x. [(False, x)]) leaves target)"

definition chunkRoot :: "Chunk list \<Rightarrow> hash" where
  "chunkRoot chunks = da_merkleRoot (chunkLeaves chunks)"

section \<open>Proofs\<close>

definition parityGroupCount :: "u64 \<Rightarrow> u64 \<Rightarrow> u64" where
  "parityGroupCount chunkCount dataShards =
     (if chunkCount = 0 \<or> dataShards = 0 then 0 else (chunkCount + dataShards - 1) div dataShards)"

definition BuildProofWithErasureOptions :: "Tx list \<Rightarrow> u64 \<Rightarrow> u64 \<Rightarrow> u64 \<Rightarrow> da_error + DAProof" where
  "BuildProofWithErasureOptions txs chunkSize dataShards parityShards =
     (if dataShards = 0 \<or> maxErasureShards < dataShards then Inl ErrInvalidDataShards
      else if parityShards = 0 \<or> maxErasureShards < parityShards then Inl ErrInvalidParityShards
      else
        let totalBytes = foldl (\<lambda>t tx. t + u64_len tx) 0 txs;
            encoded = encodeTransactions txs
        in case splitChunks encoded chunkSize of
             Inl e \<Rightarrow> Inl e
           | Inr chunks \<Rightarrow>
               Inr \<lparr>dap_Commitment = chunkRoot chunks, dap_TxCount = u64_len txs,
                    dap_TotalBytes = totalBytes, dap_EncodedSize = u64_len encoded,
                    dap_ChunkSize = chunkSize, dap_ChunkCount = u64_len chunks,
                    dap_DataShards = dataShards, dap_ParityShards = parityShards,
                    dap_ParityCount = parityGroupCount (u64_len chunks) dataShards * parityShards\<rparr>)"

definition BuildProofWithOptions :: "Tx list \<Rightarrow> u64 \<Rightarrow> u64 \<Rightarrow> da_error + DAProof" where
  "BuildProofWithOptions txs chunkSize dataShards =
     BuildProofWithErasureOptions txs chunkSize dataShards DefaultParityShards"

definition BuildProof :: "Tx list \<Rightarrow> DAProof" where
  "BuildProof txs =
     (case BuildProofWithOptions txs DefaultChunkSize DefaultDataShards of
        Inl _ \<Rightarrow> zeroDAProof | Inr p \<Rightarrow> p)"

definition Commitment :: "Tx list \<Rightarrow> hash" where
  "Commitment txs = dap_Commitment (BuildProof txs)"

definition BuildChunks :: "Tx list \<Rightarrow> u64 \<Rightarrow> da_error + Chunk list" where
  "BuildChunks txs chunkSize = splitChunks (encodeTransactions txs) chunkSize"

text \<open>The position of the last chunk with the index.\<close>

definition findPosition :: "Chunk list \<Rightarrow> u64 \<Rightarrow> nat option" where
  "findPosition ordered index =
     foldl (\<lambda>target (position, c). if ch_Index c = index then Some position else target) None
       (enumerate 0 ordered)"

definition BuildChunkProofFromChunks :: "Chunk list \<Rightarrow> u64 \<Rightarrow> u64 \<Rightarrow> da_error + ChunkProof" where
  "BuildChunkProofFromChunks chunks chunkSize index =
     (if u64_len chunks \<le> index then Inl ErrInvalidChunkProof
      else
        let ordered = sort_key ch_Index chunks in
        if list_ex (\<lambda>c. u64_len ordered \<le> ch_Index c \<or> chunkSize < u64_len (ch_Data c)) ordered
           \<or> \<not> distinct_adj (map ch_Index ordered)
        then Inl ErrInvalidChunkProof
        else
          case findPosition ordered index of
            None \<Rightarrow> Inl ErrInvalidChunkProof
          | Some targetPosition \<Rightarrow>
              let leaves = chunkLeaves ordered in
              Inr \<lparr>chp_Commitment = da_merkleRoot leaves, chp_ChunkSize = chunkSize,
                   chp_ChunkCount = u64_len ordered, chp_Index = index,
                   chp_Data = ch_Data (ordered ! targetPosition),
                   chp_Path = da_merklePath leaves targetPosition\<rparr>)"

definition BuildChunkProof :: "Tx list \<Rightarrow> u64 \<Rightarrow> u64 \<Rightarrow> da_error + ChunkProof" where
  "BuildChunkProof txs chunkSize index =
     (case BuildChunks txs chunkSize of
        Inl e \<Rightarrow> Inl e
      | Inr chunks \<Rightarrow> BuildChunkProofFromChunks chunks chunkSize index)"

definition VerifyChunkProof :: "ChunkProof \<Rightarrow> da_error option" where
  "VerifyChunkProof p =
     (if chp_ChunkSize p = 0 \<or> chp_ChunkCount p = 0 \<or> chp_ChunkCount p \<le> chp_Index p
         \<or> chp_ChunkSize p < u64_len (chp_Data p)
      then Some ErrInvalidChunkProof
      else
        let hash = foldl (\<lambda>h s. if sib_Left s then parentHash (sib_Hash s) h else parentHash h (sib_Hash s))
                     (chunkLeaf \<lparr>ch_Index = chp_Index p, ch_Data = chp_Data p\<rparr>) (chp_Path p)
        in if hash \<noteq> chp_Commitment p then Some ErrInvalidChunkProof else None)"

definition DA_Verify :: "Header \<Rightarrow> Tx list \<Rightarrow> da_error option" where
  "DA_Verify header txs =
     (if hdr_ConsensusHash header = zero_hash then (if txs = [] then None else Some ErrMissingData)
      else if Commitment txs \<noteq> hdr_ConsensusHash header then Some ErrCommitmentMismatch
      else None)"

definition AttachCommitment :: "Block \<Rightarrow> Block" where
  "AttachCommitment block =
     block\<lparr>blk_Header := (blk_Header block)\<lparr>hdr_ConsensusHash := Commitment (blk_Txs block)\<rparr>\<rparr>"

section \<open>Sampling\<close>

definition sampleSeed :: "string \<Rightarrow> Height \<Rightarrow> hash \<Rightarrow> bytes \<Rightarrow> hash" where
  "sampleSeed chainID height commitment entropy =
     sha256 (''vexo.da.sampling.v1'' @ chainID @ be64 height @ hash_bytes commitment
       @ be64 (u64_len entropy) @ entropy)"

definition sampleIndex :: "hash \<Rightarrow> u64 \<Rightarrow> u64 \<Rightarrow> u64" where
  "sampleIndex seed chunkCount counter =
     getUint64 (take 8 (hash_bytes (sha256 (''vexo.da.sample.index.v1'' @ hash_bytes seed @ be64 counter))))
       mod chunkCount"

text \<open>The loop draws until enough different indices are found; nothing bounds the number of draws.\<close>

partial_function (option) sampleLoop ::
    "hash \<Rightarrow> u64 \<Rightarrow> u64 \<Rightarrow> u64 \<Rightarrow> u64 list \<Rightarrow> u64 list option" where
  "sampleLoop seed chunkCount samples counter indices =
     (if u64_len indices < samples then
        let index = sampleIndex seed chunkCount counter in
        if index \<in> set indices then sampleLoop seed chunkCount samples (counter + 1) indices
        else sampleLoop seed chunkCount samples (counter + 1) (indices @ [index])
      else Some indices)"

definition deterministicSampleIndices :: "hash \<Rightarrow> u64 \<Rightarrow> u64 \<Rightarrow> u64 list option" where
  "deterministicSampleIndices seed chunkCount samples =
     (if chunkCount = 0 \<or> samples = 0 then Some []
      else map_option sort (sampleLoop seed chunkCount samples 0 []))"

definition PlanSamples ::
    "string \<Rightarrow> Height \<Rightarrow> DAProof \<Rightarrow> SamplePolicy \<Rightarrow> bytes \<Rightarrow> (da_error + SampleRequest) option" where
  "PlanSamples chainID height p policy entropy =
     (if chainID = [] \<or> height = 0 \<or> dap_Commitment p = zero_hash \<or> dap_ChunkCount p = 0
      then Some (Inl ErrInvalidChunkProof)
      else
        let samples = (if sp_Samples policy = 0 then sp_MinSamples policy else sp_Samples policy) in
        if samples < sp_MinSamples policy then Some (Inl ErrInvalidSamplePolicy)
        else if samples = 0 then Some (Inl ErrInvalidSamplePolicy)
        else
          let samples = (if dap_ChunkCount p < samples then dap_ChunkCount p else samples);
              seed = sampleSeed chainID height (dap_Commitment p) entropy
          in map_option
               (\<lambda>indices. Inr \<lparr>sr_Commitment = dap_Commitment p, sr_Height = height,
                              sr_ChunkCount = dap_ChunkCount p, sr_Indices = indices, sr_Seed = seed\<rparr>)
               (deterministicSampleIndices seed (dap_ChunkCount p) samples))"

text \<open>The loops of \<^verbatim>\<open>VerifySamples\<close> over the requested indices and over the proofs.\<close>

fun requestedSet :: "u64 \<Rightarrow> u64 list \<Rightarrow> u64 list \<Rightarrow> da_error + u64 list" where
  "requestedSet chunkCount [] requested = Inr requested"
| "requestedSet chunkCount (index # indices) requested =
     (if chunkCount \<le> index then Inl ErrInvalidSampleSet
      else if index \<in> set requested then Inl ErrInvalidSampleSet
      else requestedSet chunkCount indices (requested @ [index]))"

fun verifiedSet :: "SampleRequest \<Rightarrow> u64 list \<Rightarrow> ChunkProof list \<Rightarrow> u64 list \<Rightarrow> da_error + u64 list" where
  "verifiedSet request requested [] verified = Inr verified"
| "verifiedSet request requested (p # proofs) verified =
     (if chp_Commitment p \<noteq> sr_Commitment request \<or> chp_ChunkCount p \<noteq> sr_ChunkCount request
         \<or> sr_ChunkCount request \<le> chp_Index p
      then Inl ErrInvalidSampleSet
      else if chp_Index p \<notin> set requested then Inl ErrInvalidSampleSet
      else if chp_Index p \<in> set verified then Inl ErrInvalidSampleSet
      else
        case VerifyChunkProof p of
          Some e \<Rightarrow> Inl e
        | None \<Rightarrow> verifiedSet request requested proofs (verified @ [chp_Index p]))"

definition VerifySamples :: "SampleRequest \<Rightarrow> ChunkProof list \<Rightarrow> da_error + SampleReport" where
  "VerifySamples request proofs =
     (if sr_Commitment request = zero_hash \<or> sr_Height request = 0 \<or> sr_ChunkCount request = 0
         \<or> sr_Indices request = []
      then Inl ErrInvalidSampleSet
      else
        case requestedSet (sr_ChunkCount request) (sr_Indices request) [] of
          Inl e \<Rightarrow> Inl e
        | Inr requested \<Rightarrow>
            case verifiedSet request requested proofs [] of
              Inl e \<Rightarrow> Inl e
            | Inr verified \<Rightarrow>
                if length verified \<noteq> length requested then Inl ErrInsufficientChunks
                else
                  let indices = sort verified in
                  Inr \<lparr>rep_Commitment = sr_Commitment request, rep_Height = sr_Height request,
                       rep_ChunkCount = sr_ChunkCount request, rep_Requested = u64_len (sr_Indices request),
                       rep_Verified = u64_len indices,
                       rep_CoverageBPS = u64_len indices * 10000 div sr_ChunkCount request,
                       rep_VerifiedIndices = indices\<rparr>)"

section \<open>The encoding is read back exactly\<close>

lemma be_bytes_be_nat: "be_bytes (length bs) (be_nat bs) = bs"
proof (induction bs rule: rev_induct)
  case (snoc c bs)
  have c: "of_char c < (256 :: nat)"
    by (rule nat_of_char_less_256)
  moreover have "char_of (be_nat bs * 256 + of_char c :: nat) = c"
    using c by (simp add: char_of_eq_iff take_bit_eq_mod)
  ultimately show ?case
    using snoc.IH by simp
qed simp

lemma getUint64_be64 [simp]: "getUint64 (be64 v) = v"
  using unat_lt_u64 [of v] by (simp add: getUint64_def be64_def)

lemma be64_getUint64:
  assumes "length bs = 8"
  shows "be64 (getUint64 bs) = bs"
proof -
  have "be_nat bs < 2 ^ 64"
    using be_nat_less [of bs] assms by simp
  then show ?thesis
    using be_bytes_be_nat [of bs] assms by (simp add: be64_def getUint64_def u64_of_nat)
qed

definition tx_frame :: "Tx \<Rightarrow> bytes" where
  "tx_frame tx = be64 (u64_len tx) @ tx"

lemma encodeTransactions_frames: "encodeTransactions txs = be64 (u64_len txs) @ concat (map tx_frame txs)"
  by (simp add: encodeTransactions_def tx_frame_def [abs_def])

lemma decodeLoop_frames:
  "\<forall>tx \<in> set txs. length tx < 2 ^ 64 \<Longrightarrow>
     decodeLoop (length txs) (concat (map tx_frame txs)) acc = Inr (acc @ txs)"
proof (induction txs arbitrary: acc)
  case (Cons tx txs)
  then have "unat (u64_len tx) = length tx"
    by (simp add: u64_len_def u64_of_nat)
  with Cons show ?case
    by (simp add: tx_frame_def)
qed simp

lemma decodeLoop_Inr:
  "decodeLoop n rest acc = Inr txs \<Longrightarrow>
     \<exists>ys. txs = acc @ ys \<and> length ys = n \<and> rest = concat (map tx_frame ys)
       \<and> (\<forall>y \<in> set ys. length y < 2 ^ 64)"
proof (induction n arbitrary: rest acc)
  case 0
  then show ?case
    by (auto split: if_splits)
next
  case (Suc n)
  define sz where "sz = getUint64 (take 8 rest)"
  define body where "body = drop 8 rest"
  from Suc.prems have len: "8 \<le> length rest" "unat sz \<le> length body"
    and rec: "decodeLoop n (drop (unat sz) body) (acc @ [take (unat sz) body]) = Inr txs"
    by (auto simp: sz_def body_def Let_def not_less split: if_splits)
  from Suc.IH [OF rec] obtain ys where ys: "txs = (acc @ [take (unat sz) body]) @ ys" "length ys = n"
    "drop (unat sz) body = concat (map tx_frame ys)" "\<forall>y \<in> set ys. length y < 2 ^ 64"
    by blast
  have lb: "length (take (unat sz) body) = unat sz"
    using len(2) by simp
  have "be64 sz = take 8 rest"
    using len(1) by (simp add: sz_def be64_getUint64)
  then have "tx_frame (take (unat sz) body) = take 8 rest @ take (unat sz) body"
    by (simp only: tx_frame_def u64_len_def lb) simp
  then have "rest = tx_frame (take (unat sz) body) @ concat (map tx_frame ys)"
    using append_take_drop_id [of "unat sz" body] append_take_drop_id [of 8 rest]
    by (simp only: ys(3) [symmetric] append_assoc body_def)
  moreover have "length (take (unat sz) body) < 2 ^ 64"
    using unat_u64_less [of sz] by (simp add: lb del: length_take)
  ultimately show ?case
    using ys by (intro exI [of _ "take (unat sz) body # ys"]) simp
qed

lemma decode_encode:
  assumes "length txs \<le> maxCap" and "length txs < 2 ^ 64" and "\<forall>tx \<in> set txs. length tx < 2 ^ 64"
  shows "decodeTransactions maxCap (encodeTransactions txs) = Inr txs"
  using assms decodeLoop_frames [OF assms(3), of "[]"]
  by (simp add: decodeTransactions_def encodeTransactions_frames u64_len_def u64_of_nat)

lemma encode_decode:
  assumes "decodeTransactions maxCap bs = Inr txs"
  shows "encodeTransactions txs = bs \<and> (\<forall>tx \<in> set txs. length tx < 2 ^ 64) \<and> length txs < 2 ^ 64"
proof -
  from assms have len: "8 \<le> length bs"
    and rec: "decodeLoop (unat (getUint64 (take 8 bs))) (drop 8 bs) [] = Inr txs"
    by (auto simp: decodeTransactions_def Let_def not_less split: if_splits)
  from decodeLoop_Inr [OF rec] have l: "length txs = unat (getUint64 (take 8 bs))"
    and b: "drop 8 bs = concat (map tx_frame txs)" "\<forall>y \<in> set txs. length y < 2 ^ 64"
    by auto
  have "be64 (u64_len txs) = take 8 bs"
    using len by (simp add: u64_len_def l be64_getUint64)
  then have "encodeTransactions txs = bs"
    by (simp add: encodeTransactions_frames b(1) [symmetric])
  with b(2) l unat_u64_less [of "getUint64 (take 8 bs)"] show ?thesis
    by simp
qed

lemma encodeTransactions_inj:
  assumes "encodeTransactions xs = encodeTransactions ys"
    and "length xs < 2 ^ 64" "length ys < 2 ^ 64" "\<forall>tx \<in> set xs \<union> set ys. length tx < 2 ^ 64"
  shows "xs = ys"
proof -
  let ?n = "max (length xs) (length ys)"
  have "decodeTransactions ?n (encodeTransactions xs) = Inr xs"
    by (rule decode_encode) (use assms in auto)
  moreover have "decodeTransactions ?n (encodeTransactions ys) = Inr ys"
    by (rule decode_encode) (use assms in auto)
  ultimately show ?thesis
    by (metis assms(1) sum.inject(2))
qed

section \<open>Chunks\<close>

lemma wrap_int_id: "0 \<le> x \<Longrightarrow> x < 2 ^ 63 \<Longrightarrow> wrap_int x = x"
  unfolding wrap_int_def
  by (simp add: signed_of_int signed_take_bit_int_eq_self)

definition chunk_count :: "nat \<Rightarrow> nat \<Rightarrow> nat" where
  "chunk_count len sz = (len + sz - 1) div sz"

lemma chunk_count_bounds:
  assumes "0 < len" and "0 < sz"
  shows "0 < chunk_count len sz" "len \<le> chunk_count len sz * sz" "chunk_count len sz \<le> len"
proof -
  have "sz \<le> len + sz - 1"
    using assms by simp
  then show "0 < chunk_count len sz"
    using assms by (simp add: chunk_count_def div_greater_zero_iff)
  have "len + sz - 1 < (chunk_count len sz + 1) * sz"
    using dividend_less_div_times [OF assms(2), of "len + sz - 1"] by (simp add: chunk_count_def algebra_simps)
  then show "len \<le> chunk_count len sz * sz"
    using assms by (simp add: algebra_simps)
  have "len + sz - 1 \<le> len * sz"
    using assms by (cases len; cases sz) simp_all
  then show "chunk_count len sz \<le> len"
    using assms(2) by (simp add: chunk_count_def div_le_mono [THEN order_trans, of _ "len * sz"])
qed

lemma splitChunks_ok:
  assumes "chunkSize \<noteq> 0" and "0 < length bs" and "length bs + unat chunkSize \<le> 2 ^ 63"
  shows "splitChunks bs chunkSize =
    Inr (map (chunk_at bs (unat chunkSize)) [0..<chunk_count (length bs) (unat chunkSize)])"
proof -
  define s where "s = unat chunkSize"
  have s: "0 < s"
    using assms(1) by (simp add: s_def unat_gt_0)
  have sum: "int (length bs) + int s - 1 = int (length bs + s - 1)"
    using s by linarith
  have le: "length bs + s \<le> 9223372036854775808"
    using assms(3) by (simp add: s_def)
  then have "int (length bs + s - 1) < 9223372036854775808"
    using s by linarith
  then have "wrap_int (int (length bs) + int s - 1) = int (length bs + s - 1)"
    unfolding sum by (intro wrap_int_id) simp_all
  moreover have "int (length bs + s - 1) div int s = int (chunk_count (length bs) s)"
    by (simp only: chunk_count_def zdiv_int)
  moreover have "0 < chunk_count (length bs) s"
    by (rule chunk_count_bounds [OF assms(2) s])
  moreover have "\<not> 9223372036854775807 < s"
    using le assms(2) by linarith
  ultimately show ?thesis
    using assms(1) unfolding splitChunks_def Let_def s_def [symmetric] by simp
qed

lemma concat_chunks: "concat (map (\<lambda>i. take s (drop (i * s) bs)) [0..<n]) = take (n * s) bs"
proof (induction n)
  case (Suc n)
  have "take (Suc n * s) bs = take (n * s) bs @ take s (drop (n * s) bs)"
    by (metis add.commute mult_Suc take_add)
  with Suc show ?case
    by simp
qed simp

lemma chunk_data: "concat (map ch_Data (map (chunk_at bs s) [0..<n])) = take (n * s) bs"
  using concat_chunks [of s bs n] by (simp add: comp_def chunk_at_def)

lemma chunks_sorted:
  assumes "n < 2 ^ 64"
  shows "sort_key ch_Index (map (chunk_at bs s) [0..<n]) = map (chunk_at bs s) [0..<n]"
    "distinct (map ch_Index (map (chunk_at bs s) [0..<n]))"
proof -
  have u: "unat (word_of_nat i :: u64) = i" if "i < n" for i
    using that assms by (intro u64_of_nat) simp
  have "sorted (map ch_Index (map (chunk_at bs s) [0..<n]))"
    by (auto simp: sorted_iff_nth_mono chunk_at_def word_le_nat_alt u)
  then show "sort_key ch_Index (map (chunk_at bs s) [0..<n]) = map (chunk_at bs s) [0..<n]"
    by (rule sort_key_id_if_sorted)
  show "distinct (map ch_Index (map (chunk_at bs s) [0..<n]))"
    by (auto simp: distinct_map inj_on_def chunk_at_def word_unat_eq_iff u)
qed

section \<open>Chunk proofs\<close>

interpretation da: duplicating_tree parentHash .

lemma findPosition_Some_aux:
  "foldl (\<lambda>target (position, c). if ch_Index c = index then Some position else target) acc (enumerate n cs) = Some i
   \<Longrightarrow> acc = Some i \<or> (\<exists>j < length cs. i = n + j \<and> ch_Index (cs ! j) = index)"
proof (induction cs arbitrary: acc n)
  case (Cons c cs)
  from Cons.IH [of "if ch_Index c = index then Some n else acc" "Suc n"] Cons.prems
  consider "(if ch_Index c = index then Some n else acc) = Some i"
    | j where "j < length cs" "i = Suc n + j" "ch_Index (cs ! j) = index"
    by auto
  then show ?case
  proof cases
    case 1
    then show ?thesis
      by (cases "ch_Index c = index") (auto intro!: exI [of _ 0])
  next
    case 2
    then show ?thesis
      by (intro disjI2 exI [of _ "Suc j"]) simp
  qed
qed simp

lemma findPosition_Some:
  "findPosition cs index = Some i \<Longrightarrow> i < length cs \<and> ch_Index (cs ! i) = index"
  using findPosition_Some_aux [of index None 0 cs i] by (auto simp: findPosition_def)

lemma climb_siblings:
  "foldl (\<lambda>h s. if sib_Left s then parentHash (sib_Hash s) h else parentHash h (sib_Hash s)) h
     (map (\<lambda>(left, h). \<lparr>sib_Hash = h, sib_Left = left\<rparr>) path) = merkle_climb parentHash h path"
  by (induction path arbitrary: h) auto

lemma BuildChunkProofFromChunks_verifies:
  assumes "BuildChunkProofFromChunks chunks chunkSize index = Inr p" and "chunkSize \<noteq> 0"
  shows "VerifyChunkProof p = None \<and> chp_Commitment p = chunkRoot chunks \<and> chp_Index p = index
    \<and> \<lparr>ch_Index = index, ch_Data = chp_Data p\<rparr> \<in> set chunks"
proof -
  define ordered where "ordered = sort_key ch_Index chunks"
  have so: "sort_key ch_Index ordered = ordered" "set ordered = set chunks" "length ordered = length chunks"
    by (simp_all add: ordered_def sort_key_id_if_sorted)
  from assms(1) obtain i where lt: "index < u64_len chunks"
    and ok: "\<forall>c \<in> set ordered. ch_Index c < u64_len ordered \<and> u64_len (ch_Data c) \<le> chunkSize"
    and i: "findPosition ordered index = Some i"
    and p: "p = \<lparr>chp_Commitment = da_merkleRoot (chunkLeaves ordered), chp_ChunkSize = chunkSize,
                 chp_ChunkCount = u64_len ordered, chp_Index = index, chp_Data = ch_Data (ordered ! i),
                 chp_Path = da_merklePath (chunkLeaves ordered) i\<rparr>"
    by (auto simp: BuildChunkProofFromChunks_def Let_def ordered_def [symmetric] list_ex_iff not_le not_less
        split: if_splits option.splits)
  note fi = findPosition_Some [OF i]
  let ?leaves = "chunkLeaves ordered"
  have leaves: "?leaves = map chunkLeaf ordered"
    by (simp add: chunkLeaves_def so)
  have c: "ordered ! i = \<lparr>ch_Index = index, ch_Data = ch_Data (ordered ! i)\<rparr>"
    using fi by simp
  have mem: "ordered ! i \<in> set ordered"
    using fi by simp
  have "merkle_climb parentHash (?leaves ! i) (da.path ?leaves i) = da.root ?leaves"
    by (rule da.path_root) (simp add: leaves fi)
  moreover have "?leaves ! i = chunkLeaf \<lparr>ch_Index = index, ch_Data = ch_Data (ordered ! i)\<rparr>"
    using fi arg_cong [OF c, of chunkLeaf] by (simp add: leaves)
  moreover have "?leaves \<noteq> []"
    using fi by (auto simp: leaves)
  ultimately have "foldl (\<lambda>h s. if sib_Left s then parentHash (sib_Hash s) h else parentHash h (sib_Hash s))
      (chunkLeaf \<lparr>ch_Index = index, ch_Data = ch_Data (ordered ! i)\<rparr>) (da_merklePath ?leaves i)
      = da_merkleRoot ?leaves"
    by (simp add: da_merklePath_def climb_siblings da_merkleRoot_def)
  moreover have "u64_len (ch_Data (ordered ! i)) \<le> chunkSize"
    using ok mem by blast
  moreover have "u64_len ordered = u64_len chunks"
    by (simp add: u64_len_def so)
  moreover have "chunkRoot chunks = da_merkleRoot ?leaves"
    by (simp add: chunkRoot_def chunkLeaves_def so ordered_def [symmetric])
  moreover have "\<lparr>ch_Index = index, ch_Data = ch_Data (ordered ! i)\<rparr> \<in> set chunks"
    using mem so(2) by (subst c [symmetric]) simp
  ultimately show ?thesis
    using lt assms(2) by (auto simp: p VerifyChunkProof_def not_le not_less)
qed

section \<open>The commitment binds the transactions\<close>

text \<open>The chunks behind the commitment and every byte string hashed for it.\<close>

definition da_chunks :: "Tx list \<Rightarrow> Chunk list" where
  "da_chunks txs = map (chunk_at (encodeTransactions txs) 1024)
     [0..<chunk_count (length (encodeTransactions txs)) 1024]"

definition da_preimages :: "Tx list \<Rightarrow> bytes list" where
  "da_preimages txs =
     map chunk_preimage (da_chunks txs)
     @ map parent_preimage (merkle_inputs parentHash (map chunkLeaf (da_chunks txs)))"

lemma length_encodeTransactions:
  "0 < length (encodeTransactions txs)" "length txs \<le> length (encodeTransactions txs)"
  "tx \<in> set txs \<Longrightarrow> length tx \<le> length (encodeTransactions txs)"
proof -
  show "0 < length (encodeTransactions txs)"
    by (simp add: encodeTransactions_def)
  have "length xs \<le> length (concat (map tx_frame xs))" for xs
    by (induction xs) (simp_all add: tx_frame_def)
  then show "length txs \<le> length (encodeTransactions txs)"
    by (simp add: encodeTransactions_frames trans_le_add2)
  have "tx \<in> set xs \<Longrightarrow> length tx \<le> length (concat (map tx_frame xs))" for xs
    by (induction xs) (auto simp: tx_frame_def)
  then show "tx \<in> set txs \<Longrightarrow> length tx \<le> length (encodeTransactions txs)"
    by (simp add: encodeTransactions_frames trans_le_add2)
qed

lemma da_chunks_bounds:
  assumes "length (encodeTransactions txs) < 2 ^ 62"
  shows "length (da_chunks txs) < 2 ^ 64" "da_chunks txs \<noteq> []" "concat (map ch_Data (da_chunks txs)) = encodeTransactions txs"
proof -
  note b = chunk_count_bounds [OF length_encodeTransactions(1), of 1024 txs]
  show "length (da_chunks txs) < 2 ^ 64" "da_chunks txs \<noteq> []"
    using b(1,3) assms by (simp_all add: da_chunks_def)
  have "length (encodeTransactions txs) \<le> chunk_count (length (encodeTransactions txs)) 1024 * 1024"
    by (rule b(2)) simp
  then show "concat (map ch_Data (da_chunks txs)) = encodeTransactions txs"
    by (simp only: da_chunks_def chunk_data take_all)
qed

lemma Commitment_root:
  assumes "length (encodeTransactions txs) < 2 ^ 62"
  shows "Commitment txs = da.root (map chunkLeaf (da_chunks txs))"
proof -
  have "splitChunks (encodeTransactions txs) DefaultChunkSize = Inr (da_chunks txs)"
    using splitChunks_ok [of DefaultChunkSize "encodeTransactions txs"] length_encodeTransactions(1) [of txs] assms
    by (simp add: DefaultChunkSize_def da_chunks_def)
  moreover have "chunkLeaves (da_chunks txs) = map chunkLeaf (da_chunks txs)"
    using chunks_sorted(1) da_chunks_bounds(1) [OF assms] by (simp add: chunkLeaves_def da_chunks_def)
  ultimately show ?thesis
    using da_chunks_bounds(2) [OF assms]
    by (simp add: Commitment_def BuildProof_def BuildProofWithOptions_def BuildProofWithErasureOptions_def
        DefaultDataShards_def DefaultParityShards_def maxErasureShards_def chunkRoot_def da_merkleRoot_def Let_def)
qed

lemma parent_preimage_inj: "parent_preimage x = parent_preimage y \<longleftrightarrow> x = y"
  by (cases x; cases y) (simp add: parent_preimage_def)

lemma chunk_parent_disjoint: "chunk_preimage c \<noteq> parent_preimage x"
  by (cases x) (simp add: chunk_preimage_def parent_preimage_def)

lemma chunk_preimage_inj:
  assumes "chunk_preimage c = chunk_preimage d" and "length (ch_Data c) < 2 ^ 64" "length (ch_Data d) < 2 ^ 64"
  shows "c = d"
  using assms by (simp add: chunk_preimage_def)

lemma chunk_length:
  assumes "length (encodeTransactions txs) < 2 ^ 62" and "c \<in> set (da_chunks txs)"
  shows "length (ch_Data c) < 2 ^ 64"
  using assms by (auto simp: da_chunks_def chunk_at_def)

lemma da_chunks_nth:
  "i < length (da_chunks txs) \<Longrightarrow> ch_Index (da_chunks txs ! i) = word_of_nat i"
  by (simp add: da_chunks_def chunk_at_def)

lemma da_chunks_subset:
  assumes bx: "length (encodeTransactions xs) < 2 ^ 62" and bY: "length (encodeTransactions ys) < 2 ^ 62"
    and inj: "inj_on sha256 (set (da_preimages xs) \<union> set (da_preimages ys))"
    and eq: "Commitment xs = Commitment ys" and j: "j < length (da_chunks ys)"
  shows "j < length (da_chunks xs) \<and> da_chunks xs ! j = da_chunks ys ! j"
proof -
  let ?X = "map chunkLeaf (da_chunks xs)" and ?Y = "map chunkLeaf (da_chunks ys)"
  let ?N = "set (merkle_inputs parentHash ?X) \<union> set (merkle_inputs parentHash ?Y)"
  have node: "inj_on (\<lambda>(l, r). parentHash l r) ?N"
  proof (rule inj_onI)
    fix x y
    assume xy: "x \<in> ?N" "y \<in> ?N" and "(\<lambda>(l, r). parentHash l r) x = (\<lambda>(l, r). parentHash l r) y"
    then have "sha256 (parent_preimage x) = sha256 (parent_preimage y)"
      by (simp add: parentHash_def split: prod.splits)
    with inj have "parent_preimage x = parent_preimage y"
      by (rule inj_onD) (use xy in \<open>auto simp: da_preimages_def\<close>)
    then show "x = y"
      by (simp add: parent_preimage_inj)
  qed
  have leaf: "x \<noteq> parentHash l r" if x: "x \<in> set ?X \<union> set ?Y" and lr: "(l, r) \<in> ?N" for x l r
  proof
    assume "x = parentHash l r"
    moreover from x obtain c where c: "x = sha256 (chunk_preimage c)" "c \<in> set (da_chunks xs) \<union> set (da_chunks ys)"
      by (auto simp: chunkLeaf_def)
    ultimately have "sha256 (chunk_preimage c) = sha256 (parent_preimage (l, r))"
      by (simp add: parentHash_def)
    with inj have "chunk_preimage c = parent_preimage (l, r)"
      by (rule inj_onD) (use c(2) lr in \<open>auto simp: da_preimages_def\<close>)
    then show False
      by (simp add: chunk_parent_disjoint)
  qed
  have "da.root ?X = da.root ?Y"
    using eq Commitment_root [OF bx] Commitment_root [OF bY] by simp
  moreover have "?X \<noteq> []" "?Y \<noteq> []"
    using da_chunks_bounds(2) bx bY by auto
  ultimately obtain i where i: "i < length (da_chunks xs)" "?X ! i = ?Y ! j"
    using da.tree_binding [OF _ _ _ node leaf, of j] j by auto
  then have "sha256 (chunk_preimage (da_chunks xs ! i)) = sha256 (chunk_preimage (da_chunks ys ! j))"
    using j by (simp add: chunkLeaf_def)
  with inj have "chunk_preimage (da_chunks xs ! i) = chunk_preimage (da_chunks ys ! j)"
    by (rule inj_onD) (use i(1) j in \<open>auto simp: da_preimages_def\<close>)
  then have c: "da_chunks xs ! i = da_chunks ys ! j"
    using chunk_length [OF bx nth_mem [OF i(1)]] chunk_length [OF bY nth_mem [OF j]]
    by (rule chunk_preimage_inj)
  then have "(word_of_nat i :: u64) = word_of_nat j"
    using da_chunks_nth [OF i(1)] da_chunks_nth [OF j] by simp
  moreover have "unat (word_of_nat i :: u64) = i" "unat (word_of_nat j :: u64) = j"
    using i(1) j da_chunks_bounds(1) [OF bx] da_chunks_bounds(1) [OF bY] by (auto intro!: u64_of_nat)
  ultimately have "i = j"
    by metis
  with c i show ?thesis
    by simp
qed

lemma Commitment_binding:
  assumes "length (encodeTransactions xs) < 2 ^ 62" and "length (encodeTransactions ys) < 2 ^ 62"
    and "inj_on sha256 (set (da_preimages xs) \<union> set (da_preimages ys))" and "Commitment xs = Commitment ys"
  shows "xs = ys"
proof -
  have inj': "inj_on sha256 (set (da_preimages ys) \<union> set (da_preimages xs))"
    using assms(3) by (simp add: Un_commute)
  have "length (da_chunks xs) = length (da_chunks ys)"
    using da_chunks_subset [OF assms] da_chunks_subset [OF assms(2,1) inj' assms(4) [symmetric]]
    by (metis less_irrefl linorder_neqE_nat)
  then have "da_chunks xs = da_chunks ys"
    using da_chunks_subset [OF assms] by (intro nth_equalityI) auto
  then have "encodeTransactions xs = encodeTransactions ys"
    using da_chunks_bounds(3) assms(1,2) by metis
  moreover have "length xs < 2 ^ 64" "length ys < 2 ^ 64" "\<forall>tx \<in> set xs \<union> set ys. length tx < 2 ^ 64"
    using assms(1,2) length_encodeTransactions(2) [of xs] length_encodeTransactions(2) [of ys]
      length_encodeTransactions(3) [of _ xs] length_encodeTransactions(3) [of _ ys] by fastforce+
  ultimately show ?thesis
    by (rule encodeTransactions_inj)
qed

section \<open>Sampling\<close>

lemma unat_u64_len: "length xs < 2 ^ 64 \<Longrightarrow> unat (u64_len xs) = length xs"
  by (simp add: u64_len_def u64_of_nat)

lemma sampleIndex_less: "chunkCount \<noteq> 0 \<Longrightarrow> sampleIndex seed chunkCount counter < chunkCount"
  by (simp add: sampleIndex_def word_less_nat_alt unat_mod unat_gt_0)


lemma sampleLoop_Some:
  assumes "sampleLoop seed chunkCount samples counter indices = Some r" and "chunkCount \<noteq> 0"
    and "distinct indices" and "\<forall>i \<in> set indices. i < chunkCount" and "length indices \<le> unat samples"
  shows "distinct r \<and> (\<forall>i \<in> set r. i < chunkCount) \<and> length r = unat samples"
proof -
  have "chunkCount \<noteq> 0 \<longrightarrow> distinct indices \<longrightarrow> (\<forall>i \<in> set indices. i < chunkCount)
      \<longrightarrow> length indices \<le> unat samples
      \<longrightarrow> distinct r \<and> (\<forall>i \<in> set r. i < chunkCount) \<and> length r = unat samples"
  proof (rule sampleLoop.raw_induct [OF _ assms(1)], intro impI)
    fix loop seed chunkCount samples counter indices and r :: "u64 list"
    assume ih: "\<And>seed chunkCount samples counter indices r. loop seed chunkCount samples counter indices = Some r \<Longrightarrow>
        chunkCount \<noteq> 0 \<longrightarrow> distinct indices \<longrightarrow> (\<forall>i \<in> set indices. i < chunkCount)
        \<longrightarrow> length indices \<le> unat samples
        \<longrightarrow> distinct r \<and> (\<forall>i \<in> set r. i < chunkCount) \<and> length r = unat samples"
      and body: "(if u64_len indices < samples then
          let index = sampleIndex seed chunkCount counter in
          if index \<in> set indices then loop seed chunkCount samples (counter + 1) indices
          else loop seed chunkCount samples (counter + 1) (indices @ [index])
        else Some indices) = Some r"
      and prems: "chunkCount \<noteq> 0" "distinct indices" "\<forall>i \<in> set indices. i < chunkCount"
        "length indices \<le> unat samples"
    have len: "unat (u64_len indices) = length indices"
      using prems(4) unat_u64_less [of samples] by (intro unat_u64_len) simp
    show "distinct r \<and> (\<forall>i \<in> set r. i < chunkCount) \<and> length r = unat samples"
    proof (cases "u64_len indices < samples")
      case True
      then have lt: "length indices < unat samples"
        by (simp add: word_less_nat_alt len)
      let ?i = "sampleIndex seed chunkCount counter"
      let ?next = "if ?i \<in> set indices then indices else indices @ [?i]"
      have "loop seed chunkCount samples (counter + 1) ?next = Some r"
        using True body by (simp add: Let_def split: if_splits)
      from ih [OF this] lt prems sampleIndex_less [OF prems(1), of seed counter] show ?thesis
        by (cases "?i \<in> set indices") simp_all
    next
      case False
      with body prems show ?thesis
        by (simp add: word_less_nat_alt len)
    qed
  qed
  with assms show ?thesis
    by blast
qed

lemma sampleLoop_returns:
  fixes f :: "nat \<Rightarrow> u64"
  assumes f: "f = (\<lambda>k. sampleIndex seed chunkCount (word_of_nat k))"
    and "unat samples \<le> card (f ` {..<n})" and "m \<le> n"
    and "set indices = f ` {..<m}" and "distinct indices" and "length indices \<le> unat samples"
  shows "\<exists>r. sampleLoop seed chunkCount samples (word_of_nat m) indices = Some r"
  using assms(3-6)
proof (induction "n - m" arbitrary: m indices)
  case 0
  then have "length indices = unat samples"
    using assms(2) by (metis diff_is_0_eq distinct_card le_antisym)
  then have "\<not> u64_len indices < samples"
    by (simp add: u64_len_def)
  then show ?case
    by (subst sampleLoop.simps) simp
next
  case (Suc k)
  then have "m < n" and k: "k = n - Suc m"
    by auto
  have step: "(word_of_nat m + 1 :: u64) = word_of_nat (Suc m)"
    by (simp add: add.commute)
  show ?case
  proof (cases "u64_len indices < samples")
    case True
    show ?thesis
    proof (cases "f m \<in> set indices")
      case in_set: True
      have "\<exists>r. sampleLoop seed chunkCount samples (word_of_nat (Suc m)) indices = Some r"
        using in_set Suc.prems k \<open>m < n\<close> by (intro Suc.hyps(1)) (auto simp: lessThan_Suc)
      with True in_set show ?thesis
        by (subst sampleLoop.simps) (simp add: Let_def f step)
    next
      case False
      have "length indices < unat samples"
        using True Suc.prems(4) unat_u64_less [of samples] by (simp add: word_less_nat_alt unat_u64_len)
      then have "\<exists>r. sampleLoop seed chunkCount samples (word_of_nat (Suc m)) (indices @ [f m]) = Some r"
        using False Suc.prems k \<open>m < n\<close> by (intro Suc.hyps(1)) (auto simp: lessThan_Suc)
      with True False show ?thesis
        by (subst sampleLoop.simps) (simp add: Let_def f step)
    qed
  next
    case False
    then show ?thesis
      by (subst sampleLoop.simps) simp
  qed
qed

lemma requestedSet_Inr:
  "requestedSet n indices acc = Inr r \<Longrightarrow> distinct acc \<Longrightarrow>
     r = acc @ indices \<and> distinct r \<and> (\<forall>i \<in> set indices. i < n)"
  by (induction n indices acc rule: requestedSet.induct) (auto split: if_splits simp: not_le)

lemma verifiedSet_Inr:
  "verifiedSet request requested proofs acc = Inr r \<Longrightarrow> distinct acc \<Longrightarrow> set acc \<subseteq> set requested \<Longrightarrow>
     distinct r \<and> set r = set acc \<union> chp_Index ` set proofs \<and> set r \<subseteq> set requested
     \<and> (\<forall>p \<in> set proofs. VerifyChunkProof p = None \<and> chp_Commitment p = sr_Commitment request
          \<and> chp_ChunkCount p = sr_ChunkCount request)"
proof (induction proofs arbitrary: acc)
  case (Cons p proofs)
  from Cons.prems(1) have p: "chp_Commitment p = sr_Commitment request" "chp_ChunkCount p = sr_ChunkCount request"
      "chp_Index p \<in> set requested" "chp_Index p \<notin> set acc" "VerifyChunkProof p = None"
    and rec: "verifiedSet request requested proofs (acc @ [chp_Index p]) = Inr r"
    by (simp_all split: if_splits option.splits)
  from Cons.IH [OF rec] p Cons.prems(2,3) show ?case
    by auto
qed simp

lemma VerifySamples_Inr:
  assumes "VerifySamples request proofs = Inr rep"
  shows "set (rep_VerifiedIndices rep) = set (sr_Indices request)
    \<and> chp_Index ` set proofs = set (sr_Indices request)
    \<and> (\<forall>p \<in> set proofs. VerifyChunkProof p = None \<and> chp_Commitment p = sr_Commitment request
         \<and> chp_ChunkCount p = sr_ChunkCount request)"
proof -
  from assms obtain req ver where
    r: "requestedSet (sr_ChunkCount request) (sr_Indices request) [] = Inr req"
    and v: "verifiedSet request req proofs [] = Inr ver" and len: "length ver = length req"
    and rep: "rep_VerifiedIndices rep = sort ver"
    by (auto simp: VerifySamples_def Let_def split: if_splits sum.splits)
  from requestedSet_Inr [OF r] have req: "req = sr_Indices request" "distinct req"
    by auto
  from verifiedSet_Inr [OF v] have ver: "distinct ver" "set ver = chp_Index ` set proofs" "set ver \<subseteq> set req"
    "\<forall>p \<in> set proofs. VerifyChunkProof p = None \<and> chp_Commitment p = sr_Commitment request
       \<and> chp_ChunkCount p = sr_ChunkCount request"
    by auto
  have "set ver = set req"
    using ver(1,3) req(2) len by (intro card_subset_eq) (auto simp: distinct_card)
  with ver req rep show ?thesis
    by simp
qed

section \<open>Properties\<close>

text \<open>
  The transaction encoding and its decoder are inverse to each other: an encoded list is decoded to itself,
  and data that decodes to a list is the encoding of that list, so no two byte strings decode to the same
  transactions.
\<close>

theorem transactions_roundtrip:
  "(length txs \<le> maxCap \<and> length txs < 2 ^ 64 \<and> list_all (\<lambda>tx. length tx < 2 ^ 64) txs \<longrightarrow>
      decodeTransactions maxCap (encodeTransactions txs) = Inr txs)
   \<and> (decodeTransactions maxCap bs = Inr txs \<longrightarrow> encodeTransactions txs = bs)"
  using decode_encode [of txs maxCap] encode_decode [of maxCap bs txs] by (auto simp: list_all_iff)

theorem transactions_roundtrip_witness:
  "decodeTransactions 100 (encodeTransactions [''ab'', [], ''c'']) = Inr [''ab'', [], ''c'']"
  using transactions_roundtrip [of "[''ab'', [], ''c'']" 100] by simp

text \<open>
  C14: The data-availability commitment binds the transactions: two lists with the same commitment are equal,
  unless two different byte strings among those hashed for the two commitments have the same SHA-256 digest.
  The bound on the encoded size keeps the signed 64-bit arithmetic of the chunking from wrapping around.
\<close>

theorem commitment_binds_transactions:
  assumes "length (encodeTransactions xs) < 2 ^ 62" and "length (encodeTransactions ys) < 2 ^ 62"
    and "Commitment xs = Commitment ys"
  shows "xs = ys
    \<or> (\<exists>a b. a \<in> set (da_preimages xs @ da_preimages ys) \<and> b \<in> set (da_preimages xs @ da_preimages ys)
         \<and> a \<noteq> b \<and> sha256 a = sha256 b)"
proof (cases "inj_on sha256 (set (da_preimages xs) \<union> set (da_preimages ys))")
  case True
  with assms show ?thesis
    using Commitment_binding by blast
next
  case False
  then show ?thesis
    by (auto simp: inj_on_def)
qed

theorem commitment_binds_transactions_witness:
  "\<exists>xs ys. Commitment xs = Commitment ys \<and> xs = [''transfer''] \<and>
    (xs = ys \<or> (\<exists>a b. a \<in> set (da_preimages xs @ da_preimages ys) \<and> b \<in> set (da_preimages xs @ da_preimages ys)
         \<and> a \<noteq> b \<and> sha256 a = sha256 b))"
  using commitment_binds_transactions [of "[''transfer'']" "[''transfer'']"]
  by (intro exI [of _ "[''transfer'']"]) (simp add: encodeTransactions_def)

text \<open>
  A chunk proof that is built for an index is accepted against the commitment of the chunks, and it carries
  the chunk of that index.
\<close>

theorem chunk_proof_complete:
  assumes "BuildChunkProofFromChunks chunks chunkSize index = Inr p" and "chunkSize \<noteq> 0"
  shows "VerifyChunkProof p = None \<and> chp_Commitment p = chunkRoot chunks \<and> chp_Index p = index
    \<and> \<lparr>ch_Index = index, ch_Data = chp_Data p\<rparr> \<in> set chunks"
  using assms by (rule BuildChunkProofFromChunks_verifies)

definition ex_chunks :: "Chunk list" where
  "ex_chunks = [\<lparr>ch_Index = 2, ch_Data = ''c''\<rparr>, \<lparr>ch_Index = 0, ch_Data = ''aa''\<rparr>, \<lparr>ch_Index = 1, ch_Data = ''bb''\<rparr>]"

theorem chunk_proof_complete_witness:
  "\<exists>p. BuildChunkProofFromChunks ex_chunks 2 2 = Inr p \<and> VerifyChunkProof p = None \<and> chp_Data p = ''c''"
proof -
  have sorted: "sort_key ch_Index ex_chunks =
      [\<lparr>ch_Index = 0, ch_Data = ''aa''\<rparr>, \<lparr>ch_Index = 1, ch_Data = ''bb''\<rparr>, \<lparr>ch_Index = 2, ch_Data = ''c''\<rparr>]"
    by (simp add: ex_chunks_def word_le_nat_alt)
  have "\<exists>p. BuildChunkProofFromChunks ex_chunks 2 2 = Inr p"
    by (simp add: BuildChunkProofFromChunks_def sorted Let_def u64_len_def findPosition_def)
       (simp add: ex_chunks_def word_le_nat_alt)
  then obtain p where p: "BuildChunkProofFromChunks ex_chunks 2 2 = Inr p"
    by blast
  from chunk_proof_complete [OF p] p show ?thesis
    by (auto simp: ex_chunks_def)
qed

text \<open>
  A sample report that is accepted covers the request: the indices it reports are exactly the requested
  ones, and each has a chunk proof that verifies against the requested commitment.
\<close>

theorem samples_cover_request:
  assumes "VerifySamples request proofs = Inr rep"
  shows "set (rep_VerifiedIndices rep) = set (sr_Indices request)
    \<and> (\<forall>i. i \<in> set (sr_Indices request) \<longrightarrow>
         (\<exists>p. p \<in> set proofs \<and> chp_Index p = i \<and> VerifyChunkProof p = None
              \<and> chp_Commitment p = sr_Commitment request))"
  using VerifySamples_Inr [OF assms] by (metis imageE)

text \<open>The only chunk of a list of one transaction; its hash is the commitment of the list.\<close>

definition ex_data :: bytes where
  "ex_data = encodeTransactions [''x'']"

definition ex_chunk_proof :: ChunkProof where
  "ex_chunk_proof = \<lparr>chp_Commitment = Commitment [''x''], chp_ChunkSize = 32,
     chp_ChunkCount = 1, chp_Index = 0, chp_Data = ex_data, chp_Path = []\<rparr>"

definition ex_request :: SampleRequest where
  "ex_request = \<lparr>sr_Commitment = Commitment [''x''], sr_Height = 9, sr_ChunkCount = 1,
     sr_Indices = [0], sr_Seed = 0\<rparr>"

lemma ex_data_eq: "ex_data = replicate 7 (CHR 0x00) @ [CHR 0x01] @ replicate 7 (CHR 0x00) @ [CHR 0x01] @ ''x''"
proof -
  have "char_of (1 :: nat) = CHR 0x01" by code_simp
  with be64_small [of 1] show ?thesis
    by (simp add: ex_data_def encodeTransactions_def u64_len_def)
qed

lemma ex_preimage: "chunk_preimage \<lparr>ch_Index = 0, ch_Data = ex_data\<rparr> =
  replicate 16 (CHR 0x00) @ [CHR 0x11] @ replicate 7 (CHR 0x00) @ [CHR 0x01] @ replicate 7 (CHR 0x00) @ [CHR 0x01] @ ''x''"
proof -
  have c: "char_of (17 :: nat) = CHR 0x11" "char_of (0 :: nat) = CHR 0x00" by code_simp+
  have "length ex_data = 17"
    by (simp add: ex_data_eq)
  with be64_small [of 17] be64_small [of 0] c show ?thesis
    by (simp add: chunk_preimage_def u64_len_def ex_data_eq numeral_eq_Suc)
qed

lemma ex_leaf_nonzero: "chunkLeaf \<lparr>ch_Index = 0, ch_Data = ex_data\<rparr> \<noteq> 0"
  unfolding chunkLeaf_def ex_preimage
  by code_simp

lemma length_ex_data: "length ex_data = 17"
  by (simp add: ex_data_eq)

lemma ex_Commitment: "Commitment [''x''] = chunkLeaf \<lparr>ch_Index = 0, ch_Data = ex_data\<rparr>"
proof -
  have "da_chunks [''x''] = [\<lparr>ch_Index = 0, ch_Data = ex_data\<rparr>]"
    using length_ex_data by (simp add: da_chunks_def chunk_count_def chunk_at_def flip: ex_data_def)
  with Commitment_root [of "[''x'']"] length_ex_data show ?thesis
    by (simp add: merkle_loop.simps flip: ex_data_def)
qed

theorem samples_cover_request_witness:
  "\<exists>rep. VerifySamples ex_request [ex_chunk_proof] = Inr rep \<and> set (rep_VerifiedIndices rep) = {0}"
proof -
  have "\<exists>rep. VerifySamples ex_request [ex_chunk_proof] = Inr rep"
    using ex_leaf_nonzero length_ex_data
    by (simp add: VerifySamples_def ex_request_def ex_chunk_proof_def VerifyChunkProof_def u64_len_def
        word_less_nat_alt ex_Commitment)
  then obtain rep where "VerifySamples ex_request [ex_chunk_proof] = Inr rep"
    by blast
  with samples_cover_request [OF this] show ?thesis
    by (auto simp: ex_request_def)
qed

end
