(* ===== verification/Economics.thy ===== *)
theory Economics
  imports GoStrings VexoTypes
begin

text \<open>
  Package \<^verbatim>\<open>economics\<close>: amounts with denominations (\<^verbatim>\<open>amount.go\<close>) and the base-fee controller
  (\<^verbatim>\<open>base_fee.go\<close>).  Printed amounts are read back, the base fee stays within its bounds and follows the
  intended formula as long as the product in it does not overflow, and the overflow branch is shown to make
  the fee collapse.
\<close>

section \<open>Amounts (amount.go)\<close>

record DenomUnit =
  du_Denom :: string
  du_Exponent :: nat
  du_Factor :: u64

definition GigaFactor :: u64 where
  "GigaFactor = 1000000000"

definition DisplayFactor :: u64 where
  "DisplayFactor = 1000000000000000000"

definition Units :: "DenomUnit list" where
  "Units =
     [\<lparr>du_Denom = ''vexo'', du_Exponent = 18, du_Factor = DisplayFactor\<rparr>,
      \<lparr>du_Denom = ''gvxo'', du_Exponent = 9, du_Factor = GigaFactor\<rparr>,
      \<lparr>du_Denom = ''avxo'', du_Exponent = 0, du_Factor = 1\<rparr>]"

definition decimalDigits :: "string \<Rightarrow> bool" where
  "decimalDigits value \<longleftrightarrow> value \<noteq> [] \<and> list_all isDigit value"

text \<open>Big integers are natural numbers here: every amount is a product or sum of digits.\<close>

definition parseDecimalAmountBig :: "string \<Rightarrow> DenomUnit \<Rightarrow> nat option" where
  "parseDecimalAmountBig number unit =
     (let number = TrimSpace number in
      if number = [] \<or> prefix ''-'' number \<or> prefix ''+'' number then None
      else
        let (whole, fraction, hasFraction) =
              (case cutOn CHR ''.'' number of None \<Rightarrow> (number, [], False) | Some (w, f) \<Rightarrow> (w, f, True));
            whole = (if whole = [] then ''0'' else whole)
        in if \<not> decimalDigits whole then None
           else if hasFraction \<and> \<not> decimalDigits fraction then None
           else if du_Exponent unit < length fraction then None
           else
             let amount = parseDec whole * unat (du_Factor unit) in
             if \<not> hasFraction \<or> fraction = [] then Some amount
             else
               let padded = fraction @ replicate (du_Exponent unit - length fraction) CHR ''0'' in
               Some (amount + parseDec padded))"

text \<open>The loop over the units: the first denomination that the value ends with decides.\<close>

fun parseUnits :: "string \<Rightarrow> DenomUnit list \<Rightarrow> nat option" where
  "parseUnits value [] = None"
| "parseUnits value (unit # units) =
     (case cutSuffix value (du_Denom unit) of
        None \<Rightarrow> parseUnits value units
      | Some number \<Rightarrow> parseDecimalAmountBig number unit)"

definition ParseAmountBig :: "string \<Rightarrow> nat option" where
  "ParseAmountBig input =
     (let value = TrimSpace (ToLower input) in
      if value = [] then None
      else if decimalDigits value then Some (parseDec value)
      else parseUnits value Units)"

definition ParseAmount :: "string \<Rightarrow> u64 option" where
  "ParseAmount input =
     (case ParseAmountBig input of
        None \<Rightarrow> None
      | Some amount \<Rightarrow> if amount < 2 ^ 64 then Some (word_of_nat amount) else None)"

definition parseDecimalAmount :: "string \<Rightarrow> DenomUnit \<Rightarrow> u64 option" where
  "parseDecimalAmount number unit =
     (case parseDecimalAmountBig number unit of
        None \<Rightarrow> None
      | Some amount \<Rightarrow> if amount < 2 ^ 64 then Some (word_of_nat amount) else None)"

definition DenomFactor :: "string \<Rightarrow> u64 option" where
  "DenomFactor denom =
     map_option du_Factor (find (\<lambda>unit. du_Denom unit = TrimSpace (ToLower denom)) Units)"

section \<open>Base fee (base_fee.go)\<close>

record BaseFeeParams =
  bf_CurrentBaseFee :: u64
  bf_GasUsed :: u64
  bf_TargetGas :: u64
  bf_ChangeDenominator :: u64
  bf_MinBaseFee :: u64
  bf_MaxBaseFee :: u64

definition clampBaseFee :: "u64 \<Rightarrow> u64 \<Rightarrow> u64 \<Rightarrow> u64" where
  "clampBaseFee value minBaseFee maxBaseFee =
     (let value = (if value < minBaseFee then minBaseFee else value) in
      if 0 < maxBaseFee \<and> maxBaseFee < value then maxBaseFee else value)"

definition baseFeeDelta :: "u64 \<Rightarrow> u64 \<Rightarrow> u64 \<Rightarrow> u64 \<Rightarrow> u64" where
  "baseFeeDelta current gasDelta targetGas denominator =
     (if current = 0 \<or> gasDelta = 0 \<or> targetGas = 0 \<or> denominator = 0 then 0
      else if max_u64 div gasDelta < current then max_u64 div denominator
      else (current * gasDelta div targetGas) div denominator)"

definition NextBaseFee :: "BaseFeeParams \<Rightarrow> u64" where
  "NextBaseFee params =
     (let current = bf_CurrentBaseFee params;
          minFee = bf_MinBaseFee params;
          maxFee = bf_MaxBaseFee params
      in
      if current = 0 \<or> bf_TargetGas params = 0 \<or> bf_ChangeDenominator params = 0 then current
      else if bf_GasUsed params = bf_TargetGas params then clampBaseFee current minFee maxFee
      else if bf_TargetGas params < bf_GasUsed params then
        let delta = baseFeeDelta current (bf_GasUsed params - bf_TargetGas params) (bf_TargetGas params)
                      (bf_ChangeDenominator params);
            delta = (if delta = 0 then 1 else delta)
        in if max_u64 - delta < current then clampBaseFee max_u64 minFee maxFee
           else clampBaseFee (current + delta) minFee maxFee
      else
        let delta = baseFeeDelta current (bf_TargetGas params - bf_GasUsed params) (bf_TargetGas params)
                      (bf_ChangeDenominator params)
        in if current \<le> delta then clampBaseFee 0 minFee maxFee
           else clampBaseFee (current - delta) minFee maxFee)"

section \<open>Amounts are read back\<close>

lemma digit_not_space: "c \<in> set ''0123456789'' \<Longrightarrow> \<not> spaceByte c"
proof -
  have "list_all (\<lambda>c. \<not> spaceByte c) ''0123456789''"
    by (simp add: spaceByte_def spaceSeqs_def)
  then show "c \<in> set ''0123456789'' \<Longrightarrow> \<not> spaceByte c"
    unfolding list_all_iff by blast
qed

lemma digit_lower: "c \<in> set ''0123456789'' \<Longrightarrow> toLowerChar c = c"
proof -
  have "list_all (\<lambda>c. toLowerChar c = c) ''0123456789''"
    by (simp add: toLowerChar_def)
  then show "c \<in> set ''0123456789'' \<Longrightarrow> toLowerChar c = c"
    unfolding list_all_iff by blast
qed

lemma TrimSpace_digits:
  assumes "\<forall>c \<in> set d. \<not> spaceByte c"
  shows "TrimSpace (formatDec n @ d) = formatDec n @ d"
  using assms formatDec_digits [of n] digit_not_space by (intro TrimSpace_id) (auto simp del: set_simps)

lemma ToLower_digits: "ToLower (formatDec n @ d) = formatDec n @ ToLower d"
proof -
  have "map toLowerChar (formatDec n) = formatDec n"
    using formatDec_digits [of n] digit_lower by (intro map_idI) blast
  then show ?thesis
    by (simp add: ToLower_def)
qed

lemma decimalDigits_formatDec: "decimalDigits (formatDec n)"
  by (simp add: decimalDigits_def formatDec_isDigit)

lemma ParseAmount_FormatUint: "ParseAmount (FormatUint v) = Some v"
  using TrimSpace_digits [of "[]" "unat v"] ToLower_digits [of "unat v" "[]"] unat_u64_less [of v]
  by (simp add: ParseAmount_def ParseAmountBig_def FormatUint_def decimalDigits_formatDec ToLower_def)

lemma not_digit: "c \<notin> set ''0123456789'' \<Longrightarrow> c \<notin> set (formatDec n)"
  using formatDec_digits by blast

lemma parseDecimalAmountBig_formatDec:
  "parseDecimalAmountBig (formatDec n) unit = Some (n * unat (du_Factor unit))"
proof -
  have "cutOn CHR ''.'' (formatDec n) = None"
    using not_digit [of "CHR ''.''" n] by (simp add: cutOn_def)
  moreover have "\<not> prefix ''-'' (formatDec n)" "\<not> prefix ''+'' (formatDec n)"
    using not_digit [of "CHR ''-''" n] not_digit [of "CHR ''+''" n] by (auto simp: prefix_def)
  moreover have "TrimSpace (formatDec n) = formatDec n"
    using TrimSpace_digits [of "[]" n] by simp
  ultimately show ?thesis
    by (simp add: parseDecimalAmountBig_def decimalDigits_formatDec)
qed

lemma suffix_same_length: "length p = length q \<Longrightarrow> suffix p (s @ q) \<longleftrightarrow> p = q"
  by (auto simp: suffix_def)

lemma not_decimal: "d \<noteq> [] \<Longrightarrow> hd d \<notin> set ''0123456789'' \<Longrightarrow> \<not> decimalDigits (formatDec n @ d)"
  by (cases d) (auto simp: decimalDigits_def isDigit_def)

lemma ParseAmountBig_units:
  "ParseAmountBig (formatDec n @ ''vexo'') = Some (n * 1000000000000000000)"
  "ParseAmountBig (formatDec n @ ''gvxo'') = Some (n * 1000000000)"
  "ParseAmountBig (formatDec n @ ''avxo'') = Some n"
proof -
  have sp: "\<forall>c \<in> set d. \<not> spaceByte c" if "d \<in> {''vexo'', ''gvxo'', ''avxo''}" for d
    using that by (auto simp: spaceByte_def spaceSeqs_def)
  have lo: "ToLower d = d" if "d \<in> {''vexo'', ''gvxo'', ''avxo''}" for d
    using that by (auto simp: ToLower_def toLowerChar_def)
  have nd: "\<not> decimalDigits (formatDec n @ d)" if "d \<in> {''vexo'', ''gvxo'', ''avxo''}" for d
    using that by (intro not_decimal) auto
  have red: "ParseAmountBig (formatDec n @ d) = parseUnits (formatDec n @ d) Units"
    if "d \<in> {''vexo'', ''gvxo'', ''avxo''}" for d
    using TrimSpace_digits [OF sp [OF that], of n] ToLower_digits [of n d] lo [OF that] nd [OF that]
    by (simp add: ParseAmountBig_def)
  show "ParseAmountBig (formatDec n @ ''vexo'') = Some (n * 1000000000000000000)"
    using red [of "''vexo''"] by (simp add: Units_def parseDecimalAmountBig_formatDec DisplayFactor_def)
  show "ParseAmountBig (formatDec n @ ''gvxo'') = Some (n * 1000000000)"
    using red [of "''gvxo''"] cutSuffix_append [of "formatDec n" "''gvxo''"]
    by (simp add: Units_def parseDecimalAmountBig_formatDec GigaFactor_def cutSuffix_def [of _ "''vexo''"]
        suffix_same_length)
  show "ParseAmountBig (formatDec n @ ''avxo'') = Some n"
    using red [of "''avxo''"] cutSuffix_append [of "formatDec n" "''avxo''"]
    by (simp add: Units_def parseDecimalAmountBig_formatDec cutSuffix_def [of _ "''vexo''"]
        cutSuffix_def [of _ "''gvxo''"] suffix_same_length)
qed

section \<open>The base fee against its formula\<close>

text \<open>The intended controller over the natural numbers.\<close>

definition fee_step :: "nat \<Rightarrow> nat \<Rightarrow> nat \<Rightarrow> nat \<Rightarrow> nat" where
  "fee_step current gasDelta targetGas denominator = current * gasDelta div targetGas div denominator"

definition fee_clamp :: "nat \<Rightarrow> nat \<Rightarrow> nat \<Rightarrow> nat" where
  "fee_clamp fee lo hi = (if 0 < hi then min (max fee lo) hi else max fee lo)"

definition fee_spec :: "nat \<Rightarrow> nat \<Rightarrow> nat \<Rightarrow> nat \<Rightarrow> nat" where
  "fee_spec current used target denominator =
     (if used = target then current
      else if target < used then min (current + max 1 (fee_step current (used - target) target denominator)) (2 ^ 64 - 1)
      else current - fee_step current (target - used) target denominator)"

lemma unat_clampBaseFee: "unat (clampBaseFee v lo hi) = fee_clamp (unat v) (unat lo) (unat hi)"
  by (auto simp: clampBaseFee_def fee_clamp_def Let_def word_less_nat_alt)

lemma div_less_iff_mult: "0 < g \<Longrightarrow> (m :: nat) div g < c \<longleftrightarrow> m < c * g"
  by (simp add: less_mult_imp_div_less div_less_iff_less_mult)

lemma baseFeeDelta_overflow:
  "gasDelta \<noteq> 0 \<Longrightarrow> max_u64 div gasDelta < current \<longleftrightarrow> 2 ^ 64 \<le> unat current * unat gasDelta"
proof -
  assume "gasDelta \<noteq> 0"
  then have "0 < unat gasDelta"
    by (simp add: unat_gt_0)
  then have "max_u64 div gasDelta < current \<longleftrightarrow> 2 ^ 64 - 1 < unat current * unat gasDelta"
    using div_less_iff_mult [of "unat gasDelta" "2 ^ 64 - 1" "unat current"]
    by (simp add: word_less_nat_alt unat_div)
  then show ?thesis
    by auto
qed

lemma unat_baseFeeDelta:
  assumes "targetGas \<noteq> 0" and "denominator \<noteq> 0" and "unat current * unat gasDelta < 2 ^ 64"
  shows "unat (baseFeeDelta current gasDelta targetGas denominator)
    = fee_step (unat current) (unat gasDelta) (unat targetGas) (unat denominator)"
proof (cases "current = 0 \<or> gasDelta = 0")
  case True
  then show ?thesis
    by (auto simp: baseFeeDelta_def fee_step_def)
next
  case False
  with assms have "baseFeeDelta current gasDelta targetGas denominator = (current * gasDelta div targetGas) div denominator"
    using baseFeeDelta_overflow [of gasDelta current] by (simp add: baseFeeDelta_def)
  with assms(3) show ?thesis
    by (simp add: fee_step_def unat_div unat_mult_u64)
qed

lemma NextBaseFee_exact:
  assumes nz: "bf_CurrentBaseFee p \<noteq> 0" "bf_TargetGas p \<noteq> 0" "bf_ChangeDenominator p \<noteq> 0"
    and up: "unat (bf_CurrentBaseFee p) * (unat (bf_GasUsed p) - unat (bf_TargetGas p)) < 2 ^ 64"
    and down: "unat (bf_CurrentBaseFee p) * (unat (bf_TargetGas p) - unat (bf_GasUsed p)) < 2 ^ 64"
  shows "unat (NextBaseFee p) =
    fee_clamp (fee_spec (unat (bf_CurrentBaseFee p)) (unat (bf_GasUsed p)) (unat (bf_TargetGas p))
                 (unat (bf_ChangeDenominator p)))
      (unat (bf_MinBaseFee p)) (unat (bf_MaxBaseFee p))"
proof -
  define c where "c = bf_CurrentBaseFee p"
  define u where "u = bf_GasUsed p"
  define t where "t = bf_TargetGas p"
  define d where "d = bf_ChangeDenominator p"
  note defs = c_def [symmetric] u_def [symmetric] t_def [symmetric] d_def [symmetric]
  consider "u = t" | "t < u" | "u < t"
    by (metis linorder_neqE)
  then show ?thesis
  proof cases
    case 1
    then show ?thesis
      using nz by (simp add: NextBaseFee_def Let_def defs fee_spec_def unat_clampBaseFee)
  next
    case 2
    define x where "x = baseFeeDelta c (u - t) t d"
    define y where "y = (if x = 0 then 1 else x)"
    have sub: "unat (u - t) = unat u - unat t"
      using 2 by (intro unat_sub_u64) simp
    have x: "unat x = fee_step (unat c) (unat u - unat t) (unat t) (unat d)"
      using unat_baseFeeDelta [of t d c "u - t"] nz up by (simp add: x_def defs sub)
    have y: "unat y = max 1 (unat x)"
      by (auto simp: y_def max_def word_unat_eq_iff)
    have lt: "unat t < unat u"
      using 2 by (simp add: word_less_nat_alt)
    have nxt: "NextBaseFee p = (if max_u64 - y < c then clampBaseFee max_u64 (bf_MinBaseFee p) (bf_MaxBaseFee p)
        else clampBaseFee (c + y) (bf_MinBaseFee p) (bf_MaxBaseFee p))"
      using nz 2 less_imp_neq [OF 2] by (simp add: NextBaseFee_def Let_def defs x_def y_def)
    have ov: "max_u64 - y < c \<longleftrightarrow> 2 ^ 64 - 1 < unat c + unat y"
    proof -
      have "unat (max_u64 - y) = 2 ^ 64 - 1 - unat y"
        using unat_sub_u64 [of y max_u64] by simp
      then show ?thesis
        using unat_u64_less [of y] by (simp add: word_less_nat_alt) linarith
    qed
    show ?thesis
    proof (cases "max_u64 - y < c")
      case True
      then show ?thesis
        using nxt ov lt x y by (simp add: defs fee_spec_def unat_clampBaseFee)
    next
      case False
      then have "unat (c + y) = unat c + unat y"
        using ov by (intro unat_add_u64) simp
      then show ?thesis
        using False nxt ov lt x y by (simp add: defs fee_spec_def unat_clampBaseFee)
    qed
  next
    case 3
    define x where "x = baseFeeDelta c (t - u) t d"
    have sub: "unat (t - u) = unat t - unat u"
      using 3 by (intro unat_sub_u64) simp
    have x: "unat x = fee_step (unat c) (unat t - unat u) (unat t) (unat d)"
      using unat_baseFeeDelta [of t d c "t - u"] nz down by (simp add: x_def defs sub)
    have lt: "unat u < unat t"
      using 3 by (simp add: word_less_nat_alt)
    have nxt: "NextBaseFee p = (if c \<le> x then clampBaseFee 0 (bf_MinBaseFee p) (bf_MaxBaseFee p)
        else clampBaseFee (c - x) (bf_MinBaseFee p) (bf_MaxBaseFee p))"
      using nz 3 less_imp_neq [OF 3] less_not_sym [OF 3] by (simp add: NextBaseFee_def Let_def defs x_def)
    have "unat (if c \<le> x then 0 else c - x) = unat c - unat x"
      by (auto simp: word_le_nat_alt unat_sub_u64)
    then have "unat (NextBaseFee p) = fee_clamp (unat c - unat x) (unat (bf_MinBaseFee p)) (unat (bf_MaxBaseFee p))"
      using nxt unat_clampBaseFee by (metis (full_types))
    then show ?thesis
      using lt x by (simp add: defs fee_spec_def)
  qed
qed

lemma NextBaseFee_collapse:
  assumes "bf_CurrentBaseFee p \<noteq> 0" "bf_ChangeDenominator p \<noteq> 0" and "bf_GasUsed p < bf_TargetGas p"
    and "2 ^ 64 \<le> unat (bf_CurrentBaseFee p) * (unat (bf_TargetGas p) - unat (bf_GasUsed p))"
    and "unat (bf_CurrentBaseFee p) \<le> (2 ^ 64 - 1) div unat (bf_ChangeDenominator p)"
  shows "NextBaseFee p = clampBaseFee 0 (bf_MinBaseFee p) (bf_MaxBaseFee p)"
proof -
  let ?g = "bf_TargetGas p - bf_GasUsed p"
  have g: "unat ?g = unat (bf_TargetGas p) - unat (bf_GasUsed p)"
    using assms(3) by (intro unat_sub_u64) simp
  have "?g \<noteq> 0" and t: "bf_TargetGas p \<noteq> 0"
    using assms(3) by auto
  then have "baseFeeDelta (bf_CurrentBaseFee p) ?g (bf_TargetGas p) (bf_ChangeDenominator p)
      = max_u64 div bf_ChangeDenominator p"
    using baseFeeDelta_overflow [of ?g "bf_CurrentBaseFee p"] assms(1,2,4) g by (simp add: baseFeeDelta_def)
  moreover have "bf_CurrentBaseFee p \<le> max_u64 div bf_ChangeDenominator p"
    using assms(5) by (simp add: word_le_nat_alt unat_div)
  ultimately show ?thesis
    using assms(1-3) t by (auto simp: NextBaseFee_def Let_def)
qed

section \<open>Properties\<close>

text \<open>
  Amounts are read back: the decimal text of a 64-bit amount parses to it, and with the denominations
  gvxo, vexo and avxo it parses to the amount times the factor of the denomination, or is refused when that
  does not fit into 64 bits.
\<close>

theorem amount_roundtrip:
  "ParseAmount (FormatUint v) = Some v
   \<and> ParseAmount (FormatUint v @ ''avxo'') = Some v
   \<and> ParseAmount (FormatUint v @ ''gvxo'')
       = (if unat v * 1000000000 < 2 ^ 64 then Some (v * 1000000000) else None)
   \<and> ParseAmount (FormatUint v @ ''vexo'')
       = (if unat v * 1000000000000000000 < 2 ^ 64 then Some (v * 1000000000000000000) else None)"
  using unat_u64_less [of v] ParseAmount_FormatUint [of v]
  by (simp add: ParseAmount_def [of "_ @ _"] FormatUint_def ParseAmountBig_units del: append.simps)

text \<open>
  The base-fee controller computes the intended formula whenever the product of the fee and the gas
  difference fits into 64 bits: the fee moves by the fraction of the gas difference over the target and the
  denominator, by at least 1 upwards, saturates at the largest value, and is clamped to its bounds.
\<close>

theorem base_fee_exact:
  assumes "bf_CurrentBaseFee p \<noteq> 0" "bf_TargetGas p \<noteq> 0" "bf_ChangeDenominator p \<noteq> 0"
    and "unat (bf_CurrentBaseFee p) * (unat (bf_GasUsed p) - unat (bf_TargetGas p)) < 2 ^ 64"
    and "unat (bf_CurrentBaseFee p) * (unat (bf_TargetGas p) - unat (bf_GasUsed p)) < 2 ^ 64"
  shows "unat (NextBaseFee p) =
    fee_clamp (fee_spec (unat (bf_CurrentBaseFee p)) (unat (bf_GasUsed p)) (unat (bf_TargetGas p))
                 (unat (bf_ChangeDenominator p)))
      (unat (bf_MinBaseFee p)) (unat (bf_MaxBaseFee p))"
  using assms by (rule NextBaseFee_exact)

theorem base_fee_exact_witness:
  "unat (NextBaseFee \<lparr>bf_CurrentBaseFee = 1000, bf_GasUsed = 20, bf_TargetGas = 10, bf_ChangeDenominator = 8,
     bf_MinBaseFee = 1, bf_MaxBaseFee = 0\<rparr>) = 1125"
  by (subst base_fee_exact) (simp_all add: fee_spec_def fee_clamp_def fee_step_def)

text \<open>
  When the product overflows, an under-full block makes the fee collapse: the change is then taken as the
  largest value divided by the denominator, which exceeds every fee up to that quotient, and the fee drops to
  its lower bound instead of by at most one part in the denominator.
\<close>

theorem base_fee_collapse:
  assumes "bf_CurrentBaseFee p \<noteq> 0" "bf_ChangeDenominator p \<noteq> 0" and "bf_GasUsed p < bf_TargetGas p"
    and "2 ^ 64 \<le> unat (bf_CurrentBaseFee p) * (unat (bf_TargetGas p) - unat (bf_GasUsed p))"
    and "unat (bf_CurrentBaseFee p) \<le> (2 ^ 64 - 1) div unat (bf_ChangeDenominator p)"
  shows "NextBaseFee p = clampBaseFee 0 (bf_MinBaseFee p) (bf_MaxBaseFee p)"
  using assms by (rule NextBaseFee_collapse)

theorem base_fee_collapse_witness:
  "NextBaseFee \<lparr>bf_CurrentBaseFee = 1000000000000, bf_GasUsed = 0, bf_TargetGas = 30000000,
     bf_ChangeDenominator = 8, bf_MinBaseFee = 1, bf_MaxBaseFee = 0\<rparr> = 1
   \<and> fee_clamp (fee_spec 1000000000000 0 30000000 8) 1 0 = 875000000000"
  by (subst base_fee_collapse)
     (simp_all add: word_less_nat_alt clampBaseFee_def fee_spec_def fee_clamp_def fee_step_def)

end
