(* ===== verification/TxMeta.thy ===== *)
theory TxMeta
  imports Economics Encoding
begin

text \<open>
  Transaction tags of the mempool (\<^verbatim>\<open>mempool/priority.go\<close>, \<^verbatim>\<open>mempool/hash.go\<close>): the payload behind a signed
  envelope, the fee, priority, nonce and signer tags, the replacement key and the replacement price rule.
  The JSON decoder of the envelope is a parameter: it returns the schema version and the payload field.
\<close>

section \<open>base64.StdEncoding\<close>

text \<open>Line breaks are skipped; the trailing bits of the last group are not checked.\<close>

definition b64val :: "char \<Rightarrow> nat option" where
  "b64val c =
     (let n = of_char c in
      if 65 \<le> n \<and> n \<le> 90 then Some (n - 65)
      else if 97 \<le> n \<and> n \<le> 122 then Some (n - 71)
      else if 48 \<le> n \<and> n \<le> 57 then Some (n + 4)
      else if c = CHR ''+'' then Some 62
      else if c = CHR ''/'' then Some 63
      else None)"

fun b64groups :: "string \<Rightarrow> bytes option" where
  "b64groups [] = Some []"
| "b64groups (a # b # c # d # rest) =
     (case (b64val a, b64val b) of
        (Some x, Some y) \<Rightarrow>
          if c = CHR ''='' then
            (if d = CHR ''='' \<and> rest = [] then Some [char_of (x * 4 + y div 16)] else None)
          else
            (case b64val c of
               None \<Rightarrow> None
             | Some z \<Rightarrow>
                 if d = CHR ''='' then
                   (if rest = [] then Some [char_of (x * 4 + y div 16), char_of (y * 16 + z div 4)] else None)
                 else
                   case b64val d of
                     None \<Rightarrow> None
                   | Some w \<Rightarrow>
                       map_option
                         (\<lambda>bs. [char_of (x * 4 + y div 16), char_of (y * 16 + z div 4), char_of (z * 64 + w)] @ bs)
                         (b64groups rest))
      | _ \<Rightarrow> None)"
| "b64groups _ = None"

definition b64decode :: "string \<Rightarrow> bytes option" where
  "b64decode s = b64groups (filter (\<lambda>c. c \<noteq> CHR 0x0A \<and> c \<noteq> CHR 0x0D) s)"

section \<open>Tags (priority.go)\<close>

type_synonym envelope_json = "bytes \<Rightarrow> (string \<times> string) option"

definition mempoolTxPayload :: "envelope_json \<Rightarrow> Tx \<Rightarrow> Tx" where
  "mempoolTxPayload json tx =
     (if \<not> prefix ''signed:'' tx then tx
      else
        case b64decode (drop 7 tx) of
          None \<Rightarrow> tx
        | Some document \<Rightarrow>
            case json document of
              None \<Rightarrow> tx
            | Some (schemaVersion, payload) \<Rightarrow>
                if schemaVersion \<noteq> ''v1'' \<or> payload = [] then tx
                else
                  case b64decode payload of
                    None \<Rightarrow> tx
                  | Some decoded \<Rightarrow> decoded)"

text \<open>The value of the first part \<open>key=value\<close> of the payload with the key.\<close>

fun firstTag :: "string \<Rightarrow> string list \<Rightarrow> string option" where
  "firstTag key [] = None"
| "firstTag key (part # parts) =
     (case cutOn CHR ''='' part of
        None \<Rightarrow> firstTag key parts
      | Some (tagKey, tagValue) \<Rightarrow> if tagKey \<noteq> key then firstTag key parts else Some tagValue)"

definition txStringTag :: "envelope_json \<Rightarrow> Tx \<Rightarrow> string \<Rightarrow> string option" where
  "txStringTag json tx key = firstTag key (splitOn CHR '':'' (mempoolTxPayload json tx))"

definition txNumericTagFound :: "envelope_json \<Rightarrow> Tx \<Rightarrow> string \<Rightarrow> u64 option" where
  "txNumericTagFound json tx key =
     (case firstTag key (splitOn CHR '':'' (mempoolTxPayload json tx)) of
        None \<Rightarrow> None | Some tagValue \<Rightarrow> ParseUint tagValue)"

definition txNumericTag :: "envelope_json \<Rightarrow> Tx \<Rightarrow> string \<Rightarrow> u64" where
  "txNumericTag json tx key = (case txNumericTagFound json tx key of None \<Rightarrow> 0 | Some v \<Rightarrow> v)"

definition txAmountTag :: "envelope_json \<Rightarrow> Tx \<Rightarrow> string \<Rightarrow> u64" where
  "txAmountTag json tx key =
     (case firstTag key (splitOn CHR '':'' (mempoolTxPayload json tx)) of
        None \<Rightarrow> 0
      | Some tagValue \<Rightarrow> (case ParseAmount tagValue of None \<Rightarrow> 0 | Some v \<Rightarrow> v))"

definition TxFee :: "envelope_json \<Rightarrow> Tx \<Rightarrow> u64" where
  "TxFee json tx = txAmountTag json tx ''fee''"

definition TxPriority :: "envelope_json \<Rightarrow> Tx \<Rightarrow> u64" where
  "TxPriority json tx = txNumericTag json tx ''priority''"

definition TxNonce :: "envelope_json \<Rightarrow> Tx \<Rightarrow> u64 option" where
  "TxNonce json tx = txNumericTagFound json tx ''nonce''"

definition TxSigner :: "envelope_json \<Rightarrow> Tx \<Rightarrow> string option" where
  "TxSigner json tx = txStringTag json tx ''signer''"

definition ReplacementKey :: "envelope_json \<Rightarrow> Tx \<Rightarrow> string option" where
  "ReplacementKey json tx =
     (case TxSigner json tx of
        None \<Rightarrow> None
      | Some signer \<Rightarrow>
          if signer = [] then None
          else
            case TxNonce json tx of
              None \<Rightarrow> None
            | Some nonce \<Rightarrow> Some (signer @ ''/'' @ FormatUint nonce))"

definition bumpedByBPS :: "u64 \<Rightarrow> u64 \<Rightarrow> u64 \<Rightarrow> bool" where
  "bumpedByBPS newValue oldValue bumpBPS =
     (if oldValue = 0 then 0 < newValue
      else if max_u64 div (10000 + bumpBPS) < oldValue then newValue = max_u64
      else (oldValue * (10000 + bumpBPS) + 9999) div 10000 \<le> newValue)"

definition replacementPriceBumped :: "envelope_json \<Rightarrow> Tx \<Rightarrow> Tx \<Rightarrow> u64 \<Rightarrow> bool" where
  "replacementPriceBumped json oldTx newTx bumpBPS =
     (let bumpBPS = (if bumpBPS = 0 then 1000 else bumpBPS);
          oldFee = TxFee json oldTx;
          newFee = TxFee json newTx;
          oldPriority = TxPriority json oldTx;
          newPriority = TxPriority json newTx
      in if oldFee = 0 \<and> oldPriority = 0 then 0 < newFee \<or> 0 < newPriority
         else bumpedByBPS newFee oldFee bumpBPS \<or> bumpedByBPS newPriority oldPriority bumpBPS)"

section \<open>Hashes (hash.go)\<close>

definition mempool_HashTx :: "Tx \<Rightarrow> hash" where
  "mempool_HashTx tx = sha256 tx"

record Batch =
  bat_ID :: hash
  bat_Author :: ValidatorID
  bat_Txs :: "Tx list"
  bat_Parents :: "hash list"
  bat_Metadata :: bytes

definition HashBatch :: "Batch \<Rightarrow> hash" where
  "HashBatch batch =
     sha256 (bat_Author batch @ concat (map hash_bytes (bat_Parents batch))
       @ concat (map (\<lambda>tx. be64 (u64_len tx) @ tx) (bat_Txs batch)) @ bat_Metadata batch)"

section \<open>Replacement\<close>

text \<open>Two transactions have the same replacement key exactly when they have the same signer and nonce.\<close>

lemma ReplacementKey_Some:
  "ReplacementKey json tx = Some k \<longleftrightarrow>
     (\<exists>signer nonce. TxSigner json tx = Some signer \<and> signer \<noteq> [] \<and> TxNonce json tx = Some nonce
        \<and> k = signer @ CHR ''/'' # FormatUint nonce)"
  by (auto simp: ReplacementKey_def split: option.splits)

lemma ReplacementKey_eq:
  assumes "ReplacementKey json tx = Some k" and "ReplacementKey json tx' = Some k"
  shows "TxSigner json tx = TxSigner json tx' \<and> TxNonce json tx = TxNonce json tx'"
proof -
  from assms obtain s n s' n' where "TxSigner json tx = Some s" "TxNonce json tx = Some n"
    "TxSigner json tx' = Some s'" "TxNonce json tx' = Some n'"
    "s @ CHR ''/'' # FormatUint n = s' @ CHR ''/'' # FormatUint n'"
    by (auto simp: ReplacementKey_Some)
  moreover have "CHR ''/'' \<notin> set (FormatUint v)" for v
    by (rule FormatUint_digits) simp
  ultimately show ?thesis
    using append_sep_inj [of s "CHR ''/''" "FormatUint n" s' "FormatUint n'"] by simp
qed

text \<open>
  The price rule over the natural numbers: the new value is at least the old one plus the bump, rounded up,
  as long as neither the basis points nor the product wrap around.
\<close>

lemma ceil_div_le: "(x + 9999) div 10000 \<le> (m :: nat) \<longleftrightarrow> x \<le> m * 10000"
  by linarith

lemma bumpedByBPS_iff:
  assumes "oldValue \<noteq> 0" and "10000 + unat bumpBPS < 2 ^ 64"
    and "unat oldValue * (10000 + unat bumpBPS) + 9999 < 2 ^ 64"
  shows "bumpedByBPS newValue oldValue bumpBPS \<longleftrightarrow>
    unat oldValue * (10000 + unat bumpBPS) \<le> unat newValue * 10000"
proof -
  have b: "unat (10000 + bumpBPS :: u64) = 10000 + unat bumpBPS"
    using assms(2) by (subst unat_add_u64) simp_all
  have "\<not> max_u64 div (10000 + bumpBPS) < oldValue"
  proof -
    have "unat oldValue * (10000 + unat bumpBPS) \<le> 2 ^ 64 - 1"
      using assms(3) by simp
    then have "unat oldValue \<le> (2 ^ 64 - 1) div (10000 + unat bumpBPS)"
      by (simp add: less_eq_div_iff_mult_less_eq)
    then show ?thesis
      by (simp add: word_less_nat_alt unat_div b)
  qed
  moreover have "unat (oldValue * (10000 + bumpBPS) + 9999) = unat oldValue * (10000 + unat bumpBPS) + 9999"
  proof -
    have "unat (oldValue * (10000 + bumpBPS)) = unat oldValue * (10000 + unat bumpBPS)"
      using assms(3) b by (subst unat_mult_u64) simp_all
    then show ?thesis
      using assms(3) by (subst unat_add_u64) simp_all
  qed
  ultimately have "bumpedByBPS newValue oldValue bumpBPS \<longleftrightarrow>
      (unat oldValue * (10000 + unat bumpBPS) + 9999) div 10000 \<le> unat newValue"
    using assms(1) by (simp add: bumpedByBPS_def word_le_nat_alt unat_div)
  also have "\<dots> \<longleftrightarrow> unat oldValue * (10000 + unat bumpBPS) \<le> unat newValue * 10000"
    by (rule ceil_div_le)
  finally show ?thesis .
qed

end
