(* ===== verification/FairOrdering.thy ===== *)
theory FairOrdering
  imports TxMeta "HOL-Library.Product_Lexorder"
begin

text \<open>
  Package \<^verbatim>\<open>fairordering\<close>: the salted order of the transactions of a block.  The transactions of a signer
  form a chain in nonce order, and the heads of the chains are merged by their salted hash.  The order is a
  permutation of its input, depends only on the multiset of transactions, is stable under repetition, and
  keeps the transactions of every signer in nonce order.
\<close>

section \<open>Hashes and salt\<close>

definition HashTxWithSalt :: "bytes \<Rightarrow> Tx \<Rightarrow> hash" where
  "HashTxWithSalt salt tx = sha256 (salt @ tx)"

definition fair_HashTx :: "Tx \<Rightarrow> hash" where
  "fair_HashTx tx = HashTxWithSalt [] tx"

definition HeightSalt :: "string \<Rightarrow> Height \<Rightarrow> bytes" where
  "HeightSalt chainID height = hash_bytes (sha256 (chainID @ [CHR 0x00] @ be64 height))"

section \<open>Chains\<close>

text \<open>The signer of a transaction that has both a signer and a nonce.\<close>

definition chainSigner :: "envelope_json \<Rightarrow> Tx \<Rightarrow> string option" where
  "chainSigner json tx = (if TxNonce json tx = None then None else TxSigner json tx)"

text \<open>The comparison of the sort: the nonce, then the salted hash, then the bytes.\<close>

definition chainKey :: "envelope_json \<Rightarrow> bytes \<Rightarrow> Tx \<Rightarrow> u64 \<times> hash \<times> Tx" where
  "chainKey json salt tx =
     (case TxNonce json tx of None \<Rightarrow> 0 | Some n \<Rightarrow> n, HashTxWithSalt salt tx, tx)"

definition signerChain :: "envelope_json \<Rightarrow> bytes \<Rightarrow> Tx list \<Rightarrow> string \<Rightarrow> Tx list" where
  "signerChain json salt txs signer =
     sort_key (chainKey json salt) (filter (\<lambda>tx. chainSigner json tx = Some signer) txs)"

definition chainSigners :: "envelope_json \<Rightarrow> Tx list \<Rightarrow> string list" where
  "chainSigners json txs = sort (remdups (List.map_filter (chainSigner json) txs))"

definition transactionChains :: "envelope_json \<Rightarrow> Tx list \<Rightarrow> bytes \<Rightarrow> Tx list list" where
  "transactionChains json txs salt =
     map (\<lambda>tx. [tx]) (filter (\<lambda>tx. chainSigner json tx = None) txs)
     @ map (signerChain json salt txs) (chainSigners json txs)"

section \<open>Merging\<close>

text \<open>
  A candidate is the head of the rest of its chain; \<^verbatim>\<open>heap.Pop\<close> returns a least candidate by hash and bytes.
  Candidates that are equal in both are single transactions without a signer, so their order does not show.
\<close>

definition candidateKey :: "bytes \<Rightarrow> Tx list \<Rightarrow> hash \<times> Tx" where
  "candidateKey salt chain = (HashTxWithSalt salt (hd chain), hd chain)"

function mergeChains :: "bytes \<Rightarrow> Tx list list \<Rightarrow> Tx list" where
  "mergeChains salt queue =
     (if queue = [] then []
      else
        let chain = arg_min_list (candidateKey salt) queue;
            rest = remove1 chain queue
        in hd chain # mergeChains salt (if tl chain = [] then rest else rest @ [tl chain]))"
  by auto

termination mergeChains
proof (relation "measure (\<lambda>(_, queue). sum_list (map (\<lambda>c. length c + 1) queue))", goal_cases)
  case (2 salt queue chain rest)
  then have "chain \<in> set queue"
    by (simp add: arg_min_list_in)
  then have "sum_list (map (\<lambda>c. length c + 1) queue) = length chain + 1 + sum_list (map (\<lambda>c. length c + 1) rest)"
    using 2 by (simp add: sum_list_map_remove1)
  then show ?case
    by (cases chain) auto
qed simp

declare mergeChains.simps [simp del]

definition SortTxsWithSalt :: "envelope_json \<Rightarrow> Tx list \<Rightarrow> bytes \<Rightarrow> Tx list" where
  "SortTxsWithSalt json txs salt = mergeChains salt (transactionChains json txs salt)"

definition SortTxs :: "envelope_json \<Rightarrow> Tx list \<Rightarrow> Tx list" where
  "SortTxs json txs = SortTxsWithSalt json txs []"

definition IsOrderedWithSalt :: "envelope_json \<Rightarrow> Tx list \<Rightarrow> bytes \<Rightarrow> bool" where
  "IsOrderedWithSalt json txs salt =
     (let ordered = SortTxsWithSalt json txs salt in
      list_all (\<lambda>index. txs ! index = ordered ! index) [0..<length txs])"

definition IsOrdered :: "envelope_json \<Rightarrow> Tx list \<Rightarrow> bool" where
  "IsOrdered json txs = IsOrderedWithSalt json txs []"

section \<open>Sorting by an injective key\<close>

lemma sort_key_inj_perm:
  assumes "inj f" and "mset xs = mset ys"
  shows "sort_key f xs = sort_key (f :: 'a \<Rightarrow> 'b :: linorder) ys"
proof (rule properties_for_sort_key [symmetric])
  show "mset (sort_key f xs) = mset ys"
    using assms(2) by simp
  show "sorted (map f (sort_key f xs))"
    by simp
  have eq: "filter (\<lambda>x. f k = f x) zs = replicate (count (mset zs) k) k" for k and zs
  proof -
    have "(\<lambda>x. f k = f x) = (=) k"
      using assms(1) by (auto simp: inj_eq)
    then show ?thesis
      by (simp add: replicate_count_mset_eq_filter_eq)
  qed
  show "filter (\<lambda>x. f k = f x) (sort_key f xs) = filter (\<lambda>x. f k = f x) ys" for k
    using assms(2) by (simp add: eq)
qed

lemma inj_chainKey: "inj (chainKey json salt)"
  by (auto simp: inj_def chainKey_def)

section \<open>The queue invariant\<close>

text \<open>
  Every chain is a single transaction without signer or a list of transactions of one signer, and no signer
  has two chains.
\<close>

definition chain_wf :: "envelope_json \<Rightarrow> Tx list \<Rightarrow> bool" where
  "chain_wf json c \<longleftrightarrow> c \<noteq> [] \<and> (\<forall>tx \<in> set c. chainSigner json tx = chainSigner json (hd c))
     \<and> (chainSigner json (hd c) = None \<longrightarrow> tl c = [])"

definition chain_ids :: "envelope_json \<Rightarrow> Tx list list \<Rightarrow> string list" where
  "chain_ids json queue = List.map_filter (\<lambda>c. chainSigner json (hd c)) queue"

definition queue_wf :: "envelope_json \<Rightarrow> Tx list list \<Rightarrow> bool" where
  "queue_wf json queue \<longleftrightarrow> (\<forall>c \<in> set queue. chain_wf json c) \<and> distinct (chain_ids json queue)"

lemma chain_wf_unsigned: "chain_wf json c \<Longrightarrow> chainSigner json (hd c) = None \<Longrightarrow> c = [hd c]"
  unfolding chain_wf_def by (metis list.collapse)

lemma chain_wf_signer: "chain_wf json c \<Longrightarrow> tx \<in> set c \<Longrightarrow> chainSigner json tx = chainSigner json (hd c)"
  unfolding chain_wf_def by blast

text \<open>The queue after a pop.\<close>

definition next_queue :: "Tx list \<Rightarrow> Tx list list \<Rightarrow> Tx list list" where
  "next_queue c queue = (if tl c = [] then remove1 c queue else remove1 c queue @ [tl c])"

lemma mergeChains_step:
  assumes "queue \<noteq> []" and "c = arg_min_list (candidateKey salt) queue"
  shows "mergeChains salt queue = hd c # mergeChains salt (next_queue c queue)"
  using assms by (subst mergeChains.simps) (simp add: Let_def next_queue_def)

lemma map_filter_mset:
  "mset xs = mset ys \<Longrightarrow> mset (List.map_filter f xs) = mset (List.map_filter f ys)"
  by (simp add: List.map_filter_def mset_filter)

lemma in_map_filter: "x \<in> set xs \<Longrightarrow> f x = Some y \<Longrightarrow> y \<in> set (List.map_filter f xs)"
  by (induction xs) (auto simp: List.map_filter_simps split: option.split)

lemma chain_ids_remove1:
  assumes "c \<in> set queue"
  shows "mset (chain_ids json queue) = mset (chain_ids json [c]) + mset (chain_ids json (remove1 c queue))"
proof -
  have "mset queue = mset (c # remove1 c queue)"
    using assms by simp
  then have "mset (chain_ids json queue) = mset (chain_ids json (c # remove1 c queue))"
    unfolding chain_ids_def by (rule map_filter_mset)
  then show ?thesis
    by (auto simp: chain_ids_def List.map_filter_simps split: option.split)
qed

lemma queue_wf_unique:
  assumes "queue_wf json queue" and "c \<in> set queue" and "d \<in> set queue" and "hd c = hd d"
  shows "c = d"
proof (rule ccontr)
  assume "c \<noteq> d"
  then have d: "d \<in> set (remove1 c queue)"
    using assms(3) by (simp add: in_set_remove1)
  have wf: "chain_wf json c" "chain_wf json d"
    using assms by (auto simp: queue_wf_def)
  show False
  proof (cases "chainSigner json (hd c)")
    case None
    with wf assms(4) have "c = [hd c]" "d = [hd d]"
      by (metis chain_wf_unsigned)+
    with assms(4) \<open>c \<noteq> d\<close> show False
      by metis
  next
    case (Some s)
    then have "s \<in> set (chain_ids json [c])"
      by (simp add: chain_ids_def List.map_filter_simps)
    moreover have "s \<in> set (chain_ids json (remove1 c queue))"
      unfolding chain_ids_def by (rule in_map_filter [OF d]) (simp add: Some assms(4) [symmetric])
    moreover have "distinct (chain_ids json [c] @ chain_ids json (remove1 c queue))"
      using chain_ids_remove1 [OF assms(2), of json] assms(1)
      by (metis mset_append mset_eq_imp_distinct_iff queue_wf_def)
    ultimately show False
      by auto
  qed
qed

lemma next_queue_wf:
  assumes "queue_wf json queue" and "c \<in> set queue"
  shows "queue_wf json (next_queue c queue)"
proof -
  have wf: "chain_wf json c"
    using assms unfolding queue_wf_def by blast
  have d: "distinct (chain_ids json [c] @ chain_ids json (remove1 c queue))"
    using chain_ids_remove1 [OF assms(2), of json] assms(1)
    by (metis mset_append mset_eq_imp_distinct_iff queue_wf_def)
  have rest: "\<forall>e \<in> set (remove1 c queue). chain_wf json e"
    using assms(1) set_remove1_subset [of c queue] unfolding queue_wf_def by blast
  show ?thesis
  proof (cases "tl c = []")
    case True
    with rest d show ?thesis
      by (simp add: next_queue_def queue_wf_def)
  next
    case False
    then have "chainSigner json (hd c) \<noteq> None"
      using wf chain_wf_unsigned by (metis list.sel(3))
    then obtain s where s: "chainSigner json (hd c) = Some s"
      by blast
    have tl: "chainSigner json tx = Some s" if "tx \<in> set (tl c)" for tx
    proof -
      have "tx \<in> set c"
        using that by (cases c) simp_all
      with chain_wf_signer [OF wf] s show ?thesis
        by simp
    qed
    then have hd: "chainSigner json (hd (tl c)) = Some s"
      using False hd_in_set by blast
    have "chain_wf json (tl c)"
      unfolding chain_wf_def using False tl hd by simp
    moreover have "chain_ids json [c] = [s]" "chain_ids json (xs @ [tl c]) = chain_ids json xs @ [s]" for xs
      using s hd by (simp_all add: chain_ids_def List.map_filter_def)
    ultimately show ?thesis
      using False rest d by (auto simp: next_queue_def queue_wf_def)
  qed
qed

section \<open>The merged order\<close>

lemma min_candidate:
  assumes "queue \<noteq> []"
  shows "arg_min_list (candidateKey salt) queue \<in> set queue"
    "x \<in> set queue \<Longrightarrow> candidateKey salt (arg_min_list (candidateKey salt) queue) \<le> candidateKey salt x"
  using assms by (simp_all add: arg_min_list_in f_arg_min_list_f)

lemma next_queue_mset:
  assumes "c \<in> set queue"
  shows "mset (next_queue c queue) = mset queue - {#c#} + (if tl c = [] then {#} else {#tl c#})"
  by (simp add: next_queue_def)

lemma next_queue_size:
  assumes "c \<in> set queue" and "c \<noteq> []"
  shows "sum_list (map length (next_queue c queue)) < sum_list (map length queue)"
proof -
  have "sum_list (map length queue) = length c + sum_list (map length (remove1 c queue))"
    by (rule sum_list_map_remove1 [OF assms(1)])
  with assms(2) show ?thesis
    by (cases c) (auto simp: next_queue_def)
qed

lemma queue_wf_ne: "queue_wf json queue \<Longrightarrow> c \<in> set queue \<Longrightarrow> c \<noteq> []"
  unfolding queue_wf_def chain_wf_def by blast

lemma mergeChains_mset:
  "queue_wf json queue \<Longrightarrow> mset (mergeChains salt queue) = mset (concat queue)"
proof (induction "sum_list (map length queue)" arbitrary: queue rule: less_induct)
  case less
  show ?case
  proof (cases "queue = []")
    case False
    define c where "c = arg_min_list (candidateKey salt) queue"
    have c: "c \<in> set queue" "c \<noteq> []"
      using min_candidate(1) [OF False] queue_wf_ne [OF less.prems] by (auto simp: c_def)
    have ih: "mset (mergeChains salt (next_queue c queue)) = mset (concat (next_queue c queue))"
      by (rule less.hyps [OF next_queue_size [OF c] next_queue_wf [OF less.prems c(1)]])
    have "mset (concat queue) = mset c + mset (concat (remove1 c queue))"
      using c(1) by (induction queue) (auto simp: ac_simps)
    moreover have "mset c = {#hd c#} + mset (tl c)"
      using c(2) by (cases c) simp_all
    ultimately show ?thesis
      using mergeChains_step [OF False c_def] ih by (auto simp: next_queue_def)
  qed (simp add: mergeChains.simps)
qed

lemma mergeChains_perm:
  "queue_wf json queue \<Longrightarrow> queue_wf json queue' \<Longrightarrow> mset queue = mset queue' \<Longrightarrow>
     mergeChains salt queue = mergeChains salt queue'"
proof (induction "sum_list (map length queue)" arbitrary: queue queue' rule: less_induct)
  case less
  show ?case
  proof (cases "queue = []")
    case False
    define c where "c = arg_min_list (candidateKey salt) queue"
    define d where "d = arg_min_list (candidateKey salt) queue'"
    have False': "queue' \<noteq> []" and sets: "set queue = set queue'"
      using False less.prems(3) mset_eq_setD [OF less.prems(3)] by auto
    have c: "c \<in> set queue" "c \<noteq> []" and d: "d \<in> set queue'"
      using min_candidate(1) False False' queue_wf_ne [OF less.prems(1)] by (auto simp: c_def d_def)
    have "candidateKey salt c = candidateKey salt d"
      using min_candidate(2) [OF False, of d salt] min_candidate(2) [OF False', of c salt] c(1) d sets
      by (intro antisym) (simp_all add: c_def d_def)
    then have "hd c = hd d"
      by (simp add: candidateKey_def)
    then have cd: "c = d"
      using queue_wf_unique [OF less.prems(1) c(1)] d sets by simp
    have "mset (next_queue c queue) = mset (next_queue c queue')"
      using next_queue_mset c(1) sets less.prems(3) by metis
    moreover have "queue_wf json (next_queue c queue)" "queue_wf json (next_queue c queue')"
      using next_queue_wf less.prems(1,2) c(1) sets by auto
    ultimately have "mergeChains salt (next_queue c queue) = mergeChains salt (next_queue c queue')"
      using less.hyps [OF next_queue_size [OF c]] by blast
    then show ?thesis
      using mergeChains_step [OF False c_def] mergeChains_step [OF False' d_def] cd by simp
  next
    case True
    with less.prems(3) show ?thesis
      by simp
  qed
qed

text \<open>The transactions of a signer come out in the order of the signer's chain.\<close>

lemma unique_filter:
  assumes "queue_wf json queue" and "c \<in> set queue" and "chainSigner json (hd c) = Some s"
  shows "filter (\<lambda>d. chainSigner json (hd d) = Some s) (remove1 c queue) = []"
proof -
  have "distinct (chain_ids json [c] @ chain_ids json (remove1 c queue))"
    using chain_ids_remove1 [OF assms(2), of json] assms(1)
    by (metis mset_append mset_eq_imp_distinct_iff queue_wf_def)
  moreover have "chain_ids json [c] = [s]"
    using assms(3) by (simp add: chain_ids_def List.map_filter_def)
  ultimately have "s \<notin> set (chain_ids json (remove1 c queue))"
    by simp
  then show ?thesis
    unfolding chain_ids_def filter_empty_conv by (metis in_map_filter)
qed

lemma filter_unique:
  assumes "queue_wf json queue" and "c \<in> set queue" and "chainSigner json (hd c) = Some s"
  shows "filter (\<lambda>d. chainSigner json (hd d) = Some s) queue = [c]"
  using assms(2) unique_filter [OF assms] assms(3)
proof (induction queue)
  case (Cons e queue)
  then show ?case
    by (cases "c = e") auto
qed simp

lemma mergeChains_signer:
  "queue_wf json queue \<Longrightarrow>
     filter (\<lambda>tx. chainSigner json tx = Some s) (mergeChains salt queue)
       = concat (filter (\<lambda>c. chainSigner json (hd c) = Some s) queue)"
proof (induction "sum_list (map length queue)" arbitrary: queue rule: less_induct)
  case less
  show ?case
  proof (cases "queue = []")
    case False
    let ?P = "\<lambda>c. chainSigner json (hd c) = Some s"
    define c where "c = arg_min_list (candidateKey salt) queue"
    have c: "c \<in> set queue" "c \<noteq> []"
      using min_candidate(1) [OF False] queue_wf_ne [OF less.prems] by (auto simp: c_def)
    have wf: "chain_wf json c"
      using less.prems c(1) unfolding queue_wf_def by blast
    have ih: "filter (\<lambda>tx. chainSigner json tx = Some s) (mergeChains salt (next_queue c queue))
        = concat (filter ?P (next_queue c queue))"
      by (rule less.hyps [OF next_queue_size [OF c] next_queue_wf [OF less.prems c(1)]])
    have tl: "?P (tl c) \<longleftrightarrow> ?P c" if "tl c \<noteq> []"
    proof -
      have "hd (tl c) \<in> set c"
        using that c(2) by (cases c) (simp_all add: hd_in_set)
      then show ?thesis
        using chain_wf_signer [OF wf] by simp
    qed
    have "concat (filter ?P queue) = (if ?P c then [hd c] else []) @ concat (filter ?P (next_queue c queue))"
    proof (cases "?P c")
      case True
      have fs: "filter ?P queue = [c]" "filter ?P (remove1 c queue) = []"
        using filter_unique [OF less.prems c(1) True] unique_filter [OF less.prems c(1) True] by simp_all
      have "hd c # tl c = c"
        using c(2) by simp
      then show ?thesis
        using True tl by (cases "tl c = []") (simp_all only: next_queue_def fs filter_append if_True if_False
            concat.simps concat_append filter.simps append_Nil append_Cons append_Nil2 not_False_eq_True refl simp_thms)
    next
      case P: False
      have "filter ?P (remove1 c queue) = filter ?P queue"
        using P by (induction queue) auto
      then show ?thesis
        using P tl by (auto simp: next_queue_def)
    qed
    then show ?thesis
      using mergeChains_step [OF False c_def] ih by simp
  qed (simp add: mergeChains.simps)
qed

section \<open>The order of a block\<close>

lemma set_chainSigners: "set (chainSigners json txs) = {s. \<exists>tx \<in> set txs. chainSigner json tx = Some s}"
  by (force simp: chainSigners_def List.map_filter_def)

lemma distinct_chainSigners: "distinct (chainSigners json txs)"
  by (simp add: chainSigners_def)

lemma set_signerChain: "set (signerChain json salt txs s) = {tx \<in> set txs. chainSigner json tx = Some s}"
  by (auto simp: signerChain_def)

lemma signerChain_hd:
  assumes "s \<in> set (chainSigners json txs)"
  shows "signerChain json salt txs s \<noteq> []" "chainSigner json (hd (signerChain json salt txs s)) = Some s"
proof -
  from assms obtain tx where "tx \<in> set (signerChain json salt txs s)"
    by (auto simp: set_chainSigners set_signerChain)
  then show ne: "signerChain json salt txs s \<noteq> []"
    by auto
  from hd_in_set [OF ne] show "chainSigner json (hd (signerChain json salt txs s)) = Some s"
    by (simp add: set_signerChain)
qed

lemma map_filter_Some:
  "(\<And>x. x \<in> set xs \<Longrightarrow> f (g x) = Some x) \<Longrightarrow> List.map_filter f (map g xs) = xs"
  by (induction xs) (simp_all add: List.map_filter_simps)

lemma map_filter_None: "(\<And>x. x \<in> set xs \<Longrightarrow> f x = None) \<Longrightarrow> List.map_filter f xs = []"
  by (induction xs) (simp_all add: List.map_filter_simps)

lemma map_filter_append: "List.map_filter f (xs @ ys) = List.map_filter f xs @ List.map_filter f ys"
  by (simp add: List.map_filter_def)

lemma transactionChains_wf: "queue_wf json (transactionChains json txs salt)"
proof -
  have "chain_wf json c" if "c \<in> set (transactionChains json txs salt)" for c
  proof -
    from that consider tx where "c = [tx]" | s where "s \<in> set (chainSigners json txs)" "c = signerChain json salt txs s"
      by (auto simp: transactionChains_def)
    then show ?thesis
    proof cases
      case 2
      then show ?thesis
        using signerChain_hd [OF 2(1), of salt] set_signerChain [of json salt txs s] by (simp add: chain_wf_def)
    qed (simp add: chain_wf_def)
  qed
  moreover have "chain_ids json (transactionChains json txs salt) = chainSigners json txs"
  proof -
    have "List.map_filter (\<lambda>c. chainSigner json (hd c)) (map (\<lambda>tx. [tx]) (filter (\<lambda>tx. chainSigner json tx = None) txs)) = []"
      by (rule map_filter_None) auto
    moreover have "List.map_filter (\<lambda>c. chainSigner json (hd c)) (map (signerChain json salt txs) (chainSigners json txs))
        = chainSigners json txs"
      by (rule map_filter_Some) (rule signerChain_hd)
    ultimately show ?thesis
      by (simp add: chain_ids_def transactionChains_def map_filter_append)
  qed
  ultimately show ?thesis
    using distinct_chainSigners by (simp add: queue_wf_def)
qed

lemma mset_partition_signers:
  assumes "distinct ss" and "\<And>tx s. tx \<in> set txs \<Longrightarrow> f tx = Some s \<Longrightarrow> s \<in> set ss"
  shows "mset (concat (map (\<lambda>s. filter (\<lambda>tx. f tx = Some s) txs) ss)) = mset (filter (\<lambda>tx. f tx \<noteq> None) txs)"
  using assms(2)
proof (induction txs)
  case (Cons tx txs)
  have ih: "mset (concat (map (\<lambda>s. filter (\<lambda>tx. f tx = Some s) txs) ss)) = mset (filter (\<lambda>tx. f tx \<noteq> None) txs)"
    by (rule Cons.IH) (use Cons.prems in auto)
  have step: "mset (concat (map (\<lambda>s. filter (\<lambda>tx. f tx = Some s) (tx # txs)) rs))
      = (if \<exists>s \<in> set rs. f tx = Some s then {#tx#} else {#}) + mset (concat (map (\<lambda>s. filter (\<lambda>tx. f tx = Some s) txs) rs))"
    if "distinct rs" for rs
    using that by (induction rs) auto
  show ?case
    using step [OF assms(1)] ih Cons.prems [of tx] by (cases "f tx") auto
qed simp

lemma SortTxsWithSalt_mset: "mset (SortTxsWithSalt json txs salt) = mset txs"
proof -
  have "mset (SortTxsWithSalt json txs salt) = mset (concat (transactionChains json txs salt))"
    unfolding SortTxsWithSalt_def by (rule mergeChains_mset [OF transactionChains_wf])
  also have "\<dots> = mset (filter (\<lambda>tx. chainSigner json tx = None) txs)
      + mset (concat (map (signerChain json salt txs) (chainSigners json txs)))"
    by (simp add: transactionChains_def)
  also have "mset (concat (map (signerChain json salt txs) ss))
      = mset (concat (map (\<lambda>s. filter (\<lambda>tx. chainSigner json tx = Some s) txs) ss))" for ss
    by (induction ss) (simp_all add: signerChain_def)
  also have "mset (concat (map (\<lambda>s. filter (\<lambda>tx. chainSigner json tx = Some s) txs) (chainSigners json txs)))
      = mset (filter (\<lambda>tx. chainSigner json tx \<noteq> None) txs)"
    by (rule mset_partition_signers [OF distinct_chainSigners]) (auto simp: set_chainSigners)
  also have "mset (filter (\<lambda>tx. chainSigner json tx = None) txs) + \<dots> = mset txs"
    by (induction txs) auto
  finally show ?thesis .
qed

lemma SortTxsWithSalt_perm:
  assumes "mset txs = mset txs'"
  shows "SortTxsWithSalt json txs salt = SortTxsWithSalt json txs' salt"
proof -
  have "mset (filter P txs) = mset (filter P txs')" for P
    using assms by (simp add: mset_filter)
  then have chain: "signerChain json salt txs = signerChain json salt txs'"
    by (intro ext) (simp add: signerChain_def sort_key_inj_perm [OF inj_chainKey])
  have "set (List.map_filter (chainSigner json) txs) = set (List.map_filter (chainSigner json) txs')"
    by (rule mset_eq_setD [OF map_filter_mset [OF assms]])
  then have signers: "chainSigners json txs = chainSigners json txs'"
    unfolding chainSigners_def by (simp only: sorted_list_of_set_sort_remdups [symmetric])
  have "mset (transactionChains json txs salt) = mset (transactionChains json txs' salt)"
    using assms by (simp add: transactionChains_def chain signers mset_filter)
  then show ?thesis
    unfolding SortTxsWithSalt_def by (rule mergeChains_perm [OF transactionChains_wf transactionChains_wf])
qed

lemma SortTxsWithSalt_signer:
  "filter (\<lambda>tx. chainSigner json tx = Some s) (SortTxsWithSalt json txs salt) = signerChain json salt txs s"
proof -
  let ?q = "transactionChains json txs salt"
  have "filter (\<lambda>tx. chainSigner json tx = Some s) (SortTxsWithSalt json txs salt)
      = concat (filter (\<lambda>c. chainSigner json (hd c) = Some s) ?q)"
    unfolding SortTxsWithSalt_def by (rule mergeChains_signer [OF transactionChains_wf])
  also have "\<dots> = signerChain json salt txs s"
  proof (cases "s \<in> set (chainSigners json txs)")
    case True
    then have "filter (\<lambda>c. chainSigner json (hd c) = Some s) ?q = [signerChain json salt txs s]"
      by (intro filter_unique [OF transactionChains_wf] signerChain_hd) (simp add: transactionChains_def)
    then show ?thesis
      by simp
  next
    case False
    then have "filter (\<lambda>c. chainSigner json (hd c) = Some s) ?q = []"
      using signerChain_hd by (auto simp: transactionChains_def filter_empty_conv)
    moreover have "set (signerChain json salt txs s) = {}"
      using False by (auto simp: set_signerChain set_chainSigners)
    ultimately show ?thesis
      by simp
  qed
  finally show ?thesis .
qed

lemma IsOrderedWithSalt_iff: "IsOrderedWithSalt json txs salt \<longleftrightarrow> SortTxsWithSalt json txs salt = txs"
proof -
  have "length (SortTxsWithSalt json txs salt) = length txs"
    using SortTxsWithSalt_mset by (rule mset_eq_length)
  then have "SortTxsWithSalt json txs salt = txs \<longleftrightarrow>
      (\<forall>i < length txs. SortTxsWithSalt json txs salt ! i = txs ! i)"
    by (simp add: list_eq_iff_nth_eq)
  moreover have "IsOrderedWithSalt json txs salt \<longleftrightarrow>
      (\<forall>i < length txs. txs ! i = SortTxsWithSalt json txs salt ! i)"
    by (simp add: IsOrderedWithSalt_def list_all_iff Ball_def)
  ultimately show ?thesis
    by metis
qed

section \<open>Properties\<close>

text \<open>
  C17: The fair order is a function of the multiset of transactions: it is a permutation of the block's
  transactions, two proposers that hold the same transactions in any order produce the same list, and that
  list passes the ordering check of every replica.
\<close>

theorem fair_order_canonical:
  "mset (SortTxsWithSalt json txs salt) = mset txs
   \<and> (mset txs = mset txs' \<longrightarrow> SortTxsWithSalt json txs salt = SortTxsWithSalt json txs' salt)
   \<and> IsOrderedWithSalt json (SortTxsWithSalt json txs salt) salt"
  using SortTxsWithSalt_mset [of json txs salt] SortTxsWithSalt_perm [of txs txs' json salt]
    SortTxsWithSalt_perm [of "SortTxsWithSalt json txs salt" txs json salt]
  by (simp add: IsOrderedWithSalt_iff)

theorem fair_order_canonical_witness:
  "SortTxsWithSalt (\<lambda>_. None) [''a'', ''b'', ''c''] ''s'' = SortTxsWithSalt (\<lambda>_. None) [''c'', ''a'', ''b''] ''s''"
  using fair_order_canonical [of "\<lambda>_. None" "[''a'', ''b'', ''c'']" "''s''" "[''c'', ''a'', ''b'']"] by simp

text \<open>
  The fair order keeps every signer's transactions in the order of their nonces: the subsequence of a
  signer's transactions is the list of them sorted by nonce, then salted hash, then bytes.
\<close>

theorem fair_order_nonces:
  "filter (\<lambda>tx. chainSigner json tx = Some s) (SortTxsWithSalt json txs salt)
     = sort_key (chainKey json salt) (filter (\<lambda>tx. chainSigner json tx = Some s) txs)"
  using SortTxsWithSalt_signer by (simp add: signerChain_def)

end
