(* ===== verification/StateMachine.thy ===== *)
theory StateMachine
  imports Registry Timeout DataAvailability FairOrdering
begin

text \<open>
  The consensus state machine (\<^verbatim>\<open>consensus/state_machine.go\<close>) with the status and phases of
  \<^verbatim>\<open>consensus/consensus.go\<close>, the evidence it files (\<^verbatim>\<open>consensus/evidence.go\<close>) and the step driver
  (\<^verbatim>\<open>consensus/driver.go\<close>).  A handler returns the machine it leaves behind, also when it fails.  The walk
  along the ancestors may not return; a handler stuck in it yields \<open>DoesNotReturn\<close>.
\<close>

section \<open>State (consensus.go, state_machine.go)\<close>

datatype Phase = PhasePropose | PhaseVote | PhaseCommit

record Status =
  st_ChainID :: string
  st_Height :: Height
  st_Round :: Round
  st_Phase :: Phase
  st_LastFinalized :: hash
  st_ValidatorSetHash :: hash
  st_LastTimeoutCert :: TimeoutCert

type_synonym signature_verifier = "PublicKey \<Rightarrow> bytes \<Rightarrow> Signature \<Rightarrow> bool"

record StateMachineConfig =
  cfg_ChainID :: string
  cfg_ValidatorSet :: "setSnapshot option"
  cfg_HashBlock :: "(Block \<Rightarrow> hash) option"
  cfg_Signatures :: "signature_verifier option"
  cfg_Aggregator :: "aggregator option"
  cfg_EnforceProposerSelection :: bool

record StateMachine =
  sm_chainID :: string
  sm_validatorSet :: setSnapshot
  sm_hashBlock :: "Block \<Rightarrow> hash"
  sm_signatures :: "signature_verifier option"
  sm_aggregator :: "aggregator option"
  sm_enforceProposerSelection :: bool
  sm_status :: Status
  sm_votes :: "Height \<Rightarrow> Round \<Rightarrow> hash \<Rightarrow> (ValidatorID, Vote) gomap"
  sm_votedVotes :: "Height \<Rightarrow> Round \<Rightarrow> ValidatorID \<rightharpoonup> Vote"
  sm_evidence :: "Evidence list"
  sm_timeouts :: TimeoutCollector
  sm_pacemaker :: Pacemaker
  sm_blockTree :: BlockTree
  sm_lockedQC :: QuorumCert
  sm_committed :: "CommitDecision list"
  sm_committedSet :: "hash set"
  sm_commitIndex :: CommitIndex

text \<open>
  What the machine uses of the environment: the decoder of signed transaction envelopes, the encoders
  of evidence proofs, and the order in which \<^verbatim>\<open>range\<close> visits the keys of a map, which Go leaves open.
\<close>

record Externals =
  ext_envelope :: envelope_json
  ext_marshalVotes :: "Vote \<Rightarrow> Vote \<Rightarrow> string + bytes"
  ext_marshalTimeouts :: "TimeoutVote \<Rightarrow> TimeoutVote \<Rightarrow> string + bytes"
  ext_range :: "hash list \<Rightarrow> hash list"

definition NewStateMachine :: "StateMachineConfig \<Rightarrow> consensus_error + StateMachine" where
  "NewStateMachine config =
     (if cfg_ChainID config = [] then Inl ErrChainIDRequired
      else
        case cfg_ValidatorSet config of
          None \<Rightarrow> Inl ErrValidatorSetRequired
        | Some validatorSet \<Rightarrow>
            Inr \<lparr>sm_chainID = cfg_ChainID config, sm_validatorSet = validatorSet,
                 sm_hashBlock = (case cfg_HashBlock config of None \<Rightarrow> HashBlock | Some f \<Rightarrow> f),
                 sm_signatures = cfg_Signatures config, sm_aggregator = cfg_Aggregator config,
                 sm_enforceProposerSelection = cfg_EnforceProposerSelection config,
                 sm_status = \<lparr>st_ChainID = cfg_ChainID config, st_Height = 0, st_Round = 0,
                    st_Phase = PhasePropose, st_LastFinalized = zero_hash,
                    st_ValidatorSetHash = Set_Hash validatorSet, st_LastTimeoutCert = zeroTC\<rparr>,
                 sm_votes = (\<lambda>_ _ _. []), sm_votedVotes = (\<lambda>_ _. Map.empty), sm_evidence = [],
                 sm_timeouts = NewTimeoutCollectorWithAggregator validatorSet (cfg_Aggregator config),
                 sm_pacemaker = NewPacemaker 0 0, sm_blockTree = NewBlockTree, sm_lockedQC = zeroQC,
                 sm_committed = [], sm_committedSet = {}, sm_commitIndex = NewCommitIndex\<rparr>)"

definition StartRound :: "StateMachine \<Rightarrow> Height \<Rightarrow> Round \<Rightarrow> StateMachine" where
  "StartRound m height rnd =
     m\<lparr>sm_status := (sm_status m)\<lparr>st_Height := height, st_Round := rnd, st_Phase := PhasePropose\<rparr>,
       sm_pacemaker := NewPacemaker height rnd\<rparr>"

definition UpdateValidatorSet :: "StateMachine \<Rightarrow> setSnapshot option \<Rightarrow> StateMachine \<times> consensus_error option" where
  "UpdateValidatorSet m validatorSet =
     (case validatorSet of
        None \<Rightarrow> (m, Some ErrValidatorSetRequired)
      | Some s \<Rightarrow>
          (m\<lparr>sm_validatorSet := s,
             sm_status := (sm_status m)\<lparr>st_ValidatorSetHash := Set_Hash s\<rparr>,
             sm_timeouts := NewTimeoutCollectorWithAggregator s (sm_aggregator m)\<rparr>, None))"

definition UpdateValidatorSetFromRegistry ::
    "StateMachine \<Rightarrow> ctx \<Rightarrow> InMemoryRegistry \<Rightarrow> Height \<Rightarrow> StateMachine \<times> consensus_error option" where
  "UpdateValidatorSetFromRegistry m ctx registry height =
     (case ValidatorSet registry ctx height of
        Inl e \<Rightarrow> (m, Some (ConsensusValidatorError e))
      | Inr validatorSet \<Rightarrow> UpdateValidatorSet m (Some validatorSet))"

section \<open>Signatures (state_machine.go)\<close>

text \<open>The three checks differ in the domain, the signed bytes and the error they wrap.\<close>

definition verifyConsensusSignature ::
    "StateMachine \<Rightarrow> (string \<Rightarrow> consensus_error) \<Rightarrow> string \<Rightarrow> string \<Rightarrow> ValidatorID \<Rightarrow> bytes \<Rightarrow> Signature
     \<Rightarrow> consensus_error option" where
  "verifyConsensusSignature m err kind domain validatorID signBytes signature =
     (case sm_signatures m of
        None \<Rightarrow> None
      | Some verify \<Rightarrow>
          if signature = [] then Some (err (''missing '' @ kind @ '' signature''))
          else
            case Set_Get (sm_validatorSet m) validatorID of
              None \<Rightarrow> Some ErrUnknownValidator
            | Some validatorInfo \<Rightarrow>
                case DomainMessage domain signBytes of
                  Inl e \<Rightarrow> Some (ConsensusCryptoError e)
                | Inr message \<Rightarrow>
                    if \<not> verify (val_PublicKey validatorInfo) message signature
                    then Some (err (''invalid '' @ kind @ '' signature''))
                    else None)"

definition verifyProposalSignature :: "StateMachine \<Rightarrow> Proposal \<Rightarrow> consensus_error option" where
  "verifyProposalSignature m proposal =
     verifyConsensusSignature m ErrInvalidProposal ''proposal'' DomainConsensusProposal
       (prop_Proposer proposal) (ProposalSignBytes proposal) (prop_Signature proposal)"

definition verifyVoteSignature :: "StateMachine \<Rightarrow> Vote \<Rightarrow> consensus_error option" where
  "verifyVoteSignature m vote =
     verifyConsensusSignature m ErrInvalidVote ''vote'' DomainConsensusVote
       (vote_ValidatorID vote) (VoteSignBytes vote) (vote_Signature vote)"

definition verifyTimeoutVoteSignature :: "StateMachine \<Rightarrow> TimeoutVote \<Rightarrow> consensus_error option" where
  "verifyTimeoutVoteSignature m vote =
     verifyConsensusSignature m ErrInvalidVote ''timeout vote'' DomainConsensusTimeoutVote
       (tv_ValidatorID vote) (TimeoutVoteSignBytes vote) (tv_Signature vote)"

definition unsignedConsensusSignature :: "string \<Rightarrow> ValidatorID \<Rightarrow> bytes \<Rightarrow> Signature" where
  "unsignedConsensusSignature kind validatorID signBytes =
     hash_bytes (sha256 (kind @ [CHR 0x00] @ validatorID @ [CHR 0x00] @ signBytes))"

definition ensureVoteSignature :: "StateMachine \<Rightarrow> Vote \<Rightarrow> Vote" where
  "ensureVoteSignature m vote =
     (if sm_signatures m \<noteq> None \<or> vote_Signature vote \<noteq> [] then vote
      else vote\<lparr>vote_Signature :=
             unsignedConsensusSignature ''unsigned-vote'' (vote_ValidatorID vote) (VoteSignBytes vote)\<rparr>)"

definition ensureTimeoutVoteSignature :: "StateMachine \<Rightarrow> TimeoutVote \<Rightarrow> TimeoutVote" where
  "ensureTimeoutVoteSignature m vote =
     (if sm_signatures m \<noteq> None \<or> tv_Signature vote \<noteq> [] then vote
      else vote\<lparr>tv_Signature :=
             unsignedConsensusSignature ''unsigned-timeout-vote'' (tv_ValidatorID vote)
               (TimeoutVoteSignBytes vote)\<rparr>)"

section \<open>Evidence (evidence.go)\<close>

definition NewConflictingVoteEvidence :: "Externals \<Rightarrow> Vote \<Rightarrow> Vote \<Rightarrow> consensus_error + Evidence" where
  "NewConflictingVoteEvidence ext v1 v2 =
     (if vote_ValidatorID v1 \<noteq> vote_ValidatorID v2 \<or> vote_Height v1 \<noteq> vote_Height v2
         \<or> vote_Round v1 \<noteq> vote_Round v2 then Inl ErrVotePairMismatch
      else if vote_BlockHash v1 = vote_BlockHash v2 then Inl ErrVotesDoNotConflict
      else
        case ext_marshalVotes ext v1 v2 of
          Inl e \<Rightarrow> Inl (MarshalError e)
        | Inr proof \<Rightarrow>
            Inr \<lparr>evd_Type = EvidenceConflictingVote, evd_Validator = vote_ValidatorID v1,
                 evd_Height = vote_Height v1, evd_Round = vote_Round v1, evd_Proof = proof\<rparr>)"

definition NewConflictingTimeoutVoteEvidence ::
    "Externals \<Rightarrow> TimeoutVote \<Rightarrow> TimeoutVote \<Rightarrow> consensus_error + Evidence" where
  "NewConflictingTimeoutVoteEvidence ext v1 v2 =
     (if tv_ValidatorID v1 \<noteq> tv_ValidatorID v2 \<or> tv_Height v1 \<noteq> tv_Height v2
         \<or> tv_Round v1 \<noteq> tv_Round v2 then Inl ErrVotePairMismatch
      else if sameQC (tv_HighQC v1) (tv_HighQC v2) then Inl ErrTimeoutVotesDoNotConflict
      else
        case ext_marshalTimeouts ext v1 v2 of
          Inl e \<Rightarrow> Inl (MarshalError e)
        | Inr proof \<Rightarrow>
            Inr \<lparr>evd_Type = EvidenceConflictingTimeoutVote, evd_Validator = tv_ValidatorID v1,
                 evd_Height = tv_Height v1, evd_Round = tv_Round v1, evd_Proof = proof\<rparr>)"

section \<open>Commit and safety rules (state_machine.go)\<close>

definition applyCommitRule ::
    "StateMachine \<Rightarrow> CommitCandidate \<Rightarrow> StateMachine \<times> (consensus_error + CommitDecision)" where
  "applyCommitRule m candidate =
     (case Decide candidate of
        Inl e \<Rightarrow> (m, Inl e)
      | Inr decision \<Rightarrow>
          if cd_CommittedBlockHash decision \<in> sm_committedSet m then (m, Inr decision)
          else
            case Record (sm_commitIndex m) (cd_CommittedHeight decision) (cd_CommittedBlockHash decision) of
              (index, Some e) \<Rightarrow> (m\<lparr>sm_commitIndex := index\<rparr>, Inl e)
            | (index, None) \<Rightarrow>
                let committed = sort_key cd_CommittedHeight (sm_committed m @ [decision]) in
                (m\<lparr>sm_commitIndex := index, sm_committed := committed,
                   sm_committedSet := insert (cd_CommittedBlockHash decision) (sm_committedSet m),
                   sm_status := (sm_status m)
                     \<lparr>st_LastFinalized := cd_CommittedBlockHash (last committed)\<rparr>\<rparr>, Inr decision))"

fun applyCommitRules :: "StateMachine \<Rightarrow> hash list \<Rightarrow> StateMachine \<times> consensus_error option" where
  "applyCommitRules m [] = (m, None)"
| "applyCommitRules m (blockHash # rest) =
     (case CommitCandidate_of (sm_blockTree m) blockHash of
        None \<Rightarrow> applyCommitRules m rest
      | Some candidate \<Rightarrow>
          case applyCommitRule m candidate of
            (m, Inr _) \<Rightarrow> applyCommitRules m rest
          | (m, Inl e) \<Rightarrow> if e = ErrCommitRuleNotSatisfied then applyCommitRules m rest else (m, Some e))"

definition applyKnownCommitRules :: "Externals \<Rightarrow> StateMachine \<Rightarrow> StateMachine \<times> consensus_error option" where
  "applyKnownCommitRules ext m = applyCommitRules m (ext_range ext (map fst (tree_blocks (sm_blockTree m))))"

definition isSafeProposal :: "StateMachine \<Rightarrow> Proposal \<Rightarrow> bool option" where
  "isSafeProposal m proposal =
     (if qc_Height (sm_lockedQC m) = 0 then Some True
      else if qc_Height (sm_lockedQC m) \<le> qc_Height (prop_JustifyQC proposal) then Some True
      else
        let parentHash = hdr_PreviousBlockHash (blk_Header (prop_Block proposal)) in
        if parentHash = qc_BlockHash (sm_lockedQC m) then Some True
        else Extends (sm_blockTree m) parentHash (qc_BlockHash (sm_lockedQC m)))"

definition IsAncestorOfHighQC :: "StateMachine \<Rightarrow> hash \<Rightarrow> bool option" where
  "IsAncestorOfHighQC m blockHash =
     (let highQC = Tree_HighQC (sm_blockTree m) in
      if qc_BlockHash highQC = zero_hash \<or> blockHash = zero_hash then Some False
      else if blockHash = qc_BlockHash highQC then Some True
      else Extends (sm_blockTree m) (qc_BlockHash highQC) blockHash)"

definition isSafeVoteTarget :: "StateMachine \<Rightarrow> BlockNode \<Rightarrow> bool option" where
  "isSafeVoteTarget m node =
     (if qc_Height (sm_lockedQC m) = 0 then Some True
      else if qc_Height (sm_lockedQC m) \<le> qc_Height (node_JustifyQC node) then Some True
      else if node_Hash node = qc_BlockHash (sm_lockedQC m) then Some True
      else Extends (sm_blockTree m) (node_Hash node) (qc_BlockHash (sm_lockedQC m)))"

definition proposalQC :: "StateMachine \<Rightarrow> QuorumCert option" where
  "proposalQC m =
     (let highQC = Tree_HighQC (sm_blockTree m) in
      if qc_Height highQC = 0 then Some (sm_lockedQC m)
      else if qc_Height (sm_lockedQC m) = 0 then Some highQC
      else
        case Extends (sm_blockTree m) (qc_BlockHash highQC) (qc_BlockHash (sm_lockedQC m)) of
          None \<Rightarrow> None
        | Some True \<Rightarrow> Some highQC
        | Some False \<Rightarrow> Some (sm_lockedQC m))"

definition updateLockedQC :: "StateMachine \<Rightarrow> QuorumCert \<Rightarrow> StateMachine" where
  "updateLockedQC m qc =
     (if qc_Height qc = 0 \<or> qc_BlockHash qc = zero_hash then m
      else if isBetterQC qc (sm_lockedQC m) then m\<lparr>sm_lockedQC := qc\<rparr>
      else m)"

section \<open>Proposals (state_machine.go)\<close>

definition orderingSalt :: "StateMachine \<Rightarrow> Height \<Rightarrow> bytes" where
  "orderingSalt m height = HeightSalt (sm_chainID m) height"

definition validateProposer ::
    "StateMachine \<Rightarrow> Height \<Rightarrow> Round \<Rightarrow> ValidatorID \<Rightarrow> consensus_error option" where
  "validateProposer m height rnd proposer =
     (if \<not> sm_enforceProposerSelection m then None
      else
        case SelectProposer (Set_List (sm_validatorSet m)) height rnd of
          None \<Rightarrow> Some ErrUnexpectedProposer
        | Some expected \<Rightarrow> if expected \<noteq> proposer then Some ErrUnexpectedProposer else None)"

definition CreateProposal ::
    "Externals \<Rightarrow> StateMachine \<Rightarrow> Block \<Rightarrow> Round \<Rightarrow> ValidatorID \<Rightarrow> QuorumCert \<Rightarrow> consensus_error + Proposal" where
  "CreateProposal ext m block rnd proposer justifyQC =
     (if Set_Get (sm_validatorSet m) proposer = None then Inl ErrUnknownValidator
      else
        case validateProposer m (hdr_Height (blk_Header block)) rnd proposer of
          Some e \<Rightarrow> Inl e
        | None \<Rightarrow>
            case (if qc_Height justifyQC = 0 then proposalQC m else Some justifyQC) of
              None \<Rightarrow> Inl DoesNotReturn
            | Some justifyQC \<Rightarrow>
                let header = (blk_Header block)
                      \<lparr>hdr_ChainID := sm_chainID m, hdr_ValidatorSetHash := Set_Hash (sm_validatorSet m)\<rparr>;
                    header = (if hdr_PreviousBlockHash header = zero_hash \<and> 0 < qc_Height justifyQC
                              then header\<lparr>hdr_PreviousBlockHash := qc_BlockHash justifyQC\<rparr> else header);
                    txs = SortTxsWithSalt (ext_envelope ext) (blk_Txs block)
                            (orderingSalt m (hdr_Height header));
                    block = \<lparr>blk_Header = header\<lparr>hdr_TxRoot := TxRoot txs\<rparr>, blk_Txs = txs\<rparr>;
                    block = (if hdr_ConsensusHash header = zero_hash \<and> txs \<noteq> []
                             then AttachCommitment block else block)
                in Inr \<lparr>prop_Block = block, prop_Round = rnd, prop_Proposer = proposer,
                        prop_JustifyQC = justifyQC, prop_Signature = []\<rparr>)"

text \<open>The checks of \<^verbatim>\<open>OnProposal\<close> that read the proposal and the validator set only.\<close>

definition validateProposal :: "Externals \<Rightarrow> StateMachine \<Rightarrow> Proposal \<Rightarrow> consensus_error option" where
  "validateProposal ext m proposal =
     (let block = prop_Block proposal; header = blk_Header block; qc = prop_JustifyQC proposal in
      if Set_Get (sm_validatorSet m) (prop_Proposer proposal) = None then Some ErrUnknownValidator
      else
        case validateProposer m (hdr_Height header) (prop_Round proposal) (prop_Proposer proposal) of
          Some e \<Rightarrow> Some e
        | None \<Rightarrow>
            case verifyProposalSignature m proposal of
              Some e \<Rightarrow> Some e
            | None \<Rightarrow>
                if hdr_ChainID header \<noteq> sm_chainID m then Some (ErrChainIDMismatch (hdr_ChainID header))
                else if hdr_Height header = 0 then Some (ErrInvalidProposal ''missing height'')
                else if hdr_ValidatorSetHash header \<noteq> Set_Hash (sm_validatorSet m)
                then Some (ErrInvalidProposal ''validator set hash mismatch'')
                else if \<not> IsOrderedWithSalt (ext_envelope ext) (blk_Txs block)
                            (orderingSalt m (hdr_Height header))
                then Some (ErrInvalidProposal ''transaction ordering mismatch'')
                else if DA_Verify header (blk_Txs block) \<noteq> None
                then Some (ErrInvalidProposal ''data availability'')
                else if 0 < qc_Height qc \<and> hdr_Height header < qc_Height qc
                then Some (ErrInvalidProposal ''justify qc height exceeds proposal height'')
                else if 0 < qc_Height qc \<and> qc_BlockHash qc \<noteq> hdr_PreviousBlockHash header
                then Some (ErrInvalidProposal ''justify qc must match parent block'')
                else None)"

definition insertBlock :: "StateMachine \<Rightarrow> Block \<Rightarrow> hash \<Rightarrow> QuorumCert \<Rightarrow> StateMachine" where
  "insertBlock m block blockHash justifyQC =
     m\<lparr>sm_blockTree := fst (Tree_Insert (sm_blockTree m) block blockHash justifyQC)\<rparr>"

definition OnProposal ::
    "Externals \<Rightarrow> StateMachine \<Rightarrow> ctx \<Rightarrow> Proposal \<Rightarrow> StateMachine \<times> consensus_error option" where
  "OnProposal ext m ctx proposal =
     (case ctx of
        Some e \<Rightarrow> (m, Some (ConsensusCtxError e))
      | None \<Rightarrow>
          case validateProposal ext m proposal of
            Some e \<Rightarrow> (m, Some e)
          | None \<Rightarrow>
              let block = prop_Block proposal; header = blk_Header block; qc = prop_JustifyQC proposal;
                  blockHash = sm_hashBlock m block;
                  certified = (case Tree_Get (sm_blockTree m) blockHash of
                                 None \<Rightarrow> False
                               | Some known \<Rightarrow> 0 < qc_Height (node_QuorumCert known))
              in
                if certified then
                  case applyKnownCommitRules ext m of
                    (m, Some e) \<Rightarrow> (m, Some e)
                  | (m, None) \<Rightarrow> (m, Some ErrStaleProposal)
                else if hdr_Height header < st_Height (sm_status m)
                     \<or> (hdr_Height header = st_Height (sm_status m)
                        \<and> prop_Round proposal < st_Round (sm_status m)) then
                  case applyKnownCommitRules ext (insertBlock m block blockHash qc) of
                    (m, Some e) \<Rightarrow> (m, Some e)
                  | (m, None) \<Rightarrow> (m, Some ErrStaleProposal)
                else
                  case isSafeProposal m proposal of
                    None \<Rightarrow> (m, Some DoesNotReturn)
                  | Some False \<Rightarrow> (m, Some ErrUnsafeProposal)
                  | Some True \<Rightarrow>
                      case applyKnownCommitRules ext (insertBlock m block blockHash qc) of
                        (m, Some e) \<Rightarrow> (m, Some e)
                      | (m, None) \<Rightarrow>
                          (m\<lparr>sm_status := (sm_status m)
                               \<lparr>st_Height := hdr_Height header, st_Round := prop_Round proposal,
                                st_Phase := PhaseVote\<rparr>\<rparr>, None))"

section \<open>Votes (state_machine.go)\<close>

definition validateVote :: "StateMachine \<Rightarrow> Vote \<Rightarrow> consensus_error option" where
  "validateVote m vote =
     (if vote_Height vote = 0 then Some (ErrInvalidVote ''missing height'')
      else if vote_BlockHash vote = zero_hash then Some (ErrInvalidVote ''missing block hash'')
      else
        case verifyVoteSignature m vote of
          Some e \<Rightarrow> Some e
        | None \<Rightarrow>
            if 0 < st_Height (sm_status m) \<and> vote_Height vote < st_Height (sm_status m)
            then Some ErrStaleVote
            else if vote_Height vote = st_Height (sm_status m) \<and> vote_Round vote < st_Round (sm_status m)
            then Some ErrStaleVote
            else
              case Tree_Get (sm_blockTree m) (vote_BlockHash vote) of
                None \<Rightarrow> Some ErrUnknownVoteBlock
              | Some node \<Rightarrow>
                  if hdr_Height (blk_Header (node_Block node)) \<noteq> vote_Height vote
                  then Some (ErrInvalidVote ''target height mismatch'')
                  else
                    case isSafeVoteTarget m node of
                      None \<Rightarrow> Some DoesNotReturn
                    | Some False \<Rightarrow> Some ErrUnsafeVote
                    | Some True \<Rightarrow> None)"

definition votesForBlock :: "StateMachine \<Rightarrow> Height \<Rightarrow> Round \<Rightarrow> hash \<Rightarrow> (ValidatorID, Vote) gomap" where
  "votesForBlock m height rnd blockHash = sm_votes m height rnd blockHash"

definition recordVote :: "Externals \<Rightarrow> StateMachine \<Rightarrow> Vote \<Rightarrow> StateMachine \<times> consensus_error option" where
  "recordVote ext m vote =
     (let h = vote_Height vote; r = vote_Round vote; b = vote_BlockHash vote; i = vote_ValidatorID vote;
          store = m\<lparr>sm_votedVotes := (sm_votedVotes m)(h := (sm_votedVotes m h)(r := (sm_votedVotes m h r)(i \<mapsto> vote))),
                    sm_votes := (sm_votes m)(h := (sm_votes m h)(r := (sm_votes m h r)(b :=
                                  AList.update i vote (sm_votes m h r b))))\<rparr>
      in case sm_votedVotes m h r i of
           None \<Rightarrow> (store, None)
         | Some previousVote \<Rightarrow>
             if vote_BlockHash previousVote \<noteq> b then
               case NewConflictingVoteEvidence ext previousVote vote of
                 Inl _ \<Rightarrow> (m, Some ErrConflictingVote)
               | Inr evidence \<Rightarrow> (m\<lparr>sm_evidence := sm_evidence m @ [evidence]\<rparr>, Some ErrConflictingVote)
             else (store, None))"

definition buildQuorumCert :: "StateMachine \<Rightarrow> Height \<Rightarrow> Round \<Rightarrow> hash \<Rightarrow> consensus_error + QuorumCert" where
  "buildQuorumCert m height rnd blockHash =
     (let blockVotes = votesForBlock m height rnd blockHash in
      if blockVotes = [] then Inl ErrNoQuorum
      else
        case tallyVotes (sm_validatorSet m) vote_Signature (\<lambda>_ u. u) blockVotes 0 () [] of
          Inl e \<Rightarrow> Inl e
        | Inr (votingPower, _, votes) \<Rightarrow>
            case certify (sm_validatorSet m) (sm_aggregator m) votingPower votes of
              Inl e \<Rightarrow> Inl e
            | Inr (signers, signature) \<Rightarrow>
                Inr \<lparr>qc_Height = height, qc_Round = rnd, qc_BlockHash = blockHash, qc_Signers = signers,
                     qc_Signature = signature, qc_VotingPower = votingPower\<rparr>)"

text \<open>What \<^verbatim>\<open>OnVote\<close> does once the vote is recorded.\<close>

definition certifyVotes :: "StateMachine \<Rightarrow> Vote \<Rightarrow> StateMachine \<times> consensus_error option" where
  "certifyVotes m vote =
     (case buildQuorumCert m (vote_Height vote) (vote_Round vote) (vote_BlockHash vote) of
        Inl _ \<Rightarrow> (m, None)
      | Inr qc \<Rightarrow>
          case SetQuorumCert (sm_blockTree m) qc of
            (tree, setErr) \<Rightarrow>
              let m = m\<lparr>sm_blockTree := tree\<rparr> in
              if setErr \<noteq> None \<and> setErr \<noteq> Some ErrBlockNotFound then (m, setErr)
              else
                let m = (if setErr = None then updateLockedQC m qc else m)
                in (m\<lparr>sm_status := (sm_status m)\<lparr>st_Phase := PhaseCommit\<rparr>\<rparr>, None))"

definition OnVote :: "Externals \<Rightarrow> StateMachine \<Rightarrow> ctx \<Rightarrow> Vote \<Rightarrow> StateMachine \<times> consensus_error option" where
  "OnVote ext m ctx vote =
     (case ctx of
        Some e \<Rightarrow> (m, Some (ConsensusCtxError e))
      | None \<Rightarrow>
          if Set_Get (sm_validatorSet m) (vote_ValidatorID vote) = None then (m, Some ErrUnknownValidator)
          else
            let vote = ensureVoteSignature m vote in
            case validateVote m vote of
              Some e \<Rightarrow> (m, Some e)
            | None \<Rightarrow>
                case recordVote ext m vote of
                  (m, Some e) \<Rightarrow> (m, Some e)
                | (m, None) \<Rightarrow> certifyVotes m vote)"

section \<open>Timeouts, certificates, committed blocks (state_machine.go)\<close>

definition OnTimeoutVote ::
    "Externals \<Rightarrow> StateMachine \<Rightarrow> ctx \<Rightarrow> TimeoutVote \<Rightarrow> StateMachine \<times> (consensus_error + TimeoutCert)" where
  "OnTimeoutVote ext m ctx vote =
     (case ctx of
        Some e \<Rightarrow> (m, Inl (ConsensusCtxError e))
      | None \<Rightarrow>
          let vote = ensureTimeoutVoteSignature m vote in
          case verifyTimeoutVoteSignature m vote of
            Some e \<Rightarrow> (m, Inl e)
          | None \<Rightarrow>
              case AddVote (sm_timeouts m) vote of
                (timeouts, Some e) \<Rightarrow>
                  (case ConflictingVote (sm_timeouts m) vote of
                     None \<Rightarrow> (m\<lparr>sm_timeouts := timeouts\<rparr>, Inl e)
                   | Some previous \<Rightarrow>
                       if e \<noteq> ErrConflictingTimeoutVote then (m\<lparr>sm_timeouts := timeouts\<rparr>, Inl e)
                       else
                         case NewConflictingTimeoutVoteEvidence ext previous vote of
                           Inl _ \<Rightarrow> (m\<lparr>sm_timeouts := timeouts\<rparr>, Inl e)
                         | Inr evidence \<Rightarrow>
                             (m\<lparr>sm_timeouts := timeouts, sm_evidence := sm_evidence m @ [evidence]\<rparr>, Inl e))
              | (timeouts, None) \<Rightarrow>
                  let m = m\<lparr>sm_timeouts := timeouts\<rparr> in
                  case BuildTimeoutCert timeouts (tv_Height vote) (tv_Round vote) of
                    Inl e \<Rightarrow> (m, Inl e)
                  | Inr timeoutCert \<Rightarrow>
                      case AdvanceRound (sm_pacemaker m) timeoutCert of
                        (pacemaker, Some e) \<Rightarrow> (m\<lparr>sm_pacemaker := pacemaker\<rparr>, Inl e)
                      | (pacemaker, None) \<Rightarrow>
                          (m\<lparr>sm_pacemaker := pacemaker,
                             sm_blockTree := ObserveQuorumCert (sm_blockTree m) (tc_HighQC timeoutCert),
                             sm_status := (sm_status m)
                               \<lparr>st_Height := pm_height pacemaker, st_Round := pm_round pacemaker,
                                st_Phase := PhasePropose, st_LastTimeoutCert := timeoutCert\<rparr>\<rparr>,
                           Inr timeoutCert))"

definition HighQC :: "StateMachine \<Rightarrow> ctx \<Rightarrow> QuorumCert" where
  "HighQC m ctx = (case ctx of Some _ \<Rightarrow> zeroQC | None \<Rightarrow> Tree_HighQC (sm_blockTree m))"

definition ObserveCommittedBlock ::
    "StateMachine \<Rightarrow> Block \<Rightarrow> QuorumCert \<Rightarrow> StateMachine \<times> consensus_error option" where
  "ObserveCommittedBlock m block quorumCert =
     (let blockHash = sm_hashBlock m block in
      if qc_Height quorumCert \<noteq> hdr_Height (blk_Header block) \<or> qc_BlockHash quorumCert \<noteq> blockHash
      then (m, Some ErrInvalidBlockCert)
      else
        let m = (if Tree_Get (sm_blockTree m) blockHash = None then insertBlock m block blockHash zeroQC else m)
        in case SetQuorumCert (sm_blockTree m) quorumCert of
             (tree, Some e) \<Rightarrow> (m\<lparr>sm_blockTree := tree\<rparr>, Some e)
           | (tree, None) \<Rightarrow> (updateLockedQC (m\<lparr>sm_blockTree := tree\<rparr>) quorumCert, None))"

definition BuildQuorumCert :: "StateMachine \<Rightarrow> Height \<Rightarrow> Round \<Rightarrow> hash \<Rightarrow> consensus_error + QuorumCert" where
  "BuildQuorumCert m height rnd blockHash = buildQuorumCert m height rnd blockHash"

definition ApplyCommitRule ::
    "StateMachine \<Rightarrow> CommitCandidate \<Rightarrow> StateMachine \<times> (consensus_error + CommitDecision)" where
  "ApplyCommitRule m candidate = applyCommitRule m candidate"

section \<open>Step driver (driver.go)\<close>

record StepDriver =
  drv_machine :: StateMachine
  drv_validators :: "Validator list"

record ProposeResult =
  pr_Proposal :: Proposal
  pr_BlockHash :: hash

record BlockStepResult =
  bs_Proposal :: Proposal
  bs_BlockHash :: hash
  bs_QuorumQC :: QuorumCert

definition NewStepDriver :: "StateMachine \<Rightarrow> consensus_error + StepDriver" where
  "NewStepDriver machine =
     (let validators = Set_List (sm_validatorSet machine) in
      if validators = [] then Inl ErrNoValidators
      else Inr \<lparr>drv_machine = machine, drv_validators = sort_key val_ID validators\<rparr>)"

definition Propose ::
    "Externals \<Rightarrow> StepDriver \<Rightarrow> ctx \<Rightarrow> Block \<Rightarrow> ValidatorID \<Rightarrow> StepDriver \<times> (consensus_error + ProposeResult)" where
  "Propose ext driver ctx block proposer =
     (let m = drv_machine driver; status = sm_status m;
          block = (if hdr_Height (blk_Header block) = 0
                   then block\<lparr>blk_Header := (blk_Header block)\<lparr>hdr_Height := st_Height status\<rparr>\<rparr> else block)
      in case CreateProposal ext m block (st_Round status) proposer zeroQC of
           Inl e \<Rightarrow> (driver, Inl e)
         | Inr proposal \<Rightarrow>
             case OnProposal ext m ctx proposal of
               (m, Some e) \<Rightarrow> (driver\<lparr>drv_machine := m\<rparr>, Inl e)
             | (m, None) \<Rightarrow>
                 (driver\<lparr>drv_machine := m\<rparr>,
                  Inr \<lparr>pr_Proposal = proposal, pr_BlockHash = sm_hashBlock m (prop_Block proposal)\<rparr>))"

fun voteLoop ::
    "Externals \<Rightarrow> ctx \<Rightarrow> Height \<Rightarrow> Round \<Rightarrow> hash \<Rightarrow> Validator list \<Rightarrow> StateMachine
     \<Rightarrow> StateMachine \<times> (consensus_error + QuorumCert)" where
  "voteLoop ext ctx h r blockHash [] m = (m, Inl ErrNoQuorum)"
| "voteLoop ext ctx h r blockHash (validatorInfo # rest) m =
     (case OnVote ext m ctx \<lparr>vote_Height = h, vote_Round = r, vote_BlockHash = blockHash,
                            vote_ValidatorID = val_ID validatorInfo, vote_Signature = []\<rparr> of
        (m, err) \<Rightarrow>
          if err \<noteq> None \<and> err \<noteq> Some ErrConflictingVote then (m, Inl (the err))
          else
            case BuildQuorumCert m h r blockHash of
              Inr qc \<Rightarrow> (m, Inr qc)
            | Inl _ \<Rightarrow> voteLoop ext ctx h r blockHash rest m)"

definition VoteQuorum :: "Externals \<Rightarrow> StepDriver \<Rightarrow> ctx \<Rightarrow> hash \<Rightarrow> StepDriver \<times> (consensus_error + QuorumCert)" where
  "VoteQuorum ext driver ctx blockHash =
     (let status = sm_status (drv_machine driver) in
      case voteLoop ext ctx (st_Height status) (st_Round status) blockHash (drv_validators driver)
             (drv_machine driver) of
        (m, res) \<Rightarrow> (driver\<lparr>drv_machine := m\<rparr>, res))"

definition StepBlock ::
    "Externals \<Rightarrow> StepDriver \<Rightarrow> ctx \<Rightarrow> Block \<Rightarrow> ValidatorID \<Rightarrow> StepDriver \<times> (consensus_error + BlockStepResult)" where
  "StepBlock ext driver ctx block proposer =
     (case Propose ext driver ctx block proposer of
        (driver, Inl e) \<Rightarrow> (driver, Inl e)
      | (driver, Inr proposeResult) \<Rightarrow>
          case VoteQuorum ext driver ctx (pr_BlockHash proposeResult) of
            (driver, Inl e) \<Rightarrow> (driver, Inl e)
          | (driver, Inr qc) \<Rightarrow>
              (driver, Inr \<lparr>bs_Proposal = pr_Proposal proposeResult,
                            bs_BlockHash = pr_BlockHash proposeResult, bs_QuorumQC = qc\<rparr>))"

fun timeoutLoop ::
    "Externals \<Rightarrow> ctx \<Rightarrow> Height \<Rightarrow> Round \<Rightarrow> QuorumCert \<Rightarrow> Validator list \<Rightarrow> StateMachine
     \<Rightarrow> StateMachine \<times> (consensus_error + TimeoutCert)" where
  "timeoutLoop ext ctx h r highQC [] m = (m, Inl ErrNoQuorum)"
| "timeoutLoop ext ctx h r highQC (validatorInfo # rest) m =
     (case OnTimeoutVote ext m ctx \<lparr>tv_Height = h, tv_Round = r, tv_ValidatorID = val_ID validatorInfo,
                                   tv_HighQC = highQC, tv_Signature = []\<rparr> of
        (m, Inr timeoutCert) \<Rightarrow> (m, Inr timeoutCert)
      | (m, Inl e) \<Rightarrow>
          if e \<noteq> ErrNoQuorum then (m, Inl e) else timeoutLoop ext ctx h r highQC rest m)"

definition TimeoutQuorum ::
    "Externals \<Rightarrow> StepDriver \<Rightarrow> ctx \<Rightarrow> QuorumCert \<Rightarrow> StepDriver \<times> (consensus_error + TimeoutCert)" where
  "TimeoutQuorum ext driver ctx highQC =
     (let status = sm_status (drv_machine driver) in
      case timeoutLoop ext ctx (st_Height status) (st_Round status) highQC (drv_validators driver)
             (drv_machine driver) of
        (m, res) \<Rightarrow> (driver\<lparr>drv_machine := m\<rparr>, res))"

end
