(* ===== verification/StateProof.thy ===== *)
theory StateProof
  imports Merkle
begin

text \<open>
  Packages \<^verbatim>\<open>stateproof\<close> and \<^verbatim>\<open>queryproof\<close>: the Merkle root of a namespace, membership and
  non-membership proofs, and the query proofs that light clients verify.  Proofs that are built are
  accepted, the root does not depend on the order of the pairs, and a membership proof binds the value;
  the compact absence proof is shown not to bind the positions of its neighbours.
\<close>

datatype proof_error = ErrInvalidNamespace | ErrInvalidKey | ErrDuplicateKey | ErrInvalidProof | ErrRootMismatch

section \<open>Data (stateproof.go)\<close>

record Pair =
  pair_Key :: bytes
  pair_Value :: bytes

record Step =
  step_Side :: string
  step_Hash :: hash

record AbsenceNeighbor =
  abn_Key :: bytes
  abn_Value :: bytes
  abn_Index :: u64
  abn_LeafCount :: u64
  abn_Path :: "Step list"

section \<open>Hashes\<close>

definition writeBytes :: "bytes \<Rightarrow> bytes" where
  "writeBytes value = be64 (u64_len value) @ value"

definition LeafHash :: "string \<Rightarrow> bytes \<Rightarrow> bytes \<Rightarrow> hash" where
  "LeafHash namespace key value =
     sha256 (''vexo.state.leaf.v1'' @ [CHR 0x00] @ namespace @ writeBytes key @ writeBytes value)"

definition nodeHash :: "hash \<Rightarrow> hash \<Rightarrow> hash" where
  "nodeHash left right = sha256 (''vexo.state.node.v1'' @ hash_bytes left @ hash_bytes right)"

definition emptyRoot :: "string \<Rightarrow> hash" where
  "emptyRoot namespace = sha256 (''vexo.state.empty.v1'' @ namespace)"

section \<open>Trees\<close>

definition sortedLeaves :: "string \<Rightarrow> Pair list \<Rightarrow> proof_error + Pair list" where
  "sortedLeaves namespace pairs =
     (if namespace = [] then Inl ErrInvalidNamespace
      else if list_ex (\<lambda>p. pair_Key p = []) pairs then Inl ErrInvalidKey
      else
        let leaves = sort_key pair_Key pairs in
        if \<not> distinct_adj (map pair_Key leaves) then Inl ErrDuplicateKey else Inr leaves)"

definition sp_merkleRoot :: "hash list \<Rightarrow> hash" where
  "sp_merkleRoot hashes = merkle_loop nodeHash (\<lambda>x. x) hashes"

definition to_step :: "merkle_step \<Rightarrow> Step" where
  "to_step = (\<lambda>(left, h). \<lparr>step_Side = (if left then ''left'' else ''right''), step_Hash = h\<rparr>)"

definition sp_merklePath :: "hash list \<Rightarrow> nat \<Rightarrow> Step list" where
  "sp_merklePath hashes targetIndex =
     map to_step (merkle_path nodeHash (\<lambda>x. x) (\<lambda>_. []) hashes targetIndex)"

definition leafHashes :: "string \<Rightarrow> Pair list \<Rightarrow> hash list" where
  "leafHashes namespace leaves = map (\<lambda>l. LeafHash namespace (pair_Key l) (pair_Value l)) leaves"

definition Root :: "string \<Rightarrow> Pair list \<Rightarrow> proof_error + hash" where
  "Root namespace pairs =
     (case sortedLeaves namespace pairs of
        Inl e \<Rightarrow> Inl e
      | Inr leaves \<Rightarrow>
          if leaves = [] then Inr (emptyRoot namespace)
          else Inr (sp_merkleRoot (leafHashes namespace leaves)))"

text \<open>The scan of \<^verbatim>\<open>BuildMembership\<close> for the target; the last match wins.\<close>

definition findTarget :: "Pair list \<Rightarrow> bytes \<Rightarrow> (nat \<times> bytes) option" where
  "findTarget leaves key =
     foldl (\<lambda>target (index, leaf). if pair_Key leaf = key then Some (index, pair_Value leaf) else target)
       None (enumerate 0 leaves)"

definition BuildMembership ::
    "string \<Rightarrow> Pair list \<Rightarrow> bytes \<Rightarrow> proof_error + hash \<times> bytes \<times> bool \<times> Step list" where
  "BuildMembership namespace pairs key =
     (if key = [] then Inl ErrInvalidKey
      else
        case sortedLeaves namespace pairs of
          Inl e \<Rightarrow> Inl e
        | Inr leaves \<Rightarrow>
            if leaves = [] then Inr (emptyRoot namespace, [], False, [])
            else
              let hashes = leafHashes namespace leaves in
              case findTarget leaves key of
                None \<Rightarrow> Inr (sp_merkleRoot hashes, [], False, [])
              | Some (targetIndex, value) \<Rightarrow>
                  Inr (sp_merkleRoot hashes, value, True, sp_merklePath hashes targetIndex))"

text \<open>\<^verbatim>\<open>sort.Search\<close> of the Go standard library.\<close>

function goSearch :: "nat \<Rightarrow> nat \<Rightarrow> (nat \<Rightarrow> bool) \<Rightarrow> nat" where
  "goSearch i j f =
     (if i < j then
        let h = (i + j) div 2 in
        if \<not> f h then goSearch (h + 1) j f else goSearch i h f
      else i)"
  by auto

termination goSearch
  by (relation "measure (\<lambda>(i, j, f). j - i)") auto

declare goSearch.simps [simp del]

definition absenceNeighbor :: "Pair \<Rightarrow> nat \<Rightarrow> nat \<Rightarrow> hash list \<Rightarrow> AbsenceNeighbor" where
  "absenceNeighbor pair index leafCount hashes =
     \<lparr>abn_Key = pair_Key pair, abn_Value = pair_Value pair, abn_Index = word_of_nat index,
      abn_LeafCount = word_of_nat leafCount, abn_Path = sp_merklePath hashes index\<rparr>"

definition BuildNonMembership ::
    "string \<Rightarrow> Pair list \<Rightarrow> bytes
     \<Rightarrow> proof_error + hash \<times> AbsenceNeighbor option \<times> AbsenceNeighbor option \<times> bool" where
  "BuildNonMembership namespace pairs key =
     (if key = [] then Inl ErrInvalidKey
      else
        case sortedLeaves namespace pairs of
          Inl e \<Rightarrow> Inl e
        | Inr leaves \<Rightarrow>
            if leaves = [] then Inr (emptyRoot namespace, None, None, False)
            else
              let hashes = leafHashes namespace leaves;
                  position = goSearch 0 (length leaves) (\<lambda>index. key \<le> pair_Key (leaves ! index));
                  root = sp_merkleRoot hashes
              in if position < length leaves \<and> pair_Key (leaves ! position) = key
                 then Inr (root, None, None, True)
                 else
                   Inr (root,
                        if 0 < position
                        then Some (absenceNeighbor (leaves ! (position - 1)) (position - 1)
                                     (length leaves) hashes)
                        else None,
                        if position < length leaves
                        then Some (absenceNeighbor (leaves ! position) position (length leaves) hashes)
                        else None,
                        False))"

section \<open>Verification\<close>

fun climbSteps :: "hash \<Rightarrow> Step list \<Rightarrow> hash option" where
  "climbSteps current [] = Some current"
| "climbSteps current (step # path) =
     (if step_Side step = ''left'' then climbSteps (nodeHash (step_Hash step) current) path
      else if step_Side step = ''right'' then climbSteps (nodeHash current (step_Hash step)) path
      else None)"

definition VerifyMembership :: "string \<Rightarrow> bytes \<Rightarrow> bytes \<Rightarrow> Step list \<Rightarrow> hash \<Rightarrow> bool" where
  "VerifyMembership namespace key value path expectedRoot =
     (if namespace = [] \<or> key = [] \<or> expectedRoot = zero_hash then False
      else climbSteps (LeafHash namespace key value) path = Some expectedRoot)"

definition VerifyNonMembership :: "string \<Rightarrow> Pair list \<Rightarrow> bytes \<Rightarrow> hash \<Rightarrow> bool" where
  "VerifyNonMembership namespace pairs key expectedRoot =
     (if namespace = [] \<or> key = [] \<or> expectedRoot = zero_hash then False
      else if list_ex (\<lambda>p. pair_Key p = key) pairs then False
      else Root namespace pairs = Inr expectedRoot)"

definition verifyNeighbor :: "string \<Rightarrow> AbsenceNeighbor \<Rightarrow> hash \<Rightarrow> bool" where
  "verifyNeighbor namespace neighbor expectedRoot =
     (if abn_Key neighbor = [] \<or> abn_LeafCount neighbor = 0
         \<or> abn_LeafCount neighbor \<le> abn_Index neighbor
      then False
      else VerifyMembership namespace (abn_Key neighbor) (abn_Value neighbor) (abn_Path neighbor)
             expectedRoot)"

definition VerifyNonMembershipCompact ::
    "string \<Rightarrow> bytes \<Rightarrow> hash \<Rightarrow> AbsenceNeighbor option \<Rightarrow> AbsenceNeighbor option \<Rightarrow> bool" where
  "VerifyNonMembershipCompact namespace key expectedRoot left right =
     (if namespace = [] \<or> key = [] \<or> expectedRoot = zero_hash then False
      else if left = None \<and> right = None then expectedRoot = emptyRoot namespace
      else if (case left of None \<Rightarrow> False
               | Some l \<Rightarrow> key \<le> abn_Key l \<or> \<not> verifyNeighbor namespace l expectedRoot) then False
      else if (case right of None \<Rightarrow> False
               | Some r \<Rightarrow> abn_Key r \<le> key \<or> \<not> verifyNeighbor namespace r expectedRoot) then False
      else
        case (left, right) of
          (None, Some r) \<Rightarrow> abn_Index r = 0
        | (Some l, None) \<Rightarrow> abn_Index l + 1 = abn_LeafCount l
        | (Some l, Some r) \<Rightarrow>
            abn_LeafCount l = abn_LeafCount r \<and> abn_Index l + 1 = abn_Index r
        | (None, None) \<Rightarrow> False)"

definition Contains :: "Pair list \<Rightarrow> bytes \<Rightarrow> bool" where
  "Contains pairs key \<longleftrightarrow> list_ex (\<lambda>p. pair_Key p = key) pairs"

section \<open>Query proofs (queryproof.go)\<close>

record QueryProof =
  qp_SchemaVersion :: string
  qp_ChainID :: string
  qp_Height :: Height
  qp_Namespace :: string
  qp_Key :: bytes
  qp_Value :: bytes
  qp_Exists :: bool
  qp_StateRoot :: hash
  qp_LeafHash :: hash
  qp_MerklePath :: "Step list"
  qp_NamespaceLeaves :: "Pair list"
  qp_AbsenceLeft :: "AbsenceNeighbor option"
  qp_AbsenceRight :: "AbsenceNeighbor option"

definition SchemaVersionV1 :: string where
  "SchemaVersionV1 = ''v1''"

definition BuildFromPairs ::
    "string \<Rightarrow> Height \<Rightarrow> string \<Rightarrow> bytes \<Rightarrow> Pair list \<Rightarrow> hash \<Rightarrow> proof_error + QueryProof" where
  "BuildFromPairs chainID height namespace key pairs stateRoot =
     (if chainID = [] \<or> height = 0 \<or> namespace = [] \<or> key = [] \<or> stateRoot = zero_hash
      then Inl ErrInvalidProof
      else
        case BuildMembership namespace pairs key of
          Inl e \<Rightarrow> Inl e
        | Inr (root, value, exists, path) \<Rightarrow>
            if root \<noteq> stateRoot then Inl ErrRootMismatch
            else
              case (if exists then Inr (None, None)
                    else
                      case BuildNonMembership namespace pairs key of
                        Inl e \<Rightarrow> Inl e
                      | Inr (absenceRoot, left, right, absenceExists) \<Rightarrow>
                          if absenceExists \<or> absenceRoot \<noteq> stateRoot then Inl ErrInvalidProof
                          else Inr (left, right)) of
                Inl e \<Rightarrow> Inl e
              | Inr (absenceLeft, absenceRight) \<Rightarrow>
                  Inr \<lparr>qp_SchemaVersion = SchemaVersionV1, qp_ChainID = chainID, qp_Height = height,
                       qp_Namespace = namespace, qp_Key = key, qp_Value = value, qp_Exists = exists,
                       qp_StateRoot = stateRoot, qp_LeafHash = LeafHash namespace key value,
                       qp_MerklePath = path, qp_NamespaceLeaves = [],
                       qp_AbsenceLeft = absenceLeft, qp_AbsenceRight = absenceRight\<rparr>)"

definition qp_Verify :: "QueryProof \<Rightarrow> string \<Rightarrow> Height \<Rightarrow> hash \<Rightarrow> proof_error option" where
  "qp_Verify p expectedChainID expectedHeight expectedRoot =
     (if qp_SchemaVersion p \<noteq> SchemaVersionV1 \<or> qp_ChainID p = [] \<or> qp_Height p = 0
         \<or> qp_Namespace p = [] \<or> qp_Key p = []
      then Some ErrInvalidProof
      else if expectedChainID \<noteq> [] \<and> qp_ChainID p \<noteq> expectedChainID then Some ErrInvalidProof
      else if expectedHeight \<noteq> 0 \<and> qp_Height p \<noteq> expectedHeight then Some ErrInvalidProof
      else if expectedRoot \<noteq> zero_hash \<and> qp_StateRoot p \<noteq> expectedRoot then Some ErrRootMismatch
      else if qp_LeafHash p \<noteq> LeafHash (qp_Namespace p) (qp_Key p) (qp_Value p)
      then Some ErrInvalidProof
      else if qp_Exists p then
        (if VerifyMembership (qp_Namespace p) (qp_Key p) (qp_Value p) (qp_MerklePath p) (qp_StateRoot p)
         then None else Some ErrInvalidProof)
      else if qp_AbsenceLeft p \<noteq> None \<or> qp_AbsenceRight p \<noteq> None then
        (if VerifyNonMembershipCompact (qp_Namespace p) (qp_Key p) (qp_StateRoot p)
              (qp_AbsenceLeft p) (qp_AbsenceRight p)
         then None else Some ErrInvalidProof)
      else if VerifyNonMembership (qp_Namespace p) (qp_NamespaceLeaves p) (qp_Key p) (qp_StateRoot p)
      then None else Some ErrInvalidProof)"

section \<open>The tree as a Merkle tree\<close>

interpretation sp: merkle_tree nodeHash "\<lambda>x. x" "\<lambda>_. []"
  by unfold_locales simp

lemma climbSteps_to_step: "climbSteps h (map to_step path) = Some (merkle_climb nodeHash h path)"
proof (induction path arbitrary: h)
  case (Cons step path)
  then show ?case
    by (cases step; cases "fst step") (auto simp: to_step_def)
qed simp

lemma climb_path:
  "i < length hashes \<Longrightarrow> climbSteps (hashes ! i) (sp_merklePath hashes i) = Some (sp_merkleRoot hashes)"
  by (simp add: sp_merklePath_def sp_merkleRoot_def climbSteps_to_step sp.path_complete)

section \<open>Sorted leaves\<close>

lemma sorted_distinct_adj: "sorted xs \<Longrightarrow> distinct_adj xs \<longleftrightarrow> distinct xs" for xs :: "string list"
proof (induction xs)
  case (Cons x xs)
  then show ?case
    by (cases xs) (auto simp: distinct_adj_Cons)
qed simp

lemma sortedLeaves_Inr:
  "sortedLeaves ns pairs = Inr leaves \<longleftrightarrow>
     ns \<noteq> [] \<and> (\<forall>p \<in> set pairs. pair_Key p \<noteq> []) \<and> distinct (map pair_Key pairs)
     \<and> leaves = sort_key pair_Key pairs"
proof -
  have "distinct (map pair_Key (sort_key pair_Key pairs)) = distinct (map pair_Key pairs)"
    by (metis mset_eq_imp_distinct_iff mset_map mset_sort)
  then show ?thesis
    by (auto simp: sortedLeaves_def Let_def list_ex_iff sorted_distinct_adj)
qed

lemma filter_eq_single: "distinct zs \<Longrightarrow> k \<in> set zs \<Longrightarrow> filter ((=) k) zs = [k]"
proof (induction zs)
  case (Cons z zs)
  then show ?case
    by (cases "z = k") (auto intro: filter_False)
qed simp

lemma sort_key_perm:
  assumes "mset xs = mset ys" and "distinct (map f xs)"
  shows "sort_key f xs = sort_key (f :: 'a \<Rightarrow> 'b :: linorder) ys"
proof (rule properties_for_sort_key [symmetric])
  show "mset (sort_key f xs) = mset ys"
    using assms(1) by simp
  show "sorted (map f (sort_key f xs))"
    by simp
  show "filter (\<lambda>x. f k = f x) (sort_key f xs) = filter (\<lambda>x. f k = f x) ys" if "k \<in> set (sort_key f xs)" for k
  proof -
    have inj: "inj_on f (set xs)" and dx: "distinct xs"
      using assms(2) by (auto simp: distinct_map)
    have dy: "distinct ys" and sy: "set ys = set xs"
      using assms(1) dx mset_eq_setD [OF assms(1)] mset_eq_imp_distinct_iff [OF assms(1)] by auto
    have one: "filter (\<lambda>x. f k = f x) zs = [k]" if "distinct zs" "set zs = set xs" for zs
    proof -
      have "k \<in> set zs"
        using that \<open>k \<in> set (sort_key f xs)\<close> by simp
      moreover have "\<forall>x \<in> set zs. f k = f x \<longrightarrow> x = k"
        using inj that calculation by (auto dest: inj_onD)
      ultimately have "filter (\<lambda>x. f k = f x) zs = filter ((=) k) zs"
        by (intro filter_cong) auto
      with \<open>k \<in> set zs\<close> that(1) show ?thesis
        by (simp add: filter_eq_single)
    qed
    show ?thesis
      using one [of "sort_key f xs"] one [OF dy sy] dx by simp
  qed
qed

lemma sortedLeaves_perm:
  assumes "mset pairs = mset pairs'"
  shows "sortedLeaves ns pairs = Inr leaves \<longleftrightarrow> sortedLeaves ns pairs' = Inr leaves"
proof -
  have "set pairs = set pairs'"
    by (rule mset_eq_setD [OF assms])
  moreover have "distinct (map pair_Key pairs) = distinct (map pair_Key pairs')"
    using assms by (metis mset_eq_imp_distinct_iff mset_map)
  moreover have "distinct (map pair_Key pairs) \<Longrightarrow> sort_key pair_Key pairs = sort_key pair_Key pairs'"
    by (rule sort_key_perm [OF assms])
  ultimately show ?thesis
    unfolding sortedLeaves_Inr by metis
qed

lemma Root_Inr:
  "Root ns pairs = Inr r \<longleftrightarrow>
     (\<exists>leaves. sortedLeaves ns pairs = Inr leaves
        \<and> r = (if leaves = [] then emptyRoot ns else sp_merkleRoot (leafHashes ns leaves)))"
  by (auto simp: Root_def split: sum.splits)

lemma Root_perm:
  assumes "mset pairs = mset pairs'"
  shows "Root ns pairs = Inr r \<longleftrightarrow> Root ns pairs' = Inr r"
  by (simp only: Root_Inr sortedLeaves_perm [OF assms])

section \<open>Proofs that are built are accepted\<close>

lemma findTarget_Some_aux:
  "foldl (\<lambda>target (index, leaf). if pair_Key leaf = key then Some (index, pair_Value leaf) else target)
     acc (enumerate n leaves) = Some (i, v) \<Longrightarrow>
   acc = Some (i, v) \<or> (\<exists>j < length leaves. i = n + j \<and> pair_Key (leaves ! j) = key \<and> pair_Value (leaves ! j) = v)"
proof (induction leaves arbitrary: acc n)
  case (Cons l leaves)
  from Cons.IH [of "if pair_Key l = key then Some (n, pair_Value l) else acc" "Suc n"] Cons.prems
  consider "(if pair_Key l = key then Some (n, pair_Value l) else acc) = Some (i, v)"
    | j where "j < length leaves" "i = Suc n + j" "pair_Key (leaves ! j) = key" "pair_Value (leaves ! j) = v"
    by auto
  then show ?case
  proof cases
    case 1
    then show ?thesis
      by (cases "pair_Key l = key") (auto intro!: exI [of _ 0])
  next
    case 2
    then show ?thesis
      by (intro disjI2 exI [of _ "Suc j"]) simp
  qed
qed simp

lemma findTarget_Some:
  assumes "findTarget leaves key = Some (i, v)"
  shows "i < length leaves \<and> pair_Key (leaves ! i) = key \<and> pair_Value (leaves ! i) = v"
  using findTarget_Some_aux [of key None 0 leaves i v] assms by (simp add: findTarget_def)

lemma findTarget_None_aux:
  "foldl (\<lambda>target (index, leaf). if pair_Key leaf = key then Some (index, pair_Value leaf) else target)
     acc (enumerate n leaves) = None \<longleftrightarrow> acc = None \<and> key \<notin> pair_Key ` set leaves"
  by (induction leaves arbitrary: acc n) auto

lemma findTarget_None: "findTarget leaves key = None \<longleftrightarrow> key \<notin> pair_Key ` set leaves"
  by (simp add: findTarget_def findTarget_None_aux)

lemma leafHashes_nth [simp]:
  "length (leafHashes ns leaves) = length leaves"
  "i < length leaves \<Longrightarrow> leafHashes ns leaves ! i = LeafHash ns (pair_Key (leaves ! i)) (pair_Value (leaves ! i))"
  by (simp_all add: leafHashes_def)

lemma VerifyMembership_nth:
  assumes "i < length leaves" and "ns \<noteq> []" and "pair_Key (leaves ! i) \<noteq> []"
  shows "VerifyMembership ns (pair_Key (leaves ! i)) (pair_Value (leaves ! i))
           (sp_merklePath (leafHashes ns leaves) i) (sp_merkleRoot (leafHashes ns leaves))
         \<longleftrightarrow> sp_merkleRoot (leafHashes ns leaves) \<noteq> zero_hash"
  using climb_path [of i "leafHashes ns leaves"] assms by (simp add: VerifyMembership_def)

lemma BuildMembership_eq:
  assumes "key \<noteq> []" and "sortedLeaves ns pairs = Inr leaves" and "Root ns pairs = Inr root"
  shows "BuildMembership ns pairs key =
    Inr (case findTarget leaves key of
           None \<Rightarrow> (root, [], False, [])
         | Some (i, v) \<Rightarrow> (root, v, True, sp_merklePath (leafHashes ns leaves) i))"
proof -
  have "findTarget [] key = None"
    by (simp add: findTarget_None)
  with assms show ?thesis
    by (auto simp: BuildMembership_def Root_def Let_def split: option.split)
qed

lemma BuildMembership_Root:
  "(\<exists>r. BuildMembership ns pairs key = Inr r) \<longleftrightarrow> key \<noteq> [] \<and> (\<exists>root. Root ns pairs = Inr root)"
  by (cases "sortedLeaves ns pairs")
     (auto simp: BuildMembership_def Root_def Let_def split: option.split)

lemma BuildMembership_cases:
  assumes "Root ns pairs = Inr root" and "key \<noteq> []"
  obtains (found) v path where
      "BuildMembership ns pairs key = Inr (root, v, True, path)"
      "\<lparr>pair_Key = key, pair_Value = v\<rparr> \<in> set pairs"
      "VerifyMembership ns key v path root \<longleftrightarrow> root \<noteq> zero_hash"
  | (absent) "BuildMembership ns pairs key = Inr (root, [], False, [])" "key \<notin> pair_Key ` set pairs"
proof -
  from assms(1) obtain leaves where sl: "sortedLeaves ns pairs = Inr leaves"
    and rt: "root = (if leaves = [] then emptyRoot ns else sp_merkleRoot (leafHashes ns leaves))"
    by (auto simp: Root_Inr)
  from sl have ns: "ns \<noteq> []" and st: "set leaves = set pairs"
    by (auto simp: sortedLeaves_Inr)
  note eq = BuildMembership_eq [OF assms(2) sl assms(1)]
  show thesis
  proof (cases "findTarget leaves key")
    case None
    with eq st show thesis
      by (intro absent) (simp_all add: findTarget_None)
  next
    case (Some iv)
    then obtain i v where f: "findTarget leaves key = Some (i, v)"
      by (cases iv) simp
    note t = findTarget_Some [OF f]
    then have "leaves ! i = \<lparr>pair_Key = key, pair_Value = v\<rparr>"
      by (cases "leaves ! i") simp
    with t st have "\<lparr>pair_Key = key, pair_Value = v\<rparr> \<in> set pairs"
      by (metis nth_mem)
    moreover have "VerifyMembership ns key v (sp_merklePath (leafHashes ns leaves) i) root
        \<longleftrightarrow> root \<noteq> zero_hash"
      using VerifyMembership_nth [of i leaves ns] t ns assms(2) rt by auto
    ultimately show thesis
      using eq f by (intro found) simp_all
  qed
qed

section \<open>Absence\<close>

lemma goSearch_spec:
  assumes "i \<le> j" and "\<And>a b. a \<le> b \<Longrightarrow> b < n \<Longrightarrow> f a \<Longrightarrow> f b" and "j \<le> n"
    and "\<And>k. k < i \<Longrightarrow> \<not> f k" and "\<And>k. j \<le> k \<Longrightarrow> k < n \<Longrightarrow> f k"
  shows "goSearch i j f \<le> n \<and> (\<forall>k < goSearch i j f. \<not> f k) \<and> (\<forall>k. goSearch i j f \<le> k \<and> k < n \<longrightarrow> f k)"
  using assms
proof (induction i j f rule: goSearch.induct)
  case (1 i j f)
  show ?case
  proof (cases "i < j")
    case False
    then have "goSearch i j f = i"
      by (simp add: goSearch.simps)
    with False "1.prems"(1,3-5) show ?thesis
      by simp
  next
    case True
    define h where "h = (i + j) div 2"
    have h: "i \<le> h" "h < j" "h < n"
      using True "1.prems"(3) by (auto simp: h_def)
    show ?thesis
    proof (cases "f h")
      case fh: True
      have up: "f k" if "h \<le> k" "k < n" for k
        using "1.prems"(2) [OF that fh] .
      have "goSearch i j f = goSearch i h f"
        using True fh by (subst goSearch.simps) (simp add: Let_def h_def)
      then show ?thesis
        using "1.IH"(2) [OF True h_def _ h(1) "1.prems"(2) _ "1.prems"(4) up] fh h by simp
    next
      case fh: False
      have low: "\<not> f k" if "k < h + 1" for k
        using fh "1.prems"(2) [of k h] that h(3) by auto
      have "goSearch i j f = goSearch (h + 1) j f"
        using True fh by (subst goSearch.simps) (simp add: Let_def h_def)
      then show ?thesis
        using "1.IH"(1) [OF True h_def fh _ "1.prems"(2) "1.prems"(3) low "1.prems"(5)] h(2) by simp
    qed
  qed
qed

lemma position_spec:
  assumes "sorted (map pair_Key leaves)" and "pos = goSearch 0 (length leaves) (\<lambda>i. key \<le> pair_Key (leaves ! i))"
  shows "pos \<le> length leaves \<and> (\<forall>k < pos. pair_Key (leaves ! k) < key)
    \<and> (\<forall>k. pos \<le> k \<and> k < length leaves \<longrightarrow> key \<le> pair_Key (leaves ! k))"
proof -
  have mono: "key \<le> pair_Key (leaves ! b)"
    if "a \<le> b" "b < length leaves" "key \<le> pair_Key (leaves ! a)" for a b
    using sorted_nth_mono [OF assms(1), of a b] that by simp
  show ?thesis
    using goSearch_spec [of 0 "length leaves" "length leaves" "\<lambda>i. key \<le> pair_Key (leaves ! i)"] mono
    unfolding assms(2) by (auto simp: not_le)
qed

lemma verifyNeighbor_built:
  assumes "i < length leaves" and "ns \<noteq> []" and "pair_Key (leaves ! i) \<noteq> []" and "length leaves < 2 ^ 64"
    and "sp_merkleRoot (leafHashes ns leaves) \<noteq> zero_hash"
  shows "verifyNeighbor ns (absenceNeighbor (leaves ! i) i (length leaves) (leafHashes ns leaves))
           (sp_merkleRoot (leafHashes ns leaves))"
proof -
  have "unat (word_of_nat i :: u64) = i" and "unat (word_of_nat (length leaves) :: u64) = length leaves"
    using assms by (simp_all add: u64_of_nat)
  then have "(word_of_nat i :: u64) < word_of_nat (length leaves)"
    using assms(1) by (simp add: word_less_nat_alt)
  then have "\<not> (word_of_nat (length leaves) :: u64) \<le> word_of_nat i" and "word_of_nat (length leaves) \<noteq> (0 :: u64)"
    by auto
  with VerifyMembership_nth [OF assms(1-3)] assms(3,5) show ?thesis
    by (simp add: verifyNeighbor_def absenceNeighbor_def)
qed

lemma BuildNonMembership_complete:
  assumes "Root ns pairs = Inr root" and "key \<notin> pair_Key ` set pairs" and "key \<noteq> []"
    and "root \<noteq> zero_hash" and "length pairs < 2 ^ 64"
  shows "\<exists>left right. BuildNonMembership ns pairs key = Inr (root, left, right, False)
    \<and> VerifyNonMembershipCompact ns key root left right
    \<and> (left = None \<and> right = None \<longrightarrow> pairs = [])"
proof -
  from assms(1) obtain leaves where sl: "sortedLeaves ns pairs = Inr leaves"
    and rt: "root = (if leaves = [] then emptyRoot ns else sp_merkleRoot (leafHashes ns leaves))"
    by (auto simp: Root_Inr)
  from sl have ns: "ns \<noteq> []" and nz: "\<forall>p \<in> set leaves. pair_Key p \<noteq> []" and st: "set leaves = set pairs"
    and srt: "sorted (map pair_Key leaves)" and len: "length leaves = length pairs"
    by (auto simp: sortedLeaves_Inr)
  show ?thesis
  proof (cases "leaves = []")
    case True
    with sl rt ns assms len show ?thesis
      by (simp add: BuildNonMembership_def VerifyNonMembershipCompact_def)
  next
    case False
    define hashes where "hashes = leafHashes ns leaves"
    define n where "n = length leaves"
    define pos where "pos = goSearch 0 n (\<lambda>i. key \<le> pair_Key (leaves ! i))"
    have pos: "pos \<le> n" "\<forall>k < pos. pair_Key (leaves ! k) < key"
        "\<forall>k. pos \<le> k \<and> k < n \<longrightarrow> key \<le> pair_Key (leaves ! k)"
      using position_spec [OF srt, of pos key] by (auto simp: pos_def n_def)
    have neq: "pair_Key (leaves ! k) \<noteq> key" if "k < n" for k
      using assms(2) st that by (metis image_eqI n_def nth_mem)
    let ?left = "if 0 < pos then Some (absenceNeighbor (leaves ! (pos - 1)) (pos - 1) n hashes) else None"
    let ?right = "if pos < n then Some (absenceNeighbor (leaves ! pos) pos n hashes) else None"
    have built: "BuildNonMembership ns pairs key = Inr (root, ?left, ?right, False)"
      using sl False assms(3) rt neq [of pos] unfolding BuildNonMembership_def
      by (simp add: Let_def hashes_def [symmetric] n_def [symmetric] pos_def [symmetric])
    have vn: "verifyNeighbor ns (absenceNeighbor (leaves ! i) i n hashes) root" if "i < n" for i
      using verifyNeighbor_built [of i leaves ns] that ns nz assms(4,5) rt False len
      by (simp add: n_def hashes_def)
    have lft: "pair_Key (leaves ! (pos - 1)) < key \<and> verifyNeighbor ns (absenceNeighbor (leaves ! (pos - 1)) (pos - 1) n hashes) root"
      if "0 < pos"
      using that pos(1,2) vn [of "pos - 1"] by simp
    have rgt: "key < pair_Key (leaves ! pos) \<and> verifyNeighbor ns (absenceNeighbor (leaves ! pos) pos n hashes) root"
      if "pos < n"
      using that pos(3) vn [of pos] neq [of pos] by (simp add: order_less_le)
    have some: "0 < pos \<or> pos < n"
      using False pos(1) by (auto simp: n_def)
    have succ: "(word_of_nat (pos - 1) + 1 :: u64) = word_of_nat pos" if "0 < pos"
      using that by (metis Suc_pred' of_nat_Suc add.commute)
    have "VerifyNonMembershipCompact ns key root ?left ?right"
      using some lft rgt succ ns assms(3,4) pos(1) unfolding VerifyNonMembershipCompact_def
      by (cases "0 < pos"; cases "pos < n") (simp_all add: absenceNeighbor_def not_le)
    with built some show ?thesis
      by (cases "0 < pos"; cases "pos < n") auto
  qed
qed

lemma BuildFromPairs_Inr:
  assumes "BuildFromPairs chainID height ns key pairs root = Inr p"
  shows "chainID \<noteq> [] \<and> height \<noteq> 0 \<and> ns \<noteq> [] \<and> key \<noteq> [] \<and> root \<noteq> zero_hash \<and> Root ns pairs = Inr root"
proof -
  have g: "chainID \<noteq> [] \<and> height \<noteq> 0 \<and> ns \<noteq> [] \<and> key \<noteq> [] \<and> root \<noteq> zero_hash"
    using assms by (simp add: BuildFromPairs_def split: if_splits)
  then obtain r where b: "BuildMembership ns pairs key = Inr r"
    using assms by (cases "BuildMembership ns pairs key") (auto simp: BuildFromPairs_def)
  then obtain root' where r: "Root ns pairs = Inr root'"
    using BuildMembership_Root by blast
  have "root' = root"
  proof (rule BuildMembership_cases [OF r, of key])
    show "key \<noteq> []"
      using g by simp
  qed (use assms g in \<open>auto simp: BuildFromPairs_def split: if_splits\<close>)
  with g r show ?thesis
    by simp
qed

lemma BuildFromPairs_complete:
  assumes "chainID \<noteq> []" "height \<noteq> 0" "ns \<noteq> []" "key \<noteq> []" "root \<noteq> zero_hash" "Root ns pairs = Inr root"
    and "length pairs < 2 ^ 64"
  shows "\<exists>p. BuildFromPairs chainID height ns key pairs root = Inr p
    \<and> qp_Verify p chainID height root = None
    \<and> qp_Namespace p = ns \<and> qp_Key p = key \<and> (qp_Exists p \<longleftrightarrow> key \<in> pair_Key ` set pairs)
    \<and> (qp_Exists p \<longrightarrow> \<lparr>pair_Key = key, pair_Value = qp_Value p\<rparr> \<in> set pairs)"
proof (rule BuildMembership_cases [OF assms(6,4)])
  fix v path
  assume b: "BuildMembership ns pairs key = Inr (root, v, True, path)"
    and m: "\<lparr>pair_Key = key, pair_Value = v\<rparr> \<in> set pairs"
    and vm: "VerifyMembership ns key v path root \<longleftrightarrow> root \<noteq> zero_hash"
  have "key \<in> pair_Key ` set pairs"
    by (rule image_eqI [OF _ m]) simp
  with b m vm assms show ?thesis
    by (simp add: BuildFromPairs_def qp_Verify_def)
next
  assume b: "BuildMembership ns pairs key = Inr (root, [], False, [])" and k: "key \<notin> pair_Key ` set pairs"
  from BuildNonMembership_complete [OF assms(6) k assms(4,5,7)] obtain left right where
    n: "BuildNonMembership ns pairs key = Inr (root, left, right, False)"
      "VerifyNonMembershipCompact ns key root left right" "left = None \<and> right = None \<longrightarrow> pairs = []"
    by blast
  have "VerifyNonMembership ns [] key root" if "left = None \<and> right = None"
    using n(3) that assms by (simp add: VerifyNonMembership_def)
  with b k n assms show ?thesis
    by (cases "left = None \<and> right = None") (simp_all add: BuildFromPairs_def qp_Verify_def)
qed

section \<open>Binding\<close>

definition leaf_preimage :: "string \<Rightarrow> bytes \<Rightarrow> bytes \<Rightarrow> bytes" where
  "leaf_preimage namespace key value =
     ''vexo.state.leaf.v1'' @ [CHR 0x00] @ namespace @ writeBytes key @ writeBytes value"

definition node_preimage :: "hash \<times> hash \<Rightarrow> bytes" where
  "node_preimage = (\<lambda>(left, right). ''vexo.state.node.v1'' @ hash_bytes left @ hash_bytes right)"

lemma LeafHash_preimage: "LeafHash ns k v = sha256 (leaf_preimage ns k v)"
  by (simp add: LeafHash_def leaf_preimage_def)

lemma nodeHash_preimage: "nodeHash l r = sha256 (node_preimage (l, r))"
  by (simp add: nodeHash_def node_preimage_def)

lemma writeBytes_append_inj:
  assumes "writeBytes k @ xs = writeBytes k' @ ys" and "length k < 2 ^ 64" and "length k' < 2 ^ 64"
  shows "k = k' \<and> xs = ys"
proof -
  have "u64_len k = u64_len k' \<and> k @ xs = k' @ ys"
    using assms(1) by (simp add: writeBytes_def)
  moreover from this have "length k = length k'"
    using u64_of_length_inj [OF assms(2,3)] by (simp add: u64_len_def)
  ultimately show ?thesis
    by simp
qed

lemma leaf_preimage_inj:
  assumes "leaf_preimage ns k v = leaf_preimage ns k' v'"
    and "length k < 2 ^ 64" "length k' < 2 ^ 64" "length v < 2 ^ 64" "length v' < 2 ^ 64"
  shows "k = k' \<and> v = v'"
proof -
  have "writeBytes k @ writeBytes v = writeBytes k' @ writeBytes v'"
    using assms(1) by (simp add: leaf_preimage_def)
  from writeBytes_append_inj [OF this assms(2,3)] have "k = k'" "writeBytes v @ [] = writeBytes v' @ []"
    by simp_all
  with writeBytes_append_inj [OF this(2) assms(4,5)] show ?thesis
    by simp
qed

lemma node_preimage_inj: "node_preimage x = node_preimage y \<longleftrightarrow> x = y"
  by (cases x; cases y) (simp add: node_preimage_def)

lemma leaf_node_disjoint: "leaf_preimage ns k v \<noteq> node_preimage x"
  by (cases x) (simp add: leaf_preimage_def node_preimage_def)

definition of_step :: "Step \<Rightarrow> merkle_step" where
  "of_step step = (step_Side step = ''left'', step_Hash step)"

text \<open>Every byte string that \<^verbatim>\<open>VerifyMembership\<close> hashes.\<close>

definition verify_preimages :: "string \<Rightarrow> bytes \<Rightarrow> bytes \<Rightarrow> Step list \<Rightarrow> bytes list" where
  "verify_preimages namespace key value path =
     leaf_preimage namespace key value
     # map node_preimage (climb_inputs nodeHash (LeafHash namespace key value) (map of_step path))"

lemma climbSteps_of_step:
  "climbSteps h path = Some r \<Longrightarrow> merkle_climb nodeHash h (map of_step path) = r"
  by (induction path arbitrary: h) (auto simp: of_step_def split: if_splits)

lemma of_step_fst: "map fst (map of_step p) = map (\<lambda>side. side = ''left'') (map step_Side p)"
  by (simp add: of_step_def)

lemma VerifyMembership_binding:
  assumes "VerifyMembership ns k v p root" and "VerifyMembership ns k' v' q root"
    and "map step_Side p = map step_Side q"
    and "inj_on sha256 (set (verify_preimages ns k v p) \<union> set (verify_preimages ns k' v' q))"
    and "length k < 2 ^ 64" "length k' < 2 ^ 64" "length v < 2 ^ 64" "length v' < 2 ^ 64"
  shows "k = k' \<and> v = v'"
proof -
  let ?g = "LeafHash ns k v" and ?h = "LeafHash ns k' v'"
  let ?I = "set (climb_inputs nodeHash ?g (map of_step p)) \<union> set (climb_inputs nodeHash ?h (map of_step q))"
  have "merkle_climb nodeHash ?g (map of_step p) = merkle_climb nodeHash ?h (map of_step q)"
    using assms(1,2) by (auto simp: VerifyMembership_def dest!: climbSteps_of_step split: if_splits)
  moreover have "inj_on (\<lambda>(l, r). nodeHash l r) ?I"
  proof (rule inj_onI)
    fix x y
    assume xy: "x \<in> ?I" "y \<in> ?I" and "(\<lambda>(l, r). nodeHash l r) x = (\<lambda>(l, r). nodeHash l r) y"
    then have "sha256 (node_preimage x) = sha256 (node_preimage y)"
      by (simp add: nodeHash_preimage split: prod.splits)
    with assms(4) have "node_preimage x = node_preimage y"
      by (rule inj_onD) (use xy in \<open>auto simp: verify_preimages_def\<close>)
    then show "x = y"
      by (simp add: node_preimage_inj)
  qed
  ultimately have "?g = ?h"
    using climb_binding [of "map of_step p" "map of_step q" nodeHash ?g ?h]
    by (simp only: of_step_fst assms(3))
  then have "sha256 (leaf_preimage ns k v) = sha256 (leaf_preimage ns k' v')"
    by (simp add: LeafHash_preimage)
  with assms(4) have "leaf_preimage ns k v = leaf_preimage ns k' v'"
    by (rule inj_onD) (auto simp: verify_preimages_def)
  with assms(5-8) show ?thesis
    by (intro leaf_preimage_inj) auto
qed

section \<open>The compact absence proof does not bind positions\<close>

lemma forged_absence:
  assumes "a < b" and "b < c" and "a \<noteq> []" and "ns \<noteq> []"
    and "hashes = [LeafHash ns a va, LeafHash ns b vb, LeafHash ns c vc]"
    and "root = sp_merkleRoot hashes" and "root \<noteq> zero_hash"
    and "forge = (\<lambda>k v i j. \<lparr>abn_Key = k, abn_Value = v, abn_Index = i, abn_LeafCount = 2,
                   abn_Path = sp_merklePath hashes j\<rparr>)"
  shows "VerifyMembership ns b vb (sp_merklePath hashes 1) root
    \<and> VerifyNonMembershipCompact ns b root (Some (forge a va 0 0)) (Some (forge c vc 1 2))"
proof -
  have "b \<noteq> []" "c \<noteq> []" "\<not> b \<le> a" "\<not> c \<le> b" "\<not> (2 :: u64) \<le> 1"
    using assms(1,2) by (auto simp: not_le)
  moreover have "climbSteps (hashes ! i) (sp_merklePath hashes i) = Some root" if "i < 3" for i
    using climb_path [of i hashes] that assms(5,6) by simp
  from this [of 0] this [of 1] this [of 2]
  have "climbSteps (LeafHash ns a va) (sp_merklePath hashes 0) = Some root"
    "climbSteps (LeafHash ns b vb) (sp_merklePath hashes 1) = Some root"
    "climbSteps (LeafHash ns c vc) (sp_merklePath hashes 2) = Some root"
    by (simp_all add: assms(5))
  ultimately show ?thesis
    using assms(1-4,7,8)
    by (simp add: VerifyMembership_def VerifyNonMembershipCompact_def verifyNeighbor_def)
qed

section \<open>Properties\<close>

text \<open>
  C22: Query proofs are complete.  For a state of fewer than 2^64 pairs with root \<open>root\<close>, a proof can be built for
  every key, present or absent; the proof verifies against the chain, height and root; it says the key exists
  exactly when the state has it, and then its value is the value in the state.
\<close>

theorem query_proof_complete:
  assumes "chainID \<noteq> []" and "height \<noteq> 0" and "key \<noteq> []" and "root \<noteq> zero_hash"
    and "Root ns pairs = Inr root" and "length pairs < 2 ^ 64"
  shows "\<exists>p. BuildFromPairs chainID height ns key pairs root = Inr p
    \<and> qp_Verify p chainID height root = None
    \<and> qp_Namespace p = ns \<and> qp_Key p = key
    \<and> (if qp_Exists p then \<lparr>pair_Key = key, pair_Value = qp_Value p\<rparr> \<in> set pairs
       else key \<notin> pair_Key ` set pairs)"
proof -
  have "ns \<noteq> []"
    using assms(5) by (auto simp: Root_def sortedLeaves_def)
  with BuildFromPairs_complete [OF assms(1,2) _ assms(3-6)] show ?thesis
    by auto
qed

text \<open>One pair, whose leaf hash is not zero.\<close>

lemma ex_state_leaf: "LeafHash ''n'' ''k'' ''v'' \<noteq> 0"
  unfolding LeafHash_def
  by code_simp

theorem query_proof_complete_witness:
  "\<exists>p root. BuildFromPairs ''vexo'' 3 ''n'' ''k'' [\<lparr>pair_Key = ''k'', pair_Value = ''v''\<rparr>] root = Inr p
     \<and> qp_Verify p ''vexo'' 3 root = None \<and> qp_Key p = ''k''"
proof -
  let ?pairs = "[\<lparr>pair_Key = ''k'', pair_Value = ''v''\<rparr>]" and ?root = "LeafHash ''n'' ''k'' ''v''"
  have "Root ''n'' ?pairs = Inr ?root"
    by (simp add: Root_def sortedLeaves_def leafHashes_def sp_merkleRoot_def merkle_loop.simps)
  then show ?thesis
    using query_proof_complete [of "''vexo''" 3 "''k''" ?root "''n''" ?pairs] ex_state_leaf by auto
qed

text \<open>
  C23: A membership proof binds the value.  If two proofs with the same directions verify against the same root,
  they prove the same key and value, or two different byte strings that the verifier hashes have the same
  SHA-256 hash.
\<close>

theorem membership_proof_binding:
  assumes "VerifyMembership ns k v p root" and "VerifyMembership ns k' v' q root"
    and "map step_Side p = map step_Side q"
    and "list_all (\<lambda>x. length x < 2 ^ 64) [k, k', v, v']"
  shows "k = k' \<and> v = v' \<or>
    (\<exists>x y. x \<in> set (verify_preimages ns k v p @ verify_preimages ns k' v' q)
       \<and> y \<in> set (verify_preimages ns k v p @ verify_preimages ns k' v' q) \<and> x \<noteq> y \<and> sha256 x = sha256 y)"
proof (cases "inj_on sha256 (set (verify_preimages ns k v p) \<union> set (verify_preimages ns k' v' q))")
  case True
  with VerifyMembership_binding [OF assms(1-3)] assms(4) show ?thesis
    by simp
next
  case False
  then show ?thesis
    unfolding inj_on_def set_append by blast
qed

theorem membership_proof_binding_witness:
  "VerifyMembership ''n'' ''k'' ''v'' [] (LeafHash ''n'' ''k'' ''v'')
     \<and> (''v'' = ''v'' \<or> (\<exists>x y. x \<noteq> y \<and> sha256 x = sha256 y))"
proof -
  have m: "VerifyMembership ''n'' ''k'' ''v'' [] (LeafHash ''n'' ''k'' ''v'')"
    using ex_state_leaf by (simp add: VerifyMembership_def)
  then show ?thesis
    using membership_proof_binding [OF m m refl] by auto
qed

text \<open>
  C37: A compact absence proof does not prove absence.  The index and the number of leaves in it are not bound
  to the root: in a tree of three leaves (unless its root is the all-zero hash) the middle key has a membership
  proof and also, with the indices renumbered, an accepted absence proof, whatever the values are.
\<close>

theorem absence_proof_forgeable:
  assumes "a < b" and "b < c" and "a \<noteq> []" and "ns \<noteq> []"
    and "hashes = [LeafHash ns a va, LeafHash ns b vb, LeafHash ns c vc]"
  shows "sp_merkleRoot hashes = zero_hash
    \<or> VerifyMembership ns b vb (sp_merklePath hashes 1) (sp_merkleRoot hashes)
      \<and> (\<exists>left right. VerifyNonMembershipCompact ns b (sp_merkleRoot hashes) (Some left) (Some right))"
  using forged_absence [OF assms refl _ refl] by blast

theorem absence_proof_forgeable_witness:
  "let hashes = [LeafHash ''n'' ''a'' ''1'', LeafHash ''n'' ''b'' ''2'', LeafHash ''n'' ''c'' ''3''] in
   sp_merkleRoot hashes = zero_hash
    \<or> VerifyMembership ''n'' ''b'' ''2'' (sp_merklePath hashes 1) (sp_merkleRoot hashes)
      \<and> (\<exists>left right. VerifyNonMembershipCompact ''n'' ''b'' (sp_merkleRoot hashes) (Some left) (Some right))"
  unfolding Let_def
  by (rule absence_proof_forgeable [of "''a''" _ "''c''"]) (simp_all add: less_char_def)

end
