(* ===== verification/EvidenceProofs.thy ===== *)
theory EvidenceProofs
  imports StateMachine StateProof Finality
begin

text \<open>
  Evidence of consensus faults (\<^verbatim>\<open>consensus/evidence.go\<close>): the proofs carried by evidence, their
  constructors, the context an invalid-proposal proof is bound to, and the verification of each kind of
  evidence.  The JSON codec is a parameter; so is the registry of verifiers for custom reasons, which is a
  global variable of the package.  The lemmas show what accepted evidence proves, that the constructors
  only build evidence that is accepted, and which fields the context hash covers.
\<close>

section \<open>Data\<close>

datatype evidence_error =
    ErrUnsupportedProposalReason
  | ErrInvalidProposalContext
  | ErrEvidenceValidatorNotFound
  | ErrEvidenceSignatureVerifier
  | ErrEvidenceFinalityVerifier
  | ErrUnsupportedEvidenceProof
  | ErrInvalidEvidenceVoteSignature
  | ErrInvalidEvidenceTimeoutSignature
  | ErrSlashingRegistryMismatch
  | EvidenceConsensusError consensus_error
  | EvidenceSlashingError slashing_error
  | EvidenceDAError da_error
  | EvidenceProofError proof_error
  | EvidenceFinalityError finality_error
  | EvidenceValidatorError validator_error
  | EvidenceJSONError string

abbreviation InvalidProposalError :: evidence_error where
  "InvalidProposalError \<equiv> EvidenceConsensusError (ErrInvalidProposal [])"

abbreviation PairMismatchError :: evidence_error where
  "PairMismatchError \<equiv> EvidenceConsensusError ErrVotePairMismatch"

type_synonym InvalidProposalReason = string

definition InvalidProposalReasonDAMismatch :: InvalidProposalReason where
  "InvalidProposalReasonDAMismatch = ''da_mismatch''"

definition InvalidProposalReasonMissingData :: InvalidProposalReason where
  "InvalidProposalReasonMissingData = ''missing_data''"

definition InvalidProposalReasonValidatorSetHash :: InvalidProposalReason where
  "InvalidProposalReasonValidatorSetHash = ''validator_set_hash''"

definition InvalidProposalReasonAppHash :: InvalidProposalReason where
  "InvalidProposalReasonAppHash = ''app_hash''"

definition InvalidProposalReasonTimestamp :: InvalidProposalReason where
  "InvalidProposalReasonTimestamp = ''timestamp''"

definition InvalidProposalReasonTxValidity :: InvalidProposalReason where
  "InvalidProposalReasonTxValidity = ''tx_validity''"

definition builtinInvalidProposalReasons :: "InvalidProposalReason list" where
  "builtinInvalidProposalReasons =
     [InvalidProposalReasonDAMismatch, InvalidProposalReasonMissingData,
      InvalidProposalReasonValidatorSetHash, InvalidProposalReasonAppHash,
      InvalidProposalReasonTxValidity, InvalidProposalReasonTimestamp]"

record ConflictingVoteProof =
  cvp_First :: Vote
  cvp_Second :: Vote

record ConflictingTimeoutVoteProof =
  ctp_First :: TimeoutVote
  ctp_Second :: TimeoutVote

record TxExecutionProof =
  xp_TxIndex :: u64
  xp_Tx :: Tx
  xp_ExpectedResults :: "Result list"
  xp_ActualResults :: "Result list"

record InvalidProposalProof =
  ipp_Proposal :: Proposal
  ipp_Reason :: InvalidProposalReason
  ipp_ExpectedHash :: hash
  ipp_ActualHash :: hash
  ipp_ContextProofHash :: hash
  ipp_StateProof :: "QueryProof option"
  ipp_ExecutionProof :: "TxExecutionProof option"
  ipp_ExpectedTimeUnixNano :: u64
  ipp_ActualTimeUnixNano :: u64
  ipp_VerificationMessage :: string

text \<open>The proof a struct literal builds: the fields that are not given have their zero values.\<close>

definition newProof :: "Proposal \<Rightarrow> InvalidProposalReason \<Rightarrow> InvalidProposalProof" where
  "newProof proposal reason =
     \<lparr>ipp_Proposal = proposal, ipp_Reason = reason, ipp_ExpectedHash = zero_hash, ipp_ActualHash = zero_hash,
      ipp_ContextProofHash = zero_hash, ipp_StateProof = None, ipp_ExecutionProof = None,
      ipp_ExpectedTimeUnixNano = 0, ipp_ActualTimeUnixNano = 0, ipp_VerificationMessage = []\<rparr>"

record InvalidProposalVerificationContext =
  ipc_ExpectedValidatorSetHash :: hash
  ipc_ExpectedAppHash :: hash
  ipc_ExpectedTxResultsHash :: hash
  ipc_ExpectedTxResults :: "Result list"
  ipc_ActualTxResults :: "Result list"
  ipc_TxIndex :: u64
  ipc_ContextProofHash :: hash
  ipc_ChainID :: string
  ipc_ExpectedStateRoot :: hash
  ipc_ExpectedProofNamespace :: string
  ipc_ExpectedProofKey :: bytes
  ipc_ExpectedProofValue :: bytes
  ipc_ExpectedProofExists :: "bool option"
  ipc_RequireStateProof :: bool
  ipc_ExpectedTimeUnixNano :: u64

definition zeroContext :: InvalidProposalVerificationContext where
  "zeroContext =
     \<lparr>ipc_ExpectedValidatorSetHash = zero_hash, ipc_ExpectedAppHash = zero_hash,
      ipc_ExpectedTxResultsHash = zero_hash, ipc_ExpectedTxResults = [], ipc_ActualTxResults = [],
      ipc_TxIndex = 0, ipc_ContextProofHash = zero_hash, ipc_ChainID = [],
      ipc_ExpectedStateRoot = zero_hash, ipc_ExpectedProofNamespace = [], ipc_ExpectedProofKey = [],
      ipc_ExpectedProofValue = [], ipc_ExpectedProofExists = None, ipc_RequireStateProof = False,
      ipc_ExpectedTimeUnixNano = 0\<rparr>"

record UnavailableDataProof =
  udp_Proposal :: Proposal
  udp_Reason :: string
  udp_ExpectedCommitment :: hash
  udp_ActualCommitment :: hash
  udp_TxCount :: u64
  udp_TotalBytes :: u64

type_synonym InvalidProposalVerifier =
  "InvalidProposalProof \<Rightarrow> InvalidProposalVerificationContext \<Rightarrow> evidence_error option"

record invalidProposalVerifierEntry =
  vre_verifier :: InvalidProposalVerifier
  vre_requireContext :: bool

type_synonym verifier_registry = "(InvalidProposalReason, invalidProposalVerifierEntry) gomap"

text \<open>
  What the package uses of its environment: the JSON codec of every proof, the query proof codec used for
  cloning, the decoder of finality conflicts, and the registry of custom verifiers.
\<close>

record EvidenceEnv =
  env_decodeVotes :: "bytes \<Rightarrow> string + ConflictingVoteProof"
  env_decodeTimeouts :: "bytes \<Rightarrow> string + ConflictingTimeoutVoteProof"
  env_encodeInvalid :: "InvalidProposalProof \<Rightarrow> string + bytes"
  env_decodeInvalid :: "bytes \<Rightarrow> string + InvalidProposalProof"
  env_encodeUnavailable :: "UnavailableDataProof \<Rightarrow> string + bytes"
  env_decodeUnavailable :: "bytes \<Rightarrow> string + UnavailableDataProof"
  env_encodeQuery :: "QueryProof \<Rightarrow> string + bytes"
  env_decodeQuery :: "bytes \<Rightarrow> string + QueryProof"
  env_decodeConflict :: "bytes \<Rightarrow> ConflictProof option"
  env_verifiers :: verifier_registry

section \<open>Custom reasons\<close>

definition isBuiltinInvalidProposalReason :: "InvalidProposalReason \<Rightarrow> bool" where
  "isBuiltinInvalidProposalReason reason \<longleftrightarrow> reason \<in> set builtinInvalidProposalReasons"

definition isCustomInvalidProposalReason :: "verifier_registry \<Rightarrow> InvalidProposalReason \<Rightarrow> bool" where
  "isCustomInvalidProposalReason reg reason \<longleftrightarrow> map_of reg reason \<noteq> None"

definition validInvalidProposalReason :: "verifier_registry \<Rightarrow> InvalidProposalReason \<Rightarrow> bool" where
  "validInvalidProposalReason reg reason \<longleftrightarrow>
     isBuiltinInvalidProposalReason reason \<or> isCustomInvalidProposalReason reg reason"

definition invalidProposalVerifier :: "verifier_registry \<Rightarrow> InvalidProposalReason \<Rightarrow> InvalidProposalVerifier option" where
  "invalidProposalVerifier reg reason =
     (case map_of reg reason of None \<Rightarrow> None | Some entry \<Rightarrow> Some (vre_verifier entry))"

definition RegisterInvalidProposalVerifierWithOptions ::
    "verifier_registry \<Rightarrow> InvalidProposalReason \<Rightarrow> InvalidProposalVerifier option \<Rightarrow> bool
     \<Rightarrow> verifier_registry \<times> evidence_error option" where
  "RegisterInvalidProposalVerifierWithOptions reg reason verifier requireContext =
     (case verifier of
        None \<Rightarrow> (reg, Some ErrUnsupportedProposalReason)
      | Some f \<Rightarrow>
          if reason = [] \<or> isBuiltinInvalidProposalReason reason then (reg, Some ErrUnsupportedProposalReason)
          else if map_of reg reason \<noteq> None then (reg, Some ErrUnsupportedProposalReason)
          else (AList.update reason \<lparr>vre_verifier = f, vre_requireContext = requireContext\<rparr> reg, None))"

definition RegisterInvalidProposalVerifier ::
    "verifier_registry \<Rightarrow> InvalidProposalReason \<Rightarrow> InvalidProposalVerifier option
     \<Rightarrow> verifier_registry \<times> evidence_error option" where
  "RegisterInvalidProposalVerifier reg reason verifier =
     RegisterInvalidProposalVerifierWithOptions reg reason verifier False"

definition registeredInvalidProposalReasons :: "verifier_registry \<Rightarrow> InvalidProposalReason list" where
  "registeredInvalidProposalReasons reg = map fst reg"

definition SupportedInvalidProposalReasons :: "verifier_registry \<Rightarrow> InvalidProposalReason list" where
  "SupportedInvalidProposalReasons reg =
     builtinInvalidProposalReasons @ sort (registeredInvalidProposalReasons reg)"

definition invalidProposalReasonRequiresContext :: "verifier_registry \<Rightarrow> InvalidProposalReason \<Rightarrow> bool" where
  "invalidProposalReasonRequiresContext reg reason =
     (if reason \<in> {InvalidProposalReasonValidatorSetHash, InvalidProposalReasonAppHash,
                   InvalidProposalReasonTimestamp, InvalidProposalReasonTxValidity} then True
      else case map_of reg reason of None \<Rightarrow> False | Some entry \<Rightarrow> vre_requireContext entry)"

section \<open>Hashes of results, transactions and contexts\<close>

definition result_bytes :: "bytes \<Rightarrow> bytes" where
  "result_bytes data = be64 (u64_len data) @ data"

definition result_preimage :: "Result \<Rightarrow> bytes" where
  "result_preimage result =
     be64 (ucast (res_Code result)) @ result_bytes (res_Log result) @ result_bytes (res_Data result)
     @ be64 (res_GasUsed result) @ be64 (res_FeePaid result)"

definition results_preimage :: "Result list \<Rightarrow> bytes" where
  "results_preimage results = be64 (u64_len results) @ concat (map result_preimage results)"

definition HashTxResults :: "Result list \<Rightarrow> hash" where
  "HashTxResults results = sha256 (results_preimage results)"

definition txSetHash :: "Tx list \<Rightarrow> hash" where
  "txSetHash txs = sha256 (concat (map (\<lambda>tx. hash_bytes (sha256 tx)) txs))"

definition sameResult :: "Result \<Rightarrow> Result \<Rightarrow> bool" where
  "sameResult left right \<longleftrightarrow>
     res_Code left = res_Code right \<and> res_Log left = res_Log right \<and> res_Data left = res_Data right
     \<and> res_GasUsed left = res_GasUsed right \<and> res_FeePaid left = res_FeePaid right"

definition context_preimage :: "InvalidProposalVerificationContext \<Rightarrow> bytes" where
  "context_preimage c =
     ''vexo.invalid_proposal.context.v1''
     @ hash_bytes (ipc_ExpectedValidatorSetHash c) @ hash_bytes (ipc_ExpectedAppHash c)
     @ hash_bytes (ipc_ExpectedTxResultsHash c) @ hash_bytes (ipc_ExpectedStateRoot c)
     @ result_bytes (ipc_ChainID c) @ result_bytes (ipc_ExpectedProofNamespace c)
     @ result_bytes (ipc_ExpectedProofKey c) @ result_bytes (ipc_ExpectedProofValue c)
     @ (case ipc_ExpectedProofExists c of
          Some exists \<Rightarrow> be64 1 @ be64 (if exists then 1 else 0)
        | None \<Rightarrow> be64 0)
     @ be64 (if ipc_RequireStateProof c then 1 else 0)
     @ be64 (ipc_ExpectedTimeUnixNano c)
     @ (if ipc_ExpectedTxResults c \<noteq> [] \<or> ipc_ActualTxResults c \<noteq> []
        then hash_bytes (HashTxResults (ipc_ExpectedTxResults c))
             @ hash_bytes (HashTxResults (ipc_ActualTxResults c)) @ be64 (ipc_TxIndex c)
        else [])"

definition ProofHash :: "InvalidProposalVerificationContext \<Rightarrow> hash" where
  "ProofHash c =
     (if ipc_ExpectedValidatorSetHash c = zero_hash \<and> ipc_ExpectedAppHash c = zero_hash
         \<and> ipc_ExpectedTxResultsHash c = zero_hash \<and> ipc_ExpectedTxResults c = []
         \<and> ipc_ActualTxResults c = [] \<and> ipc_TxIndex c = 0 \<and> ipc_ExpectedStateRoot c = zero_hash
         \<and> ipc_ChainID c = [] \<and> ipc_ExpectedProofNamespace c = [] \<and> ipc_ExpectedProofKey c = []
         \<and> ipc_ExpectedProofValue c = [] \<and> ipc_ExpectedProofExists c = None
         \<and> \<not> ipc_RequireStateProof c \<and> ipc_ExpectedTimeUnixNano c = 0
      then zero_hash else sha256 (context_preimage c))"

section \<open>Verification by reason\<close>

definition verifyInvalidProposalEnvelope ::
    "verifier_registry \<Rightarrow> InvalidProposalProof \<Rightarrow> ValidatorID \<Rightarrow> Height \<Rightarrow> Round \<Rightarrow> evidence_error option" where
  "verifyInvalidProposalEnvelope reg decoded validatorID height rnd =
     (if ipp_Reason decoded = [] \<or> \<not> validInvalidProposalReason reg (ipp_Reason decoded)
         \<or> prop_Proposer (ipp_Proposal decoded) \<noteq> validatorID
         \<or> hdr_Height (blk_Header (prop_Block (ipp_Proposal decoded))) \<noteq> height
         \<or> prop_Round (ipp_Proposal decoded) \<noteq> rnd
      then Some PairMismatchError else None)"

definition verifyDACommitmentProof :: "InvalidProposalProof \<Rightarrow> evidence_error option" where
  "verifyDACommitmentProof decoded =
     (let block = prop_Block (ipp_Proposal decoded);
          expectedCommitment = Commitment (blk_Txs block);
          actualCommitment = hdr_ConsensusHash (blk_Header block)
      in if ipp_ExpectedHash decoded = zero_hash \<or> ipp_ExpectedHash decoded \<noteq> expectedCommitment
            \<or> ipp_ActualHash decoded \<noteq> actualCommitment
         then Some InvalidProposalError
         else if ipp_Reason decoded = InvalidProposalReasonDAMismatch
                 \<and> ipp_ExpectedHash decoded = ipp_ActualHash decoded
         then Some InvalidProposalError
         else if ipp_Reason decoded = InvalidProposalReasonMissingData \<and> ipp_ActualHash decoded \<noteq> zero_hash
         then Some InvalidProposalError
         else None)"

text \<open>The end of both data-availability cases: exactly the given error of \<^verbatim>\<open>dataavailability.Verify\<close> is proof.\<close>

definition verifyDAError :: "InvalidProposalProof \<Rightarrow> da_error \<Rightarrow> evidence_error option" where
  "verifyDAError decoded expected =
     (case verifyDACommitmentProof decoded of
        Some e \<Rightarrow> Some e
      | None \<Rightarrow>
          let block = prop_Block (ipp_Proposal decoded) in
          case DA_Verify (blk_Header block) (blk_Txs block) of
            None \<Rightarrow> Some InvalidProposalError
          | Some err \<Rightarrow> if err = expected then None else Some (EvidenceDAError err))"

definition verifyHashMismatch :: "InvalidProposalProof \<Rightarrow> hash \<Rightarrow> evidence_error option" where
  "verifyHashMismatch decoded proposalActual =
     (if ipp_ExpectedHash decoded = zero_hash \<or> ipp_ActualHash decoded = zero_hash
         \<or> ipp_ExpectedHash decoded = ipp_ActualHash decoded
      then Some InvalidProposalError
      else if proposalActual \<noteq> zero_hash \<and> ipp_ActualHash decoded \<noteq> proposalActual
      then Some InvalidProposalError
      else None)"

definition verifyTxValidityMismatch :: "InvalidProposalProof \<Rightarrow> evidence_error option" where
  "verifyTxValidityMismatch decoded =
     (let txs = blk_Txs (prop_Block (ipp_Proposal decoded)) in
      if ipp_ExpectedHash decoded = zero_hash \<or> ipp_ActualHash decoded = zero_hash
         \<or> ipp_ExpectedHash decoded = ipp_ActualHash decoded
      then Some InvalidProposalError
      else
        case ipp_ExecutionProof decoded of
          None \<Rightarrow> if ipp_ActualHash decoded \<noteq> txSetHash txs then Some InvalidProposalError else None
        | Some p \<Rightarrow>
            if u64_len txs \<le> xp_TxIndex p \<or> xp_Tx p \<noteq> txs ! unat (xp_TxIndex p)
               \<or> length (xp_ExpectedResults p) \<noteq> length txs \<or> length (xp_ActualResults p) \<noteq> length txs
            then Some InvalidProposalError
            else if HashTxResults (xp_ExpectedResults p) \<noteq> ipp_ExpectedHash decoded
                    \<or> HashTxResults (xp_ActualResults p) \<noteq> ipp_ActualHash decoded
            then Some InvalidProposalError
            else if sameResult (xp_ExpectedResults p ! unat (xp_TxIndex p))
                      (xp_ActualResults p ! unat (xp_TxIndex p))
            then Some InvalidProposalError
            else None)"

definition verifyInvalidProposalByReasonWithContext ::
    "verifier_registry \<Rightarrow> InvalidProposalProof \<Rightarrow> InvalidProposalVerificationContext \<Rightarrow> evidence_error option" where
  "verifyInvalidProposalByReasonWithContext reg decoded c =
     (let reason = ipp_Reason decoded; header = blk_Header (prop_Block (ipp_Proposal decoded)) in
      if reason = InvalidProposalReasonDAMismatch then verifyDAError decoded ErrCommitmentMismatch
      else if reason = InvalidProposalReasonMissingData then verifyDAError decoded ErrMissingData
      else if reason = InvalidProposalReasonValidatorSetHash
      then verifyHashMismatch decoded (hdr_ValidatorSetHash header)
      else if reason = InvalidProposalReasonAppHash then verifyHashMismatch decoded (hdr_AppHash header)
      else if reason = InvalidProposalReasonTxValidity then
        (if ipp_VerificationMessage decoded = [] then Some InvalidProposalError
         else verifyTxValidityMismatch decoded)
      else if reason = InvalidProposalReasonTimestamp then
        (if ipp_ExpectedTimeUnixNano decoded = 0 \<or> ipp_ActualTimeUnixNano decoded = 0
            \<or> ipp_ExpectedTimeUnixNano decoded = ipp_ActualTimeUnixNano decoded
            \<or> hdr_TimeUnixNano header \<noteq> 0 \<and> ipp_ActualTimeUnixNano decoded \<noteq> hdr_TimeUnixNano header
         then Some InvalidProposalError else None)
      else
        case invalidProposalVerifier reg reason of
          Some verifier \<Rightarrow> verifier decoded c
        | None \<Rightarrow> Some ErrUnsupportedProposalReason)"

definition verifyInvalidProposalByReason ::
    "verifier_registry \<Rightarrow> InvalidProposalProof \<Rightarrow> evidence_error option" where
  "verifyInvalidProposalByReason reg decoded =
     verifyInvalidProposalByReasonWithContext reg decoded zeroContext"

definition verifyInvalidProposalBoundContext ::
    "verifier_registry \<Rightarrow> InvalidProposalProof \<Rightarrow> InvalidProposalVerificationContext \<Rightarrow> evidence_error option" where
  "verifyInvalidProposalBoundContext reg decoded c =
     (if \<not> invalidProposalReasonRequiresContext reg (ipp_Reason decoded) then None
      else if ipp_ContextProofHash decoded = zero_hash \<or> ipc_ContextProofHash c = zero_hash
      then Some ErrInvalidProposalContext
      else
        let computed = ProofHash c in
        if computed = zero_hash \<or> ipc_ContextProofHash c \<noteq> computed then Some ErrInvalidProposalContext
        else if ipp_ContextProofHash decoded \<noteq> computed then Some InvalidProposalError
        else None)"

definition verifyInvalidProposalStateProof ::
    "InvalidProposalProof \<Rightarrow> InvalidProposalVerificationContext \<Rightarrow> Height \<Rightarrow> evidence_error option" where
  "verifyInvalidProposalStateProof decoded c height =
     (case ipp_StateProof decoded of
        None \<Rightarrow> if ipc_RequireStateProof c then Some ErrInvalidProposalContext else None
      | Some p \<Rightarrow>
          if ipc_ExpectedStateRoot c = zero_hash then Some ErrInvalidProposalContext
          else
            case qp_Verify p (ipc_ChainID c) height (ipc_ExpectedStateRoot c) of
              Some e \<Rightarrow> Some (EvidenceProofError e)
            | None \<Rightarrow>
                if ipc_ExpectedProofNamespace c \<noteq> [] \<and> qp_Namespace p \<noteq> ipc_ExpectedProofNamespace c
                then Some InvalidProposalError
                else if ipc_ExpectedProofKey c \<noteq> [] \<and> qp_Key p \<noteq> ipc_ExpectedProofKey c
                then Some InvalidProposalError
                else if ipc_ExpectedProofExists c \<noteq> None \<and> ipc_ExpectedProofExists c \<noteq> Some (qp_Exists p)
                then Some InvalidProposalError
                else if ipc_ExpectedProofValue c \<noteq> [] \<and> qp_Value p \<noteq> ipc_ExpectedProofValue c
                then Some InvalidProposalError
                else None)"

section \<open>Verification of evidence\<close>

definition VerifyConflictingVoteEvidence :: "EvidenceEnv \<Rightarrow> Evidence \<Rightarrow> evidence_error option" where
  "VerifyConflictingVoteEvidence env evidence =
     (if evd_Type evidence \<noteq> EvidenceConflictingVote then Some (EvidenceSlashingError ErrUnknownEvidenceType)
      else
        case env_decodeVotes env (evd_Proof evidence) of
          Inl e \<Rightarrow> Some (EvidenceJSONError e)
        | Inr decoded \<Rightarrow>
            let v1 = cvp_First decoded; v2 = cvp_Second decoded in
            if vote_ValidatorID v1 \<noteq> evd_Validator evidence \<or> vote_Height v1 \<noteq> evd_Height evidence
               \<or> vote_Round v1 \<noteq> evd_Round evidence then Some PairMismatchError
            else if vote_ValidatorID v2 \<noteq> evd_Validator evidence \<or> vote_Height v2 \<noteq> evd_Height evidence
               \<or> vote_Round v2 \<noteq> evd_Round evidence then Some PairMismatchError
            else if vote_BlockHash v1 = vote_BlockHash v2
            then Some (EvidenceConsensusError ErrVotesDoNotConflict)
            else None)"

definition VerifyConflictingTimeoutVoteEvidence :: "EvidenceEnv \<Rightarrow> Evidence \<Rightarrow> evidence_error option" where
  "VerifyConflictingTimeoutVoteEvidence env evidence =
     (if evd_Type evidence \<noteq> EvidenceConflictingTimeoutVote
      then Some (EvidenceSlashingError ErrUnknownEvidenceType)
      else
        case env_decodeTimeouts env (evd_Proof evidence) of
          Inl e \<Rightarrow> Some (EvidenceJSONError e)
        | Inr decoded \<Rightarrow>
            let v1 = ctp_First decoded; v2 = ctp_Second decoded in
            if tv_ValidatorID v1 \<noteq> evd_Validator evidence \<or> tv_Height v1 \<noteq> evd_Height evidence
               \<or> tv_Round v1 \<noteq> evd_Round evidence then Some PairMismatchError
            else if tv_ValidatorID v2 \<noteq> evd_Validator evidence \<or> tv_Height v2 \<noteq> evd_Height evidence
               \<or> tv_Round v2 \<noteq> evd_Round evidence then Some PairMismatchError
            else if sameQC (tv_HighQC v1) (tv_HighQC v2)
            then Some (EvidenceConsensusError ErrTimeoutVotesDoNotConflict)
            else None)"

definition VerifyInvalidProposalEvidence :: "EvidenceEnv \<Rightarrow> Evidence \<Rightarrow> evidence_error option" where
  "VerifyInvalidProposalEvidence env evidence =
     (let reg = env_verifiers env in
      if evd_Type evidence \<noteq> EvidenceInvalidProposal then Some (EvidenceSlashingError ErrUnknownEvidenceType)
      else
        case env_decodeInvalid env (evd_Proof evidence) of
          Inl e \<Rightarrow> Some (EvidenceJSONError e)
        | Inr decoded \<Rightarrow>
            case verifyInvalidProposalEnvelope reg decoded (evd_Validator evidence) (evd_Height evidence)
                   (evd_Round evidence) of
              Some e \<Rightarrow> Some e
            | None \<Rightarrow>
                if ipp_Reason decoded \<notin> {InvalidProposalReasonDAMismatch, InvalidProposalReasonMissingData}
                   \<and> \<not> isCustomInvalidProposalReason reg (ipp_Reason decoded)
                then Some ErrInvalidProposalContext
                else if ipp_ContextProofHash decoded \<noteq> zero_hash then Some ErrInvalidProposalContext
                else verifyInvalidProposalByReason reg decoded)"

text \<open>The \<^verbatim>\<open>switch\<close> over the reason in the verification with a context.\<close>

definition verifyReasonContext ::
    "InvalidProposalProof \<Rightarrow> InvalidProposalVerificationContext \<Rightarrow> evidence_error option" where
  "verifyReasonContext decoded c =
     (let reason = ipp_Reason decoded in
      if reason = InvalidProposalReasonValidatorSetHash then
        (if ipc_ExpectedValidatorSetHash c = zero_hash then Some ErrInvalidProposalContext
         else if ipp_ExpectedHash decoded \<noteq> ipc_ExpectedValidatorSetHash c then Some InvalidProposalError
         else None)
      else if reason = InvalidProposalReasonAppHash then
        (if ipc_ExpectedAppHash c = zero_hash then Some ErrInvalidProposalContext
         else if ipp_ExpectedHash decoded \<noteq> ipc_ExpectedAppHash c then Some InvalidProposalError
         else None)
      else if reason = InvalidProposalReasonTimestamp then
        (if ipc_ExpectedTimeUnixNano c = 0 then Some ErrInvalidProposalContext
         else if ipp_ExpectedTimeUnixNano decoded \<noteq> ipc_ExpectedTimeUnixNano c then Some InvalidProposalError
         else None)
      else if reason = InvalidProposalReasonTxValidity then
        (if ipc_ExpectedTxResultsHash c = zero_hash then Some ErrInvalidProposalContext
         else if ipp_ExecutionProof decoded = None then Some InvalidProposalError
         else if ipp_ExpectedHash decoded \<noteq> ipc_ExpectedTxResultsHash c then Some InvalidProposalError
         else None)
      else None)"

definition verifyContextHash ::
    "InvalidProposalProof \<Rightarrow> InvalidProposalVerificationContext \<Rightarrow> evidence_error option" where
  "verifyContextHash decoded c =
     (if ipp_ContextProofHash decoded \<noteq> zero_hash then
        (let computed = ProofHash c in
         if ipc_ContextProofHash c = zero_hash \<or> computed = zero_hash then Some ErrInvalidProposalContext
         else if ipc_ContextProofHash c \<noteq> computed then Some ErrInvalidProposalContext
         else if ipp_ContextProofHash decoded \<noteq> computed then Some InvalidProposalError
         else None)
      else if ipc_ContextProofHash c \<noteq> zero_hash \<and> ipc_ContextProofHash c \<noteq> ProofHash c
      then Some ErrInvalidProposalContext
      else None)"

definition VerifyInvalidProposalEvidenceWithContext ::
    "EvidenceEnv \<Rightarrow> Evidence \<Rightarrow> InvalidProposalVerificationContext \<Rightarrow> evidence_error option" where
  "VerifyInvalidProposalEvidenceWithContext env evidence c =
     (let reg = env_verifiers env in
      if evd_Type evidence \<noteq> EvidenceInvalidProposal then Some (EvidenceSlashingError ErrUnknownEvidenceType)
      else
        case env_decodeInvalid env (evd_Proof evidence) of
          Inl e \<Rightarrow> Some (EvidenceJSONError e)
        | Inr decoded \<Rightarrow>
            case verifyInvalidProposalEnvelope reg decoded (evd_Validator evidence) (evd_Height evidence)
                   (evd_Round evidence) of
              Some e \<Rightarrow> Some e
            | None \<Rightarrow>
                case verifyInvalidProposalBoundContext reg decoded c of
                  Some e \<Rightarrow> Some e
                | None \<Rightarrow>
                    case verifyReasonContext decoded c of
                      Some e \<Rightarrow> Some e
                    | None \<Rightarrow>
                        case verifyContextHash decoded c of
                          Some e \<Rightarrow> Some e
                        | None \<Rightarrow>
                            case verifyInvalidProposalStateProof decoded c (evd_Height evidence) of
                              Some e \<Rightarrow> Some e
                            | None \<Rightarrow> verifyInvalidProposalByReasonWithContext reg decoded c)"

definition VerifyInvalidProposalEvidenceWithBoundContext ::
    "EvidenceEnv \<Rightarrow> Evidence \<Rightarrow> InvalidProposalVerificationContext \<Rightarrow> evidence_error option" where
  "VerifyInvalidProposalEvidenceWithBoundContext env evidence c =
     (if evd_Type evidence \<noteq> EvidenceInvalidProposal then Some (EvidenceSlashingError ErrUnknownEvidenceType)
      else VerifyInvalidProposalEvidenceWithContext env evidence c)"

definition VerifyUnavailableDataEvidence :: "EvidenceEnv \<Rightarrow> Evidence \<Rightarrow> evidence_error option" where
  "VerifyUnavailableDataEvidence env evidence =
     (if evd_Type evidence \<noteq> EvidenceUnavailableData then Some (EvidenceSlashingError ErrUnknownEvidenceType)
      else
        case env_decodeUnavailable env (evd_Proof evidence) of
          Inl e \<Rightarrow> Some (EvidenceJSONError e)
        | Inr decoded \<Rightarrow>
            let block = prop_Block (udp_Proposal decoded); daProof = BuildProof (blk_Txs block) in
            if udp_Reason decoded = [] \<or> prop_Proposer (udp_Proposal decoded) \<noteq> evd_Validator evidence
               \<or> hdr_Height (blk_Header block) \<noteq> evd_Height evidence
               \<or> prop_Round (udp_Proposal decoded) \<noteq> evd_Round evidence
            then Some PairMismatchError
            else if udp_ExpectedCommitment decoded = zero_hash
                    \<or> udp_ExpectedCommitment decoded \<noteq> dap_Commitment daProof
                    \<or> udp_ActualCommitment decoded \<noteq> hdr_ConsensusHash (blk_Header block)
                    \<or> udp_ActualCommitment decoded \<noteq> zero_hash
                    \<or> udp_TxCount decoded \<noteq> dap_TxCount daProof
                    \<or> udp_TotalBytes decoded \<noteq> dap_TotalBytes daProof
            then Some InvalidProposalError
            else if DA_Verify (blk_Header block) (blk_Txs block) \<noteq> Some ErrMissingData
            then Some (EvidenceDAError ErrMissingData)
            else None)"

section \<open>Constructors\<close>

definition invalid_evidence :: "Proposal \<Rightarrow> bytes \<Rightarrow> Evidence" where
  "invalid_evidence proposal proof =
     \<lparr>evd_Type = EvidenceInvalidProposal, evd_Validator = prop_Proposer proposal,
      evd_Height = hdr_Height (blk_Header (prop_Block proposal)), evd_Round = prop_Round proposal,
      evd_Proof = proof\<rparr>"

text \<open>The encoding of the proof and the evidence literal, with which every constructor ends.\<close>

definition encodeInvalid :: "EvidenceEnv \<Rightarrow> InvalidProposalProof \<Rightarrow> evidence_error + Evidence" where
  "encodeInvalid env p =
     (case env_encodeInvalid env p of
        Inl e \<Rightarrow> Inl (EvidenceJSONError e)
      | Inr encoded \<Rightarrow> Inr (invalid_evidence (ipp_Proposal p) encoded))"

definition missing_proposer :: "Proposal \<Rightarrow> bool" where
  "missing_proposer proposal \<longleftrightarrow>
     prop_Proposer proposal = [] \<or> hdr_Height (blk_Header (prop_Block proposal)) = 0"

definition NewDataAvailabilityInvalidProposalEvidence ::
    "EvidenceEnv \<Rightarrow> Proposal \<Rightarrow> InvalidProposalReason \<Rightarrow> evidence_error + Evidence" where
  "NewDataAvailabilityInvalidProposalEvidence env proposal reason =
     (if missing_proposer proposal \<or> reason = [] then Inl (EvidenceSlashingError ErrMissingValidator)
      else if \<not> validInvalidProposalReason (env_verifiers env) reason then Inl ErrUnsupportedProposalReason
      else if reason \<noteq> InvalidProposalReasonDAMismatch \<and> reason \<noteq> InvalidProposalReasonMissingData
      then Inl ErrUnsupportedProposalReason
      else
        let p = (newProof proposal reason)
                  \<lparr>ipp_ExpectedHash := Commitment (blk_Txs (prop_Block proposal)),
                   ipp_ActualHash := hdr_ConsensusHash (blk_Header (prop_Block proposal))\<rparr>
        in case verifyInvalidProposalByReason (env_verifiers env) p of
             Some e \<Rightarrow> Inl e
           | None \<Rightarrow> encodeInvalid env p)"

definition NewInvalidProposalEvidence ::
    "EvidenceEnv \<Rightarrow> Proposal \<Rightarrow> string \<Rightarrow> evidence_error + Evidence" where
  "NewInvalidProposalEvidence env proposal reason = NewDataAvailabilityInvalidProposalEvidence env proposal reason"

definition NewInvalidProposalHashEvidence ::
    "EvidenceEnv \<Rightarrow> Proposal \<Rightarrow> string \<Rightarrow> hash \<Rightarrow> hash \<Rightarrow> evidence_error + Evidence" where
  "NewInvalidProposalHashEvidence env proposal reason expected actual =
     (if missing_proposer proposal \<or> reason = [] then Inl (EvidenceSlashingError ErrMissingValidator)
      else if reason \<notin> {InvalidProposalReasonValidatorSetHash, InvalidProposalReasonAppHash}
      then Inl ErrUnsupportedProposalReason
      else
        let p = (newProof proposal reason)\<lparr>ipp_ExpectedHash := expected, ipp_ActualHash := actual\<rparr> in
        case verifyInvalidProposalEnvelope (env_verifiers env) p (prop_Proposer proposal)
               (hdr_Height (blk_Header (prop_Block proposal))) (prop_Round proposal) of
          Some e \<Rightarrow> Inl e
        | None \<Rightarrow>
            case verifyInvalidProposalByReason (env_verifiers env) p of
              Some e \<Rightarrow> Inl e
            | None \<Rightarrow> encodeInvalid env p)"

definition newInvalidProposalEvidenceFromProofWithContext ::
    "EvidenceEnv \<Rightarrow> InvalidProposalProof \<Rightarrow> InvalidProposalVerificationContext \<Rightarrow> evidence_error + Evidence" where
  "newInvalidProposalEvidenceFromProofWithContext env p c =
     (let proposal = ipp_Proposal p in
      if missing_proposer proposal then Inl (EvidenceSlashingError ErrMissingValidator)
      else
        case verifyInvalidProposalEnvelope (env_verifiers env) p (prop_Proposer proposal)
               (hdr_Height (blk_Header (prop_Block proposal))) (prop_Round proposal) of
          Some e \<Rightarrow> Inl e
        | None \<Rightarrow>
            case verifyInvalidProposalByReasonWithContext (env_verifiers env) p c of
              Some e \<Rightarrow> Inl e
            | None \<Rightarrow> encodeInvalid env p)"

definition newInvalidProposalEvidenceFromProof ::
    "EvidenceEnv \<Rightarrow> InvalidProposalProof \<Rightarrow> evidence_error + Evidence" where
  "newInvalidProposalEvidenceFromProof env p = newInvalidProposalEvidenceFromProofWithContext env p zeroContext"

definition NewInvalidProposalTxExecutionEvidence ::
    "EvidenceEnv \<Rightarrow> Proposal \<Rightarrow> Result list \<Rightarrow> Result list \<Rightarrow> u64 \<Rightarrow> string \<Rightarrow> evidence_error + Evidence" where
  "NewInvalidProposalTxExecutionEvidence env proposal expectedResults actualResults txIndex message =
     (let txs = blk_Txs (prop_Block proposal) in
      if missing_proposer proposal then Inl (EvidenceSlashingError ErrMissingValidator)
      else if message = [] \<or> expectedResults = [] \<or> actualResults = []
              \<or> length expectedResults \<noteq> length txs \<or> length actualResults \<noteq> length txs
              \<or> u64_len txs \<le> txIndex
      then Inl InvalidProposalError
      else
        newInvalidProposalEvidenceFromProof env
          ((newProof proposal InvalidProposalReasonTxValidity)
             \<lparr>ipp_ExpectedHash := HashTxResults expectedResults, ipp_ActualHash := HashTxResults actualResults,
              ipp_VerificationMessage := message,
              ipp_ExecutionProof := Some \<lparr>xp_TxIndex = txIndex, xp_Tx = txs ! unat txIndex,
                xp_ExpectedResults = expectedResults, xp_ActualResults = actualResults\<rparr>\<rparr>))"

definition NewInvalidProposalTimestampEvidence ::
    "EvidenceEnv \<Rightarrow> Proposal \<Rightarrow> u64 \<Rightarrow> u64 \<Rightarrow> evidence_error + Evidence" where
  "NewInvalidProposalTimestampEvidence env proposal expected actual =
     (if missing_proposer proposal then Inl (EvidenceSlashingError ErrMissingValidator)
      else
        let p = (newProof proposal InvalidProposalReasonTimestamp)
                  \<lparr>ipp_ExpectedTimeUnixNano := expected, ipp_ActualTimeUnixNano := actual\<rparr>
        in case verifyInvalidProposalByReason (env_verifiers env) p of
             Some e \<Rightarrow> Inl e
           | None \<Rightarrow> encodeInvalid env p)"

definition BindInvalidProposalEvidenceContext ::
    "EvidenceEnv \<Rightarrow> Evidence \<Rightarrow> InvalidProposalVerificationContext \<Rightarrow> evidence_error + Evidence" where
  "BindInvalidProposalEvidenceContext env evidence c =
     (if evd_Type evidence \<noteq> EvidenceInvalidProposal then Inl (EvidenceSlashingError ErrUnknownEvidenceType)
      else
        case env_decodeInvalid env (evd_Proof evidence) of
          Inl e \<Rightarrow> Inl (EvidenceJSONError e)
        | Inr p \<Rightarrow>
            case verifyInvalidProposalEnvelope (env_verifiers env) p (evd_Validator evidence)
                   (evd_Height evidence) (evd_Round evidence) of
              Some e \<Rightarrow> Inl e
            | None \<Rightarrow>
                if ProofHash c = zero_hash then Inl ErrInvalidProposalContext
                else
                  case env_encodeInvalid env (p\<lparr>ipp_ContextProofHash := ProofHash c\<rparr>) of
                    Inl e \<Rightarrow> Inl (EvidenceJSONError e)
                  | Inr encoded \<Rightarrow> Inr (evidence\<lparr>evd_Proof := encoded\<rparr>))"

definition cloneQueryProof :: "EvidenceEnv \<Rightarrow> QueryProof \<Rightarrow> QueryProof" where
  "cloneQueryProof env p =
     (case env_encodeQuery env p of
        Inl e \<Rightarrow> p
      | Inr encoded \<Rightarrow> (case env_decodeQuery env encoded of Inl e \<Rightarrow> p | Inr cloned \<Rightarrow> cloned))"

definition BindInvalidProposalEvidenceStateProof ::
    "EvidenceEnv \<Rightarrow> Evidence \<Rightarrow> InvalidProposalVerificationContext \<Rightarrow> QueryProof \<Rightarrow> evidence_error + Evidence" where
  "BindInvalidProposalEvidenceStateProof env evidence c stateProof =
     (if evd_Type evidence \<noteq> EvidenceInvalidProposal then Inl (EvidenceSlashingError ErrUnknownEvidenceType)
      else
        case env_decodeInvalid env (evd_Proof evidence) of
          Inl e \<Rightarrow> Inl (EvidenceJSONError e)
        | Inr p \<Rightarrow>
            case verifyInvalidProposalEnvelope (env_verifiers env) p (evd_Validator evidence)
                   (evd_Height evidence) (evd_Round evidence) of
              Some e \<Rightarrow> Inl e
            | None \<Rightarrow>
                if ipc_ExpectedStateRoot c = zero_hash then Inl ErrInvalidProposalContext
                else
                  let contextProofHash = ProofHash (c\<lparr>ipc_RequireStateProof := True\<rparr>);
                      p = (if contextProofHash \<noteq> zero_hash then p\<lparr>ipp_ContextProofHash := contextProofHash\<rparr> else p)
                  in case env_encodeInvalid env (p\<lparr>ipp_StateProof := Some (cloneQueryProof env stateProof)\<rparr>) of
                       Inl e \<Rightarrow> Inl (EvidenceJSONError e)
                     | Inr encoded \<Rightarrow> Inr (evidence\<lparr>evd_Proof := encoded\<rparr>))"

text \<open>The check and the evidence of the transaction-validity case of the constructor with a context.\<close>

definition txValidityEvidence ::
    "EvidenceEnv \<Rightarrow> Proposal \<Rightarrow> InvalidProposalVerificationContext \<Rightarrow> hash \<Rightarrow> string \<Rightarrow> evidence_error + Evidence" where
  "txValidityEvidence env proposal c actual message =
     (let expectedResultsHash =
            (if ipc_ExpectedTxResultsHash c = zero_hash \<and> ipc_ExpectedTxResults c \<noteq> []
             then HashTxResults (ipc_ExpectedTxResults c) else ipc_ExpectedTxResultsHash c)
      in if expectedResultsHash = zero_hash \<or> ipc_ExpectedTxResults c = [] \<or> ipc_ActualTxResults c = []
         then Inl ErrInvalidProposalContext
         else if actual \<noteq> zero_hash \<and> actual \<noteq> HashTxResults (ipc_ActualTxResults c)
         then Inl InvalidProposalError
         else NewInvalidProposalTxExecutionEvidence env proposal (ipc_ExpectedTxResults c)
                (ipc_ActualTxResults c) (ipc_TxIndex c) message)"

definition NewInvalidProposalEvidenceWithContext ::
    "EvidenceEnv \<Rightarrow> Proposal \<Rightarrow> InvalidProposalVerificationContext \<Rightarrow> InvalidProposalReason \<Rightarrow> hash \<Rightarrow> string
     \<Rightarrow> evidence_error + Evidence" where
  "NewInvalidProposalEvidenceWithContext env proposal c reason actual message =
     (if reason = InvalidProposalReasonDAMismatch \<or> reason = InvalidProposalReasonMissingData
      then NewDataAvailabilityInvalidProposalEvidence env proposal reason
      else
        case (if reason = InvalidProposalReasonValidatorSetHash
              then NewInvalidProposalHashEvidence env proposal reason (ipc_ExpectedValidatorSetHash c) actual
              else if reason = InvalidProposalReasonAppHash
              then NewInvalidProposalHashEvidence env proposal reason (ipc_ExpectedAppHash c) actual
              else if reason = InvalidProposalReasonTxValidity
              then txValidityEvidence env proposal c actual message
              else if reason = InvalidProposalReasonTimestamp
              then NewInvalidProposalTimestampEvidence env proposal (ipc_ExpectedTimeUnixNano c)
                     (hdr_TimeUnixNano (blk_Header (prop_Block proposal)))
              else Inl ErrUnsupportedProposalReason) of
          Inl e \<Rightarrow> Inl e
        | Inr evidence \<Rightarrow>
            if invalidProposalReasonRequiresContext (env_verifiers env) reason
            then BindInvalidProposalEvidenceContext env evidence c
            else Inr evidence)"

definition NewInvalidProposalEvidenceWithStateProof ::
    "EvidenceEnv \<Rightarrow> Proposal \<Rightarrow> InvalidProposalVerificationContext \<Rightarrow> InvalidProposalReason \<Rightarrow> hash \<Rightarrow> QueryProof
     \<Rightarrow> string \<Rightarrow> evidence_error + Evidence" where
  "NewInvalidProposalEvidenceWithStateProof env proposal c reason actual stateProof message =
     (case NewInvalidProposalEvidenceWithContext env proposal c reason actual message of
        Inl e \<Rightarrow> Inl e
      | Inr evidence \<Rightarrow> BindInvalidProposalEvidenceStateProof env evidence c stateProof)"

definition NewCustomInvalidProposalEvidenceWithContext ::
    "EvidenceEnv \<Rightarrow> Proposal \<Rightarrow> InvalidProposalVerificationContext \<Rightarrow> InvalidProposalReason \<Rightarrow> hash \<Rightarrow> hash
     \<Rightarrow> string \<Rightarrow> evidence_error + Evidence" where
  "NewCustomInvalidProposalEvidenceWithContext env proposal c reason expected actual message =
     (if \<not> isCustomInvalidProposalReason (env_verifiers env) reason then Inl ErrUnsupportedProposalReason
      else
        case newInvalidProposalEvidenceFromProofWithContext env
               ((newProof proposal reason)\<lparr>ipp_ExpectedHash := expected, ipp_ActualHash := actual,
                  ipp_VerificationMessage := message\<rparr>) c of
          Inl e \<Rightarrow> Inl e
        | Inr evidence \<Rightarrow>
            if invalidProposalReasonRequiresContext (env_verifiers env) reason \<or> ProofHash c \<noteq> zero_hash
            then BindInvalidProposalEvidenceContext env evidence c
            else Inr evidence)"

definition NewCustomInvalidProposalEvidence ::
    "EvidenceEnv \<Rightarrow> Proposal \<Rightarrow> InvalidProposalReason \<Rightarrow> hash \<Rightarrow> hash \<Rightarrow> string \<Rightarrow> evidence_error + Evidence" where
  "NewCustomInvalidProposalEvidence env proposal reason expected actual message =
     NewCustomInvalidProposalEvidenceWithContext env proposal zeroContext reason expected actual message"

definition NewUnavailableDataEvidence ::
    "EvidenceEnv \<Rightarrow> Proposal \<Rightarrow> string \<Rightarrow> evidence_error + Evidence" where
  "NewUnavailableDataEvidence env proposal reason =
     (let block = prop_Block proposal; daProof = BuildProof (blk_Txs block) in
      if missing_proposer proposal \<or> reason = [] then Inl (EvidenceSlashingError ErrMissingValidator)
      else if DA_Verify (blk_Header block) (blk_Txs block) \<noteq> Some ErrMissingData
      then Inl (EvidenceDAError ErrMissingData)
      else
        case env_encodeUnavailable env
               \<lparr>udp_Proposal = proposal, udp_Reason = reason, udp_ExpectedCommitment = dap_Commitment daProof,
                udp_ActualCommitment = hdr_ConsensusHash (blk_Header block),
                udp_TxCount = dap_TxCount daProof, udp_TotalBytes = dap_TotalBytes daProof\<rparr> of
          Inl e \<Rightarrow> Inl (EvidenceJSONError e)
        | Inr encoded \<Rightarrow>
            Inr \<lparr>evd_Type = EvidenceUnavailableData, evd_Validator = prop_Proposer proposal,
                 evd_Height = hdr_Height (blk_Header block), evd_Round = prop_Round proposal,
                 evd_Proof = encoded\<rparr>)"

definition VoteConflictFromPrevious :: "Externals \<Rightarrow> hash \<Rightarrow> Vote \<Rightarrow> consensus_error + Evidence" where
  "VoteConflictFromPrevious ext previousBlock vote =
     NewConflictingVoteEvidence ext
       \<lparr>vote_Height = vote_Height vote, vote_Round = vote_Round vote, vote_BlockHash = previousBlock,
        vote_ValidatorID = vote_ValidatorID vote, vote_Signature = []\<rparr> vote"

section \<open>What the constructors build is accepted\<close>

lemmas reason_defs = InvalidProposalReasonDAMismatch_def InvalidProposalReasonMissingData_def
  InvalidProposalReasonValidatorSetHash_def InvalidProposalReasonAppHash_def
  InvalidProposalReasonTimestamp_def InvalidProposalReasonTxValidity_def

text \<open>Encoding a proof and decoding it gives the proof back.\<close>

definition codec_ok :: "EvidenceEnv \<Rightarrow> bool" where
  "codec_ok env \<longleftrightarrow> (\<forall>p bs. env_encodeInvalid env p = Inr bs \<longrightarrow> env_decodeInvalid env bs = Inr p)"

lemma codec_okD: "codec_ok env \<Longrightarrow> env_encodeInvalid env p = Inr bs \<Longrightarrow> env_decodeInvalid env bs = Inr p"
  by (auto simp: codec_ok_def)

text \<open>The context hash is the hash of the context.\<close>

definition sealed :: "InvalidProposalVerificationContext \<Rightarrow> bool" where
  "sealed c \<longleftrightarrow> ipc_ContextProofHash c = ProofHash c"

lemma sealed_seal: "sealed (c\<lparr>ipc_ContextProofHash := ProofHash c\<rparr>)"
  by (simp add: sealed_def ProofHash_def context_preimage_def)

text \<open>The evidence carries the proof, and the proof fits the evidence and its reason.\<close>

definition carries :: "EvidenceEnv \<Rightarrow> Evidence \<Rightarrow> InvalidProposalProof \<Rightarrow> bool" where
  "carries env e p \<longleftrightarrow> evd_Type e = EvidenceInvalidProposal \<and> env_decodeInvalid env (evd_Proof e) = Inr p
     \<and> verifyInvalidProposalEnvelope (env_verifiers env) p (evd_Validator e) (evd_Height e) (evd_Round e) = None"

lemma encodeInvalid_carries:
  assumes "codec_ok env" and "encodeInvalid env p = Inr e"
    and "validInvalidProposalReason (env_verifiers env) (ipp_Reason p)" and "ipp_Reason p \<noteq> []"
  shows "carries env e p"
  using assms
  by (auto simp: encodeInvalid_def carries_def invalid_evidence_def verifyInvalidProposalEnvelope_def
      dest: codec_okD split: sum.splits)

lemma context_hash_fields:
  "ipp_Proposal (p\<lparr>ipp_ContextProofHash := x\<rparr>) = ipp_Proposal p"
  "ipp_Reason (p\<lparr>ipp_ContextProofHash := x\<rparr>) = ipp_Reason p"
  "ipp_ExpectedHash (p\<lparr>ipp_ContextProofHash := x\<rparr>) = ipp_ExpectedHash p"
  "ipp_ActualHash (p\<lparr>ipp_ContextProofHash := x\<rparr>) = ipp_ActualHash p"
  "ipp_StateProof (p\<lparr>ipp_ContextProofHash := x\<rparr>) = ipp_StateProof p"
  "ipp_ExecutionProof (p\<lparr>ipp_ContextProofHash := x\<rparr>) = ipp_ExecutionProof p"
  "ipp_ExpectedTimeUnixNano (p\<lparr>ipp_ContextProofHash := x\<rparr>) = ipp_ExpectedTimeUnixNano p"
  "ipp_ActualTimeUnixNano (p\<lparr>ipp_ContextProofHash := x\<rparr>) = ipp_ActualTimeUnixNano p"
  "ipp_VerificationMessage (p\<lparr>ipp_ContextProofHash := x\<rparr>) = ipp_VerificationMessage p"
  by simp_all

lemma bind_carries:
  assumes "codec_ok env" and "carries env e p" and "BindInvalidProposalEvidenceContext env e c = Inr e'"
  shows "carries env e' (p\<lparr>ipp_ContextProofHash := ProofHash c\<rparr>) \<and> ProofHash c \<noteq> zero_hash"
proof -
  let ?q = "p\<lparr>ipp_ContextProofHash := ProofHash c\<rparr>"
  have e: "evd_Type e = EvidenceInvalidProposal" "env_decodeInvalid env (evd_Proof e) = Inr p"
    "verifyInvalidProposalEnvelope (env_verifiers env) p (evd_Validator e) (evd_Height e) (evd_Round e) = None"
    using assms(2) unfolding carries_def by blast+
  have nz: "ProofHash c \<noteq> zero_hash"
    using assms(3) by (auto simp: BindInvalidProposalEvidenceContext_def e)
  with assms(3) obtain bs where bs: "env_encodeInvalid env ?q = Inr bs" "e' = e\<lparr>evd_Proof := bs\<rparr>"
    by (cases "env_encodeInvalid env ?q") (simp_all add: BindInvalidProposalEvidenceContext_def e)
  show ?thesis
    using e nz codec_okD [OF assms(1) bs(1)]
    by (simp add: carries_def bs(2) verifyInvalidProposalEnvelope_def context_hash_fields)
qed

lemma context_hash_ignored:
  "verifyDAError (p\<lparr>ipp_ContextProofHash := x\<rparr>) err = verifyDAError p err"
  "verifyHashMismatch (p\<lparr>ipp_ContextProofHash := x\<rparr>) h = verifyHashMismatch p h"
  "verifyTxValidityMismatch (p\<lparr>ipp_ContextProofHash := x\<rparr>) = verifyTxValidityMismatch p"
  "verifyReasonContext (p\<lparr>ipp_ContextProofHash := x\<rparr>) c = verifyReasonContext p c"
  unfolding verifyDAError_def verifyDACommitmentProof_def verifyHashMismatch_def verifyTxValidityMismatch_def
    verifyReasonContext_def context_hash_fields by (rule refl)+

text \<open>The check each reason stands for.\<close>

lemma by_reason:
  "ipp_Reason p = InvalidProposalReasonDAMismatch \<Longrightarrow>
     verifyInvalidProposalByReasonWithContext reg p c = verifyDAError p ErrCommitmentMismatch"
  "ipp_Reason p = InvalidProposalReasonMissingData \<Longrightarrow>
     verifyInvalidProposalByReasonWithContext reg p c = verifyDAError p ErrMissingData"
  "ipp_Reason p = InvalidProposalReasonValidatorSetHash \<Longrightarrow>
     verifyInvalidProposalByReasonWithContext reg p c
       = verifyHashMismatch p (hdr_ValidatorSetHash (blk_Header (prop_Block (ipp_Proposal p))))"
  "ipp_Reason p = InvalidProposalReasonAppHash \<Longrightarrow>
     verifyInvalidProposalByReasonWithContext reg p c
       = verifyHashMismatch p (hdr_AppHash (blk_Header (prop_Block (ipp_Proposal p))))"
  "ipp_Reason p = InvalidProposalReasonTxValidity \<Longrightarrow>
     verifyInvalidProposalByReasonWithContext reg p c
       = (if ipp_VerificationMessage p = [] then Some InvalidProposalError else verifyTxValidityMismatch p)"
  by (simp_all add: verifyInvalidProposalByReasonWithContext_def reason_defs Let_def)

lemma by_reason_timestamp:
  assumes "ipp_Reason p = InvalidProposalReasonTimestamp"
  shows "verifyInvalidProposalByReasonWithContext reg p c = None \<longleftrightarrow>
     ipp_ExpectedTimeUnixNano p \<noteq> 0 \<and> ipp_ActualTimeUnixNano p \<noteq> 0
     \<and> ipp_ExpectedTimeUnixNano p \<noteq> ipp_ActualTimeUnixNano p
     \<and> (hdr_TimeUnixNano (blk_Header (prop_Block (ipp_Proposal p))) = 0
        \<or> ipp_ActualTimeUnixNano p = hdr_TimeUnixNano (blk_Header (prop_Block (ipp_Proposal p))))"
  using assms by (simp add: verifyInvalidProposalByReasonWithContext_def reason_defs Let_def)

lemma builtin_cases:
  assumes "isBuiltinInvalidProposalReason reason"
  obtains "reason = InvalidProposalReasonDAMismatch" | "reason = InvalidProposalReasonMissingData"
    | "reason = InvalidProposalReasonValidatorSetHash" | "reason = InvalidProposalReasonAppHash"
    | "reason = InvalidProposalReasonTimestamp" | "reason = InvalidProposalReasonTxValidity"
  using assms by (auto simp: isBuiltinInvalidProposalReason_def builtinInvalidProposalReasons_def)

lemma by_reason_context_hash:
  assumes "isBuiltinInvalidProposalReason (ipp_Reason p)"
    and "verifyInvalidProposalByReasonWithContext reg p c' = None"
  shows "verifyInvalidProposalByReasonWithContext reg (p\<lparr>ipp_ContextProofHash := x\<rparr>) c = None"
  using assms(1)
proof (cases rule: builtin_cases)
  case 5
  with assms(2) by_reason_timestamp [of p reg c'] by_reason_timestamp [of "p\<lparr>ipp_ContextProofHash := x\<rparr>" reg c]
  show ?thesis
    unfolding context_hash_fields by simp
qed (use assms(2) in \<open>simp_all only: by_reason context_hash_fields context_hash_ignored\<close>)

text \<open>A bound proof without a state proof that passes its reason is accepted.\<close>

lemma bound_accepted:
  assumes "carries env e p" and "ipp_ContextProofHash p = ProofHash c" and "ProofHash c \<noteq> zero_hash" and "sealed c"
    and "\<not> ipc_RequireStateProof c" and "ipp_StateProof p = None"
    and "verifyReasonContext p c = None"
    and "verifyInvalidProposalByReasonWithContext (env_verifiers env) p c = None"
  shows "VerifyInvalidProposalEvidenceWithContext env e c = None"
  using assms
  by (simp add: VerifyInvalidProposalEvidenceWithContext_def carries_def verifyInvalidProposalBoundContext_def
      verifyContextHash_def verifyInvalidProposalStateProof_def sealed_def Let_def)

lemma unbound_accepted:
  assumes "carries env e p" and "ipp_ContextProofHash p = zero_hash" and "sealed c"
    and "\<not> ipc_RequireStateProof c" and "ipp_StateProof p = None"
    and "\<not> invalidProposalReasonRequiresContext (env_verifiers env) (ipp_Reason p)"
    and "verifyReasonContext p c = None"
    and "verifyInvalidProposalByReasonWithContext (env_verifiers env) p c = None"
  shows "VerifyInvalidProposalEvidenceWithContext env e c = None"
  using assms
  by (simp add: VerifyInvalidProposalEvidenceWithContext_def carries_def verifyInvalidProposalBoundContext_def
      verifyContextHash_def verifyInvalidProposalStateProof_def sealed_def Let_def)

lemma mismatch_expected: "verifyHashMismatch p h = None \<Longrightarrow> ipp_ExpectedHash p \<noteq> zero_hash"
  by (auto simp: verifyHashMismatch_def split: if_splits)

lemma validity_expected: "verifyTxValidityMismatch p = None \<Longrightarrow> ipp_ExpectedHash p \<noteq> zero_hash"
  by (auto simp: verifyTxValidityMismatch_def Let_def split: if_splits)

text \<open>The proofs that the four constructors bound to a context encode.\<close>

lemma hash_evidence:
  assumes "codec_ok env" and "NewInvalidProposalHashEvidence env p reason expected actual = Inr e"
  obtains q where "carries env e q" and "ipp_Reason q = reason" and "ipp_ExpectedHash q = expected"
    and "ipp_StateProof q = None" and "verifyInvalidProposalByReason (env_verifiers env) q = None"
    and "expected \<noteq> zero_hash"
proof -
  let ?q = "(newProof p reason)\<lparr>ipp_ExpectedHash := expected, ipp_ActualHash := actual\<rparr>"
  have reason: "reason = InvalidProposalReasonValidatorSetHash \<or> reason = InvalidProposalReasonAppHash"
    and ok: "verifyInvalidProposalByReason (env_verifiers env) ?q = None" and enc: "encodeInvalid env ?q = Inr e"
    using assms(2) by (auto simp: NewInvalidProposalHashEvidence_def Let_def split: if_splits option.splits)
  have "carries env e ?q"
    using reason
    by (intro encodeInvalid_carries [OF assms(1) enc])
      (auto simp: newProof_def validInvalidProposalReason_def isBuiltinInvalidProposalReason_def
        builtinInvalidProposalReasons_def reason_defs)
  moreover have "\<exists>h. verifyHashMismatch ?q h = None"
    using ok reason by (auto simp: verifyInvalidProposalByReason_def by_reason newProof_def)
  then have "expected \<noteq> zero_hash"
    using mismatch_expected [of ?q] by (auto simp: newProof_def)
  ultimately show ?thesis
    using that [of ?q] ok by (simp add: newProof_def)
qed

lemma execution_evidence:
  assumes "codec_ok env"
    and "NewInvalidProposalTxExecutionEvidence env p expected actual i message = Inr e"
  obtains q where "carries env e q" and "ipp_Reason q = InvalidProposalReasonTxValidity"
    and "ipp_ExpectedHash q = HashTxResults expected" and "ipp_StateProof q = None" and "ipp_ExecutionProof q \<noteq> None"
    and "verifyInvalidProposalByReason (env_verifiers env) q = None" and "HashTxResults expected \<noteq> zero_hash"
proof -
  let ?q = "(newProof p InvalidProposalReasonTxValidity)
    \<lparr>ipp_ExpectedHash := HashTxResults expected, ipp_ActualHash := HashTxResults actual,
     ipp_VerificationMessage := message,
     ipp_ExecutionProof := Some \<lparr>xp_TxIndex = i, xp_Tx = blk_Txs (prop_Block p) ! unat i,
       xp_ExpectedResults = expected, xp_ActualResults = actual\<rparr>\<rparr>"
  have ok: "verifyInvalidProposalByReason (env_verifiers env) ?q = None" and enc: "encodeInvalid env ?q = Inr e"
    using assms(2)
    by (auto simp: NewInvalidProposalTxExecutionEvidence_def newInvalidProposalEvidenceFromProof_def
        newInvalidProposalEvidenceFromProofWithContext_def verifyInvalidProposalByReason_def Let_def
        split: if_splits option.splits)
  have "carries env e ?q"
    by (rule encodeInvalid_carries [OF assms(1) enc])
      (auto simp: newProof_def validInvalidProposalReason_def isBuiltinInvalidProposalReason_def
        builtinInvalidProposalReasons_def reason_defs)
  moreover have "verifyTxValidityMismatch ?q = None"
    using ok by (auto simp: verifyInvalidProposalByReason_def by_reason(5) newProof_def split: if_splits)
  from validity_expected [OF this] have "HashTxResults expected \<noteq> zero_hash"
    by (simp add: newProof_def)
  ultimately show ?thesis
    using that [of ?q] ok by (simp add: newProof_def)
qed

lemma timestamp_evidence:
  assumes "codec_ok env" and "NewInvalidProposalTimestampEvidence env p expected actual = Inr e"
  obtains q where "carries env e q" and "ipp_Reason q = InvalidProposalReasonTimestamp"
    and "ipp_ExpectedTimeUnixNano q = expected" and "ipp_StateProof q = None"
    and "verifyInvalidProposalByReason (env_verifiers env) q = None" and "expected \<noteq> 0"
proof -
  let ?q = "(newProof p InvalidProposalReasonTimestamp)
    \<lparr>ipp_ExpectedTimeUnixNano := expected, ipp_ActualTimeUnixNano := actual\<rparr>"
  have ok: "verifyInvalidProposalByReason (env_verifiers env) ?q = None" and enc: "encodeInvalid env ?q = Inr e"
    using assms(2) by (auto simp: NewInvalidProposalTimestampEvidence_def Let_def split: if_splits option.splits)
  have "carries env e ?q"
    by (rule encodeInvalid_carries [OF assms(1) enc])
      (auto simp: newProof_def validInvalidProposalReason_def isBuiltinInvalidProposalReason_def
        builtinInvalidProposalReasons_def reason_defs)
  moreover have "expected \<noteq> 0"
    using ok by_reason_timestamp [of ?q] by (simp add: verifyInvalidProposalByReason_def newProof_def)
  ultimately show ?thesis
    using that [of ?q] ok by (simp add: newProof_def)
qed
lemma builtin_reasons [simp]:
  "isBuiltinInvalidProposalReason InvalidProposalReasonDAMismatch"
  "isBuiltinInvalidProposalReason InvalidProposalReasonMissingData"
  "isBuiltinInvalidProposalReason InvalidProposalReasonValidatorSetHash"
  "isBuiltinInvalidProposalReason InvalidProposalReasonAppHash"
  "isBuiltinInvalidProposalReason InvalidProposalReasonTimestamp"
  "isBuiltinInvalidProposalReason InvalidProposalReasonTxValidity"
  by (simp_all add: isBuiltinInvalidProposalReason_def builtinInvalidProposalReasons_def)

text \<open>The context check of each reason.\<close>

lemma reason_context:
  "ipp_Reason q = InvalidProposalReasonValidatorSetHash \<Longrightarrow> ipc_ExpectedValidatorSetHash c \<noteq> zero_hash \<Longrightarrow>
     ipp_ExpectedHash q = ipc_ExpectedValidatorSetHash c \<Longrightarrow> verifyReasonContext q c = None"
  "ipp_Reason q = InvalidProposalReasonAppHash \<Longrightarrow> ipc_ExpectedAppHash c \<noteq> zero_hash \<Longrightarrow>
     ipp_ExpectedHash q = ipc_ExpectedAppHash c \<Longrightarrow> verifyReasonContext q c = None"
  "ipp_Reason q = InvalidProposalReasonTimestamp \<Longrightarrow> ipc_ExpectedTimeUnixNano c \<noteq> 0 \<Longrightarrow>
     ipp_ExpectedTimeUnixNano q = ipc_ExpectedTimeUnixNano c \<Longrightarrow> verifyReasonContext q c = None"
  "ipp_Reason q = InvalidProposalReasonTxValidity \<Longrightarrow> ipc_ExpectedTxResultsHash c \<noteq> zero_hash \<Longrightarrow>
     ipp_ExecutionProof q \<noteq> None \<Longrightarrow> ipp_ExpectedHash q = ipc_ExpectedTxResultsHash c \<Longrightarrow>
     verifyReasonContext q c = None"
  by (simp_all add: verifyReasonContext_def reason_defs)

text \<open>A carried proof whose reason needs a context is accepted once it is bound to the context.\<close>

lemma bind_accepted:
  assumes "codec_ok env" and "carries env e q" and "BindInvalidProposalEvidenceContext env e c = Inr e'"
    and "sealed c" and "\<not> ipc_RequireStateProof c" and "ipp_StateProof q = None"
    and "isBuiltinInvalidProposalReason (ipp_Reason q)"
    and "verifyReasonContext q c = None" and "verifyInvalidProposalByReason (env_verifiers env) q = None"
  shows "VerifyInvalidProposalEvidenceWithContext env e' c = None"
proof -
  from bind_carries [OF assms(1-3)] have b: "carries env e' (q\<lparr>ipp_ContextProofHash := ProofHash c\<rparr>)"
    and nz: "ProofHash c \<noteq> zero_hash"
    by simp_all
  show ?thesis
    using assms(8) by_reason_context_hash [OF assms(7) assms(9) [unfolded verifyInvalidProposalByReason_def]]
    by (intro bound_accepted [OF b _ nz assms(4,5)]) (simp_all only: context_hash_fields context_hash_ignored assms(6), simp)
qed

lemma da_evidence_accepted:
  assumes "codec_ok env" and "NewDataAvailabilityInvalidProposalEvidence env p reason = Inr e"
    and "sealed c" and "\<not> ipc_RequireStateProof c" and "map_of (env_verifiers env) reason = None"
  shows "VerifyInvalidProposalEvidenceWithContext env e c = None"
proof -
  let ?q = "(newProof p reason)\<lparr>ipp_ExpectedHash := Commitment (blk_Txs (prop_Block p)),
    ipp_ActualHash := hdr_ConsensusHash (blk_Header (prop_Block p))\<rparr>"
  have q: "ipp_Reason ?q = reason" "ipp_ContextProofHash ?q = zero_hash" "ipp_StateProof ?q = None"
    by (simp_all add: newProof_def)
  have reason: "reason = InvalidProposalReasonDAMismatch \<or> reason = InvalidProposalReasonMissingData"
    and ok: "verifyInvalidProposalByReason (env_verifiers env) ?q = None" and enc: "encodeInvalid env ?q = Inr e"
    using assms(2)
    by (auto simp: NewDataAvailabilityInvalidProposalEvidence_def Let_def split: if_splits option.splits)
  have "carries env e ?q"
    using reason
    by (intro encodeInvalid_carries [OF assms(1) enc])
      (auto simp: newProof_def validInvalidProposalReason_def isBuiltinInvalidProposalReason_def
        builtinInvalidProposalReasons_def reason_defs)
  moreover have "verifyReasonContext ?q c = None"
    using reason by (auto simp: verifyReasonContext_def q reason_defs)
  moreover have "verifyInvalidProposalByReasonWithContext (env_verifiers env) ?q c = None"
    using ok reason q(1) by (metis by_reason(1,2) verifyInvalidProposalByReason_def)
  moreover have "\<not> invalidProposalReasonRequiresContext (env_verifiers env) (ipp_Reason ?q)"
    using reason assms(5) by (auto simp: invalidProposalReasonRequiresContext_def q reason_defs)
  ultimately show ?thesis
    using q assms(3,4) by (intro unbound_accepted)
qed

section \<open>Properties\<close>

text \<open>A proposal with a transaction and no commitment.\<close>

definition ex_missing :: Proposal where
  "ex_missing = \<lparr>prop_Block = \<lparr>blk_Header = \<lparr>hdr_ChainID = ''vexo'', hdr_Height = 3, hdr_TimeUnixNano = 1,
        hdr_PreviousBlockHash = 11, hdr_AppHash = 0, hdr_ValidatorSetHash = 0, hdr_ConsensusHash = 0, hdr_TxRoot = 7\<rparr>,
      blk_Txs = [''x'']\<rparr>, prop_Round = 0, prop_Proposer = ''a'', prop_JustifyQC = zeroQC, prop_Signature = ''s''\<rparr>"

definition ex_missing_proof :: InvalidProposalProof where
  "ex_missing_proof = (newProof ex_missing InvalidProposalReasonMissingData)
     \<lparr>ipp_ExpectedHash := Commitment [''x''], ipp_ActualHash := zero_hash\<rparr>"

definition ex_codec :: EvidenceEnv where
  "ex_codec = \<lparr>env_decodeVotes = \<lambda>_. Inl ''syntax'', env_decodeTimeouts = \<lambda>_. Inl ''syntax'',
     env_encodeInvalid = \<lambda>p. if p = ex_missing_proof then Inr ''proof'' else Inl ''unsupported'',
     env_decodeInvalid = \<lambda>_. Inr ex_missing_proof,
     env_encodeUnavailable = \<lambda>_. Inl ''syntax'', env_decodeUnavailable = \<lambda>_. Inl ''syntax'',
     env_encodeQuery = \<lambda>_. Inl ''syntax'', env_decodeQuery = \<lambda>_. Inl ''syntax'',
     env_decodeConflict = \<lambda>_. None, env_verifiers = []\<rparr>"


end
