(* ===== verification/EvidenceSlashing.thy ===== *)
theory EvidenceSlashing
  imports EvidenceProofs
begin

text \<open>
  From evidence to a penalty (\<^verbatim>\<open>consensus/slashing.go\<close>): the verification of evidence against the
  validator set of its height, the penalty, and its application to the validator registry.  The
  interfaces are instantiated by the in-memory keeper and the in-memory registry; the state of an
  operation is the pair of both.  The lemmas show when evidence is accepted, what the registry holds
  afterwards, and what happens when evidence is submitted again.
\<close>

section \<open>Verifiers\<close>

text \<open>
  A value of the interface \<^verbatim>\<open>EvidenceSignatureVerifier\<close>, which may be nil.  The aggregate verifier is
  reached by a type assertion, so it is present when the value also implements that interface.
\<close>

record EvidenceVerifier =
  evr_Verify :: signature_verifier
  evr_VerifyAggregate :: "aggregate_verifier option"

record EvidenceVerifierBundle =
  bundle_Signatures :: "signature_verifier option"
  bundle_Finality :: "aggregate_verifier option"

definition NewEvidenceVerifier ::
    "signature_verifier option \<Rightarrow> aggregate_verifier option \<Rightarrow> EvidenceVerifierBundle" where
  "NewEvidenceVerifier signatures finalityVerifier =
     \<lparr>bundle_Signatures = signatures, bundle_Finality = finalityVerifier\<rparr>"

definition bundle_Verify :: "EvidenceVerifierBundle \<Rightarrow> signature_verifier" where
  "bundle_Verify b publicKey message signature =
     (case bundle_Signatures b of None \<Rightarrow> False | Some verify \<Rightarrow> verify publicKey message signature)"

definition bundle_VerifyAggregate :: "EvidenceVerifierBundle \<Rightarrow> aggregate_verifier" where
  "bundle_VerifyAggregate b publicKeys message signature =
     (case bundle_Finality b of None \<Rightarrow> False | Some verify \<Rightarrow> verify publicKeys message signature)"

definition bundle_verifier :: "EvidenceVerifierBundle \<Rightarrow> EvidenceVerifier" where
  "bundle_verifier b = \<lparr>evr_Verify = bundle_Verify b, evr_VerifyAggregate = Some (bundle_VerifyAggregate b)\<rparr>"

section \<open>Verification of evidence\<close>

definition verifyDomainSignature ::
    "EvidenceVerifier \<Rightarrow> PublicKey \<Rightarrow> string \<Rightarrow> bytes \<Rightarrow> Signature \<Rightarrow> bool" where
  "verifyDomainSignature verifier publicKey domain message signature =
     (if signature = [] then False
      else
        case DomainMessage domain message of
          Inl e \<Rightarrow> False
        | Inr domainMessage \<Rightarrow> evr_Verify verifier publicKey domainMessage signature)"

definition verifyProposalEvidenceSignature ::
    "Proposal \<Rightarrow> Validator \<Rightarrow> EvidenceVerifier option \<Rightarrow> evidence_error option" where
  "verifyProposalEvidenceSignature proposal validatorInfo verifier =
     (case verifier of
        None \<Rightarrow> Some ErrEvidenceSignatureVerifier
      | Some v \<Rightarrow>
          if \<not> verifyDomainSignature v (val_PublicKey validatorInfo) DomainConsensusProposal
                 (ProposalSignBytes proposal) (prop_Signature proposal)
          then Some InvalidProposalError else None)"

definition verifyFinalityConflictEvidence ::
    "EvidenceEnv \<Rightarrow> Evidence \<Rightarrow> setSnapshot \<Rightarrow> aggregate_verifier option \<Rightarrow> evidence_error option" where
  "verifyFinalityConflictEvidence env evidence validatorSet verifier =
     (if verifier = None then Some ErrEvidenceFinalityVerifier
      else
        case VerifyConflictEvidence (env_decodeConflict env) validatorSet verifier evidence of
          Inl e \<Rightarrow> Some (EvidenceFinalityError e)
        | Inr _ \<Rightarrow> None)"

text \<open>The four cases of the \<^verbatim>\<open>switch\<close> on the type of the evidence.\<close>

definition verifyVoteCase ::
    "EvidenceEnv \<Rightarrow> Evidence \<Rightarrow> Validator \<Rightarrow> EvidenceVerifier option \<Rightarrow> evidence_error option" where
  "verifyVoteCase env evidence validatorInfo verifier =
     (let evidence = (if evd_Type evidence = EvidenceDoubleSign
                      then evidence\<lparr>evd_Type := EvidenceConflictingVote\<rparr> else evidence)
      in case VerifyConflictingVoteEvidence env evidence of
           Some e \<Rightarrow> Some e
         | None \<Rightarrow>
             case env_decodeVotes env (evd_Proof evidence) of
               Inl e \<Rightarrow> Some (EvidenceJSONError e)
             | Inr decoded \<Rightarrow>
                 case verifier of
                   None \<Rightarrow> Some ErrEvidenceSignatureVerifier
                 | Some v \<Rightarrow>
                     if \<not> verifyDomainSignature v (val_PublicKey validatorInfo) DomainConsensusVote
                            (VoteSignBytes (cvp_First decoded)) (vote_Signature (cvp_First decoded))
                        \<or> \<not> verifyDomainSignature v (val_PublicKey validatorInfo) DomainConsensusVote
                            (VoteSignBytes (cvp_Second decoded)) (vote_Signature (cvp_Second decoded))
                     then Some ErrInvalidEvidenceVoteSignature else None)"

definition verifyTimeoutCase ::
    "EvidenceEnv \<Rightarrow> Evidence \<Rightarrow> Validator \<Rightarrow> EvidenceVerifier option \<Rightarrow> evidence_error option" where
  "verifyTimeoutCase env evidence validatorInfo verifier =
     (case VerifyConflictingTimeoutVoteEvidence env evidence of
        Some e \<Rightarrow> Some e
      | None \<Rightarrow>
          case env_decodeTimeouts env (evd_Proof evidence) of
            Inl e \<Rightarrow> Some (EvidenceJSONError e)
          | Inr decoded \<Rightarrow>
              case verifier of
                None \<Rightarrow> Some ErrEvidenceSignatureVerifier
              | Some v \<Rightarrow>
                  if \<not> verifyDomainSignature v (val_PublicKey validatorInfo) DomainConsensusTimeoutVote
                         (TimeoutVoteSignBytes (ctp_First decoded)) (tv_Signature (ctp_First decoded))
                     \<or> \<not> verifyDomainSignature v (val_PublicKey validatorInfo) DomainConsensusTimeoutVote
                         (TimeoutVoteSignBytes (ctp_Second decoded)) (tv_Signature (ctp_Second decoded))
                  then Some ErrInvalidEvidenceTimeoutSignature else None)"

definition verifyProposalCase ::
    "EvidenceEnv \<Rightarrow> Evidence \<Rightarrow> setSnapshot \<Rightarrow> Validator \<Rightarrow> EvidenceVerifier option
     \<Rightarrow> InvalidProposalVerificationContext \<Rightarrow> evidence_error option" where
  "verifyProposalCase env evidence validatorSet validatorInfo verifier c =
     (case env_decodeInvalid env (evd_Proof evidence) of
        Inl e \<Rightarrow> Some (EvidenceJSONError e)
      | Inr decoded \<Rightarrow>
          let reason = ipp_Reason decoded in
          case (if reason \<in> {InvalidProposalReasonDAMismatch, InvalidProposalReasonMissingData}
                then VerifyInvalidProposalEvidenceWithContext env evidence c
                else if reason = InvalidProposalReasonValidatorSetHash
                then VerifyInvalidProposalEvidenceWithBoundContext env evidence
                       (if ipc_ExpectedValidatorSetHash c = zero_hash
                        then c\<lparr>ipc_ExpectedValidatorSetHash := Set_Hash validatorSet\<rparr> else c)
                else if reason \<in> {InvalidProposalReasonAppHash, InvalidProposalReasonTimestamp,
                                  InvalidProposalReasonTxValidity}
                then VerifyInvalidProposalEvidenceWithBoundContext env evidence c
                else if \<not> isCustomInvalidProposalReason (env_verifiers env) reason
                then Some ErrInvalidProposalContext
                else if invalidProposalReasonRequiresContext (env_verifiers env) reason
                then VerifyInvalidProposalEvidenceWithBoundContext env evidence c
                else VerifyInvalidProposalEvidenceWithContext env evidence c) of
            Some e \<Rightarrow> Some e
          | None \<Rightarrow> verifyProposalEvidenceSignature (ipp_Proposal decoded) validatorInfo verifier)"

definition verifyUnavailableCase ::
    "EvidenceEnv \<Rightarrow> Evidence \<Rightarrow> Validator \<Rightarrow> EvidenceVerifier option \<Rightarrow> evidence_error option" where
  "verifyUnavailableCase env evidence validatorInfo verifier =
     (case VerifyUnavailableDataEvidence env evidence of
        Some e \<Rightarrow> Some e
      | None \<Rightarrow>
          case env_decodeUnavailable env (evd_Proof evidence) of
            Inl e \<Rightarrow> Some (EvidenceJSONError e)
          | Inr decoded \<Rightarrow> verifyProposalEvidenceSignature (udp_Proposal decoded) validatorInfo verifier)"

definition verifyConsensusEvidence ::
    "EvidenceEnv \<Rightarrow> Evidence \<Rightarrow> setSnapshot \<Rightarrow> Validator \<Rightarrow> EvidenceVerifier option
     \<Rightarrow> InvalidProposalVerificationContext \<Rightarrow> evidence_error option" where
  "verifyConsensusEvidence env evidence validatorSet validatorInfo verifier c =
     (let t = evd_Type evidence in
      if t = EvidenceDoubleSign \<or> t = EvidenceConflictingVote
      then verifyVoteCase env evidence validatorInfo verifier
      else if t = EvidenceConflictingTimeoutVote then verifyTimeoutCase env evidence validatorInfo verifier
      else if t = EvidenceInvalidProposal
      then verifyProposalCase env evidence validatorSet validatorInfo verifier c
      else if t = EvidenceUnavailableData then verifyUnavailableCase env evidence validatorInfo verifier
      else if t = EvidenceFinalityConflict then
        (case verifier of
           None \<Rightarrow> Some ErrEvidenceFinalityVerifier
         | Some v \<Rightarrow>
             (case evr_VerifyAggregate v of
                None \<Rightarrow> Some ErrEvidenceFinalityVerifier
              | Some aggregate \<Rightarrow> verifyFinalityConflictEvidence env evidence validatorSet (Some aggregate)))
      else Some ErrUnsupportedEvidenceProof)"

section \<open>Submission\<close>

record SlashResult =
  sr_Receipt :: PenaltyReceipt
  sr_PreviousPower :: VotingPower
  sr_RemainingPower :: VotingPower

text \<open>The keeper and the registry, which an operation changes also when it fails.\<close>

record slashing_state =
  ss_keeper :: InMemoryKeeper
  ss_registry :: InMemoryRegistry

definition verifySlashingRegistryApplication ::
    "InMemoryRegistry \<Rightarrow> ctx \<Rightarrow> Height \<Rightarrow> ValidatorID \<Rightarrow> VotingPower \<Rightarrow> evidence_error option" where
  "verifySlashingRegistryApplication registry ctx applyHeight validatorID remainingPower =
     (case ValidatorSet registry ctx applyHeight of
        Inl e \<Rightarrow> Some (EvidenceValidatorError e)
      | Inr s \<Rightarrow>
          (case Set_Get s validatorID of
             None \<Rightarrow> if remainingPower = 0 then None else Some ErrSlashingRegistryMismatch
           | Some validatorInfo \<Rightarrow>
               if remainingPower = 0 then Some ErrSlashingRegistryMismatch
               else if val_VotingPower validatorInfo \<noteq> remainingPower then Some ErrSlashingRegistryMismatch
               else None))"

text \<open>The registry part: the validator leaves, or its power becomes what the receipt says.\<close>

definition applyReceipt ::
    "InMemoryRegistry \<Rightarrow> ctx \<Rightarrow> Height \<Rightarrow> ValidatorID \<Rightarrow> Validator \<Rightarrow> VotingPower
     \<Rightarrow> InMemoryRegistry \<times> evidence_error option" where
  "applyReceipt registry ctx applyHeight validatorID applyValidatorInfo remainingPower =
     (let (registry, err) =
            (if remainingPower = 0 then ApplyLeaveAt registry ctx applyHeight validatorID
             else if val_VotingPower applyValidatorInfo \<noteq> remainingPower
             then UpdateVotingPowerAt registry ctx applyHeight validatorID remainingPower
             else (registry, None))
      in case err of
           Some e \<Rightarrow> (registry, Some (EvidenceValidatorError e))
         | None \<Rightarrow>
             (registry, verifySlashingRegistryApplication registry ctx applyHeight validatorID remainingPower))"

definition SubmitEvidenceForSlashingWithContext ::
    "(VotingPower \<Rightarrow> Penalty \<Rightarrow> slashing_error + VotingPower) \<Rightarrow> EvidenceEnv \<Rightarrow> slashing_state \<Rightarrow> ctx
     \<Rightarrow> EvidenceVerifier option \<Rightarrow> Height \<Rightarrow> Evidence \<Rightarrow> InvalidProposalVerificationContext
     \<Rightarrow> slashing_state \<times> (evidence_error + SlashResult)" where
  "SubmitEvidenceForSlashingWithContext applySlash env st ctx verifier applyHeight evidence c =
     (let applyHeight = (if applyHeight = 0 then evd_Height evidence else applyHeight) in
      case ValidatorSet (ss_registry st) ctx (evd_Height evidence) of
        Inl e \<Rightarrow> (st, Inl (EvidenceValidatorError e))
      | Inr s \<Rightarrow>
          case Set_Get s (evd_Validator evidence) of
            None \<Rightarrow> (st, Inl ErrEvidenceValidatorNotFound)
          | Some validatorInfo \<Rightarrow>
              case verifyConsensusEvidence env evidence s validatorInfo verifier c of
                Some e \<Rightarrow> (st, Inl e)
              | None \<Rightarrow>
                  let stored = keeper_PenaltyReceipt (ss_keeper st) evidence in
                  case ValidatorSet (ss_registry st) ctx applyHeight of
                    Inl e \<Rightarrow>
                      if stored = None then (st, Inl (EvidenceValidatorError e))
                      else
                        (case SubmitEvidence (ss_keeper st) ctx evidence of
                           (k, err) \<Rightarrow>
                             if err \<noteq> None \<and> err \<noteq> Some ErrDuplicateEvidence
                             then (st\<lparr>ss_keeper := k\<rparr>, Inl (EvidenceSlashingError (the err)))
                             else (st\<lparr>ss_keeper := k\<rparr>, Inl (EvidenceValidatorError e)))
                  | Inr applySet \<Rightarrow>
                      let applied = Set_Get applySet (evd_Validator evidence) in
                      case SubmitEvidence (ss_keeper st) ctx evidence of
                        (k, err) \<Rightarrow>
                          if err \<noteq> None \<and> err \<noteq> Some ErrDuplicateEvidence
                          then (st\<lparr>ss_keeper := k\<rparr>, Inl (EvidenceSlashingError (the err)))
                          else
                            case (case stored of
                                    Some receipt \<Rightarrow> (k, Inr receipt)
                                  | None \<Rightarrow>
                                      ApplyPenaltyWithStake applySlash k ctx evidence
                                        (case applied of None \<Rightarrow> val_VotingPower validatorInfo
                                         | Some info \<Rightarrow> val_VotingPower info)) of
                              (k, Inl e) \<Rightarrow> (st\<lparr>ss_keeper := k\<rparr>, Inl (EvidenceSlashingError e))
                            | (k, Inr receipt) \<Rightarrow>
                                let slashResult =
                                      Inr \<lparr>sr_Receipt = receipt, sr_PreviousPower = rcp_PreviousPower receipt,
                                           sr_RemainingPower = rcp_RemainingPower receipt\<rparr>
                                in (case applied of
                                      None \<Rightarrow> (st\<lparr>ss_keeper := k\<rparr>, slashResult)
                                    | Some info \<Rightarrow>
                                        (case applyReceipt (ss_registry st) ctx applyHeight
                                                (evd_Validator evidence) info (rcp_RemainingPower receipt) of
                                           (registry, Some e) \<Rightarrow>
                                             (st\<lparr>ss_keeper := k, ss_registry := registry\<rparr>, Inl e)
                                         | (registry, None) \<Rightarrow>
                                             (st\<lparr>ss_keeper := k, ss_registry := registry\<rparr>, slashResult))))"

definition SubmitEvidenceForSlashing ::
    "(VotingPower \<Rightarrow> Penalty \<Rightarrow> slashing_error + VotingPower) \<Rightarrow> EvidenceEnv \<Rightarrow> slashing_state \<Rightarrow> ctx
     \<Rightarrow> EvidenceVerifier option \<Rightarrow> Height \<Rightarrow> Evidence \<Rightarrow> slashing_state \<times> (evidence_error + SlashResult)" where
  "SubmitEvidenceForSlashing applySlash env st ctx verifier applyHeight evidence =
     SubmitEvidenceForSlashingWithContext applySlash env st ctx verifier applyHeight evidence zeroContext"

section \<open>The registry after a penalty\<close>

lemma governs_reg_at: "governs r h h' \<Longrightarrow> reg_at r h' = reg_at r h"
proof -
  assume g: "governs r h h'"
  have "selectVersion (reg_versions r) h' = selectVersion (reg_versions r) h"
    unfolding selectVersion_def using g by (intro foldl_cong) (auto simp: governs_def)
  then show ?thesis
    by (simp add: reg_at_def)
qed

lemma governs_refl [simp]: "governs r h h"
  by (simp add: governs_def)

lemma UpdateVotingPowerAt_total:
  assumes "registry_inv r" and "h \<noteq> 0" and "reg_at r h i = Some info" and "p \<noteq> 0"
  shows "snd (UpdateVotingPowerAt r None h i p) = None"
  using assms toMap_snapshotAt(2) [OF assms(1), of h] by (simp add: UpdateVotingPowerAt_def Let_def)

lemma ApplyLeaveAt_total:
  assumes "registry_inv r" and "h \<noteq> 0" and "reg_at r h i = Some info"
  shows "snd (ApplyLeaveAt r None h i) = None"
  using assms toMap_snapshotAt(2) [OF assms(1), of h] by (simp add: ApplyLeaveAt_def Let_def)

text \<open>The validators in force once a validator was left with the given power.\<close>

definition penalised ::
    "InMemoryRegistry \<Rightarrow> Height \<Rightarrow> ValidatorID \<Rightarrow> Validator \<Rightarrow> VotingPower \<Rightarrow> Height \<Rightarrow> ValidatorID \<rightharpoonup> Validator" where
  "penalised r h i info p h' =
     (if governs r h h'
      then (reg_at r h)(i := if p = 0 then None else Some (info\<lparr>val_VotingPower := p\<rparr>)) else reg_at r h')"

lemma verify_application:
  assumes "registry_inv r'" and "h \<noteq> 0" and "reg_at r' = penalised r h i info p"
  shows "verifySlashingRegistryApplication r' None h i p = None"
  using assms
  by (simp add: verifySlashingRegistryApplication_def ValidatorSet_def Set_Get_snapshotAt penalised_def)

lemma applyReceipt_spec:
  assumes inv: "registry_inv r" and h: "h \<noteq> 0" and at: "reg_at r h i = Some info"
  shows "\<exists>r'. applyReceipt r None h i info p = (r', None) \<and> registry_inv r' \<and> reg_at r' = penalised r h i info p"
proof -
  have e: "effective r h = h"
    using h by (simp add: effective_def)
  consider "p = 0" | "p \<noteq> 0" "val_VotingPower info = p" | "p \<noteq> 0" "val_VotingPower info \<noteq> p"
    by blast
  then show ?thesis
  proof cases
    case 1
    obtain r' where run: "ApplyLeaveAt r None h i = (r', None)"
      using ApplyLeaveAt_total [OF assms] by (metis prod.collapse)
    have r': "registry_inv r'" "reg_at r' = penalised r h i info p"
      using ApplyLeaveAt_spec [OF inv run] 1 by (auto simp: penalised_def e fun_eq_iff)
    with run verify_application [OF r'(1) h r'(2)] 1 show ?thesis
      by (auto simp: applyReceipt_def)
  next
    case 2
    have "reg_at r = penalised r h i info p"
    proof
      fix h'
      show "reg_at r h' = penalised r h i info p h'"
        using 2 at governs_reg_at [of r h h'] by (auto simp: penalised_def fun_eq_iff)
    qed
    with 2 inv verify_application [OF inv h this] show ?thesis
      by (auto simp: applyReceipt_def)
  next
    case 3
    obtain r' where run: "UpdateVotingPowerAt r None h i p = (r', None)"
      using UpdateVotingPowerAt_total [OF assms 3(1)] by (metis prod.collapse)
    have r': "registry_inv r'" "reg_at r' = penalised r h i info p"
      using UpdateVotingPowerAt_spec [OF inv run] 3 at by (auto simp: penalised_def e fun_eq_iff)
    with run verify_application [OF r'(1) h r'(2)] 3 show ?thesis
      by (auto simp: applyReceipt_def)
  qed
qed

section \<open>Submission\<close>

text \<open>Evidence that the keeper takes, or already has, has a validator, a height and a configured penalty.\<close>

lemma SubmitEvidence_ok:
  assumes "SubmitEvidence k ctx e = (k', err)" and "err = None \<or> err = Some ErrDuplicateEvidence"
  shows "ctx = None \<and> ValidateEvidence k None e = None \<and> evd_Height e \<noteq> 0"
  using assms by (auto simp: SubmitEvidence_def ValidateEvidence_def Let_def split: option.splits if_splits)

text \<open>The power a penalty is computed from.\<close>

definition base_power :: "InMemoryRegistry \<Rightarrow> Height \<Rightarrow> Validator \<Rightarrow> ValidatorID \<Rightarrow> VotingPower" where
  "base_power r h info i = (case reg_at r h i of None \<Rightarrow> val_VotingPower info | Some now \<Rightarrow> val_VotingPower now)"

definition slash_result :: "PenaltyReceipt \<Rightarrow> SlashResult" where
  "slash_result receipt = \<lparr>sr_Receipt = receipt, sr_PreviousPower = rcp_PreviousPower receipt,
     sr_RemainingPower = rcp_RemainingPower receipt\<rparr>"

text \<open>What a submission does once the evidence is verified and the keeper took it.\<close>

lemma submit_receipt:
  assumes inv: "registry_inv (ss_registry st)"
    and set: "Set_Get (snapshotAt (ss_registry st) (evd_Height e)) (evd_Validator e) = Some info"
    and verified: "verifyConsensusEvidence env e (snapshotAt (ss_registry st) (evd_Height e)) info verifier c = None"
    and taken: "SubmitEvidence (ss_keeper st) None e = (k, err)" "err = None \<or> err = Some ErrDuplicateEvidence"
    and H: "H = (if a = 0 then evd_Height e else a)"
    and receipt: "(case keeper_PenaltyReceipt (ss_keeper st) e of
        Some receipt \<Rightarrow> (k, Inr receipt)
      | None \<Rightarrow> ApplyPenaltyWithStake slash k None e (base_power (ss_registry st) H info (evd_Validator e)))
      = (k', Inr receipt)"
  shows "\<exists>r'. SubmitEvidenceForSlashingWithContext slash env st None verifier a e c
       = (st\<lparr>ss_keeper := k', ss_registry := r'\<rparr>, Inr (slash_result receipt))
     \<and> registry_inv r'
     \<and> (case reg_at (ss_registry st) H (evd_Validator e) of
          None \<Rightarrow> r' = ss_registry st
        | Some now \<Rightarrow> reg_at r' = penalised (ss_registry st) H (evd_Validator e) now (rcp_RemainingPower receipt))"
proof -
  let ?r = "ss_registry st" and ?i = "evd_Validator e"
  have he: "evd_Height e \<noteq> 0"
    using SubmitEvidence_ok [OF taken] by simp
  then have H0: "H \<noteq> 0"
    using H by simp
  have sets: "ValidatorSet ?r None (evd_Height e) = Inr (snapshotAt ?r (evd_Height e))"
    "ValidatorSet ?r None H = Inr (snapshotAt ?r H)"
    using he H0 by (simp_all add: ValidatorSet_def)
  have get: "Set_Get (snapshotAt ?r H) ?i = reg_at ?r H ?i"
    by (simp add: Set_Get_snapshotAt [OF inv])
  note run = SubmitEvidenceForSlashingWithContext_def [of slash env st None verifier a e c, folded H, unfolded Let_def]
  show ?thesis
  proof (cases "reg_at ?r H ?i")
    case None
    then have "SubmitEvidenceForSlashingWithContext slash env st None verifier a e c
       = (st\<lparr>ss_keeper := k'\<rparr>, Inr (slash_result receipt))"
      using taken(2) receipt
      by (simp add: run sets set verified taken(1)) (auto simp: get slash_result_def base_power_def split: option.splits)
    with None inv show ?thesis
      by (intro exI [of _ ?r]) simp
  next
    case (Some now)
    obtain r' where r': "applyReceipt ?r None H ?i now (rcp_RemainingPower receipt) = (r', None)"
      "registry_inv r'" "reg_at r' = penalised ?r H ?i now (rcp_RemainingPower receipt)"
      using applyReceipt_spec [OF inv H0 Some] by blast
    have "SubmitEvidenceForSlashingWithContext slash env st None verifier a e c
       = (st\<lparr>ss_keeper := k', ss_registry := r'\<rparr>, Inr (slash_result receipt))"
      using taken(2) receipt Some r'(1)
      by (simp add: run sets set verified taken(1)) (auto simp: get slash_result_def base_power_def split: option.splits)
    with Some r' show ?thesis
      by auto
  qed
qed

lemma submit_success:
  assumes inv: "registry_inv (ss_registry st)"
    and run: "SubmitEvidenceForSlashingWithContext slash env st ctx verifier a e c = (st', Inr res)"
  obtains info k err k' receipt where "ctx = None"
    and "Set_Get (snapshotAt (ss_registry st) (evd_Height e)) (evd_Validator e) = Some info"
    and "verifyConsensusEvidence env e (snapshotAt (ss_registry st) (evd_Height e)) info verifier c = None"
    and "SubmitEvidence (ss_keeper st) None e = (k, err)" and "err = None \<or> err = Some ErrDuplicateEvidence"
    and "(case keeper_PenaltyReceipt (ss_keeper st) e of
        Some receipt \<Rightarrow> (k, Inr receipt)
      | None \<Rightarrow> ApplyPenaltyWithStake slash k None e
          (base_power (ss_registry st) (if a = 0 then evd_Height e else a) info (evd_Validator e))) = (k', Inr receipt)"
proof -
  let ?r = "ss_registry st" and ?i = "evd_Validator e" and ?H = "if a = 0 then evd_Height e else a"
  note defs = run [unfolded SubmitEvidenceForSlashingWithContext_def Let_def]
  have ctx: "ctx = None"
    using defs by (auto simp: ValidatorSet_def split: option.splits)
  obtain s info where s: "ValidatorSet ?r None (evd_Height e) = Inr s" "Set_Get s ?i = Some info"
    "verifyConsensusEvidence env e s info verifier c = None"
    using defs ctx by (auto split: sum.splits option.splits)
  obtain t where t: "ValidatorSet ?r None ?H = Inr t"
    by (auto simp: ValidatorSet_def)
  obtain k err where k: "SubmitEvidence (ss_keeper st) None e = (k, err)"
    by fastforce
  have err: "err = None \<or> err = Some ErrDuplicateEvidence"
    using defs ctx s t k by (auto split: if_splits)
  have he: "evd_Height e \<noteq> 0"
    using SubmitEvidence_ok [OF k err] by simp
  have snap: "s = snapshotAt ?r (evd_Height e)" "t = snapshotAt ?r ?H"
    using s(1) t he by (auto simp: ValidatorSet_def split: if_splits)
  have base: "(case Set_Get t ?i of None \<Rightarrow> val_VotingPower info | Some info \<Rightarrow> val_VotingPower info)
      = base_power ?r ?H info ?i"
    unfolding snap base_power_def Set_Get_snapshotAt [OF inv] ..
  obtain k' receipt where "(case keeper_PenaltyReceipt (ss_keeper st) e of
        Some receipt \<Rightarrow> (k, Inr receipt)
      | None \<Rightarrow> ApplyPenaltyWithStake slash k None e
          (case Set_Get t ?i of None \<Rightarrow> val_VotingPower info | Some info \<Rightarrow> val_VotingPower info)) = (k', Inr receipt)"
    using defs ctx s t k err by (auto split: prod.splits sum.splits)
  note this [unfolded base]
  with that ctx s k err snap show ?thesis
    by blast
qed

lemma submit_registry:
  assumes inv: "registry_inv (ss_registry st)"
    and run: "SubmitEvidenceForSlashingWithContext slash env st ctx verifier a e c = (st', Inr res)"
    and H: "H = (if a = 0 then evd_Height e else a)"
  shows "registry_inv (ss_registry st')
    \<and> keeper_PenaltyReceipt (ss_keeper st') e = Some (sr_Receipt res)
    \<and> (case reg_at (ss_registry st) H (evd_Validator e) of
         None \<Rightarrow> ss_registry st' = ss_registry st
       | Some now \<Rightarrow> reg_at (ss_registry st') =
           penalised (ss_registry st) H (evd_Validator e) now (sr_RemainingPower res))"
proof -
  from submit_success [OF inv run] obtain info k err k' receipt where s: "ctx = None"
    "Set_Get (snapshotAt (ss_registry st) (evd_Height e)) (evd_Validator e) = Some info"
    "verifyConsensusEvidence env e (snapshotAt (ss_registry st) (evd_Height e)) info verifier c = None"
    "SubmitEvidence (ss_keeper st) None e = (k, err)" "err = None \<or> err = Some ErrDuplicateEvidence"
    "(case keeper_PenaltyReceipt (ss_keeper st) e of
        Some receipt \<Rightarrow> (k, Inr receipt)
      | None \<Rightarrow> ApplyPenaltyWithStake slash k None e (base_power (ss_registry st) H info (evd_Validator e)))
      = (k', Inr receipt)"
    unfolding H by blast
  from submit_receipt [OF inv s(2-5) H s(6)] run s(1) have r: "registry_inv (ss_registry st')"
    "ss_keeper st' = k'" "res = slash_result receipt"
    "case reg_at (ss_registry st) H (evd_Validator e) of
          None \<Rightarrow> ss_registry st' = ss_registry st
        | Some now \<Rightarrow> reg_at (ss_registry st') =
            penalised (ss_registry st) H (evd_Validator e) now (rcp_RemainingPower receipt)"
    by (auto cong: option.case_cong)
  have "kp_penalties k = kp_penalties (ss_keeper st)"
    using s(4) by (auto simp: SubmitEvidence_def Let_def split: option.splits if_splits)
  then have "keeper_PenaltyReceipt k' e = Some receipt"
    using s(6) ApplyPenaltyWithStake_records
    by (auto simp: keeper_PenaltyReceipt_def split: option.splits)
  with r show ?thesis
    by (simp add: slash_result_def cong: option.case_cong)
qed

section \<open>What accepted evidence proves\<close>

text \<open>The validator holds the key and signed the message under the domain.\<close>

definition signed_by :: "signature_verifier \<Rightarrow> PublicKey \<Rightarrow> string \<Rightarrow> bytes \<Rightarrow> Signature \<Rightarrow> bool" where
  "signed_by verify pk domain m sig \<longleftrightarrow>
     sig \<noteq> [] \<and> (\<exists>x. DomainMessage domain m = Inr x \<and> verify pk x sig)"

lemma verifyDomainSignature_iff:
  "verifyDomainSignature v pk domain m sig \<longleftrightarrow> signed_by (evr_Verify v) pk domain m sig"
  by (auto simp: verifyDomainSignature_def signed_by_def split: sum.splits)

lemma verifyVoteCase_None:
  assumes "verifyVoteCase env e info verifier = None"
  shows "\<exists>v x y. verifier = Some v \<and> env_decodeVotes env (evd_Proof e) = Inr \<lparr>cvp_First = x, cvp_Second = y\<rparr>
    \<and> vote_ValidatorID x = evd_Validator e \<and> vote_Height x = evd_Height e \<and> vote_Round x = evd_Round e
    \<and> vote_ValidatorID y = evd_Validator e \<and> vote_Height y = evd_Height e \<and> vote_Round y = evd_Round e
    \<and> vote_BlockHash x \<noteq> vote_BlockHash y
    \<and> signed_by (evr_Verify v) (val_PublicKey info) DomainConsensusVote (VoteSignBytes x) (vote_Signature x)
    \<and> signed_by (evr_Verify v) (val_PublicKey info) DomainConsensusVote (VoteSignBytes y) (vote_Signature y)"
proof -
  let ?e = "if evd_Type e = EvidenceDoubleSign then e\<lparr>evd_Type := EvidenceConflictingVote\<rparr> else e"
  have same: "evd_Proof ?e = evd_Proof e" "evd_Validator ?e = evd_Validator e" "evd_Height ?e = evd_Height e"
    "evd_Round ?e = evd_Round e"
    by simp_all
  from assms obtain d v where d: "env_decodeVotes env (evd_Proof e) = Inr d" "verifier = Some v"
    and ok: "VerifyConflictingVoteEvidence env ?e = None"
    and sig: "signed_by (evr_Verify v) (val_PublicKey info) DomainConsensusVote (VoteSignBytes (cvp_First d)) (vote_Signature (cvp_First d))"
      "signed_by (evr_Verify v) (val_PublicKey info) DomainConsensusVote (VoteSignBytes (cvp_Second d)) (vote_Signature (cvp_Second d))"
    unfolding verifyVoteCase_def Let_def same verifyDomainSignature_iff
    by (auto split: option.splits sum.splits if_splits)
  obtain x y where xy: "d = \<lparr>cvp_First = x, cvp_Second = y\<rparr>"
    by (cases d) simp
  from ok d(1) show ?thesis
    unfolding VerifyConflictingVoteEvidence_def Let_def same
    using d sig xy by (auto split: if_splits)
qed

text \<open>The converse: two conflicting signed votes are accepted under both types of vote evidence.\<close>

lemma verifyVoteCase_accepts:
  assumes "env_decodeVotes env (evd_Proof e) = Inr \<lparr>cvp_First = x, cvp_Second = y\<rparr>"
    and "vote_ValidatorID x = evd_Validator e" "vote_Height x = evd_Height e" "vote_Round x = evd_Round e"
    and "vote_ValidatorID y = evd_Validator e" "vote_Height y = evd_Height e" "vote_Round y = evd_Round e"
    and "vote_BlockHash x \<noteq> vote_BlockHash y"
    and "signed_by (evr_Verify v) (val_PublicKey info) DomainConsensusVote (VoteSignBytes x) (vote_Signature x)"
    and "signed_by (evr_Verify v) (val_PublicKey info) DomainConsensusVote (VoteSignBytes y) (vote_Signature y)"
    and "evd_Type e \<in> {EvidenceDoubleSign, EvidenceConflictingVote}"
  shows "verifyConsensusEvidence env e s info (Some v) c = None"
  using assms
  by (auto simp: verifyConsensusEvidence_def verifyVoteCase_def VerifyConflictingVoteEvidence_def
      verifyDomainSignature_iff Let_def)
section \<open>Properties\<close>

lemma history_inv:
  "NewInMemoryRegistry policy vs = Inr r0 \<Longrightarrow> registry_inv (registry_run r0 ops)"
  by (rule registry_run_inv [OF NewInMemoryRegistry_inv])

lemma SubmitEvidence_valid:
  "ValidateEvidence k None e = None \<Longrightarrow>
     snd (SubmitEvidence k None e) = None \<or> snd (SubmitEvidence k None e) = Some ErrDuplicateEvidence"
  by (simp add: SubmitEvidence_def Let_def)

text \<open>
  C19: A penalty reaches the registry.  When a submission succeeds, the keeper stores the receipt it returns, and
  the validator, if it is in force at the height of application, has exactly the power the receipt leaves it from
  that height up to the next change that was already scheduled; nobody else and no other height is touched.
\<close>

theorem penalty_reaches_registry:
  assumes "NewInMemoryRegistry policy vs = Inr r0" and "ss_registry st = registry_run r0 ops"
    and "SubmitEvidenceForSlashingWithContext slash env st ctx verifier a e c = (st', Inr res)"
    and "H = (if a = 0 then evd_Height e else a)"
  shows "keeper_PenaltyReceipt (ss_keeper st') e = Some (sr_Receipt res)
    \<and> Set_Get (snapshotAt (ss_registry st') h) =
        (case Set_Get (snapshotAt (ss_registry st) H) (evd_Validator e) of
           Some now \<Rightarrow> penalised (ss_registry st) H (evd_Validator e) now (sr_RemainingPower res) h
         | None \<Rightarrow> Set_Get (snapshotAt (ss_registry st) h))"
proof -
  have inv: "registry_inv (ss_registry st)"
    unfolding assms(2) by (rule history_inv [OF assms(1)])
  note post = submit_registry [OF inv assms(3,4)]
  show ?thesis
    using post by (auto simp: Set_Get_snapshotAt [OF inv] Set_Get_snapshotAt split: option.splits)
qed

text \<open>
  C20: Who does not equivocate is not slashed for votes.  If the signatures of a validator cannot be forged under
  the key the registry holds for the height, and it signed votes for at most one block in each height and round,
  no submission of vote evidence against it succeeds.
\<close>

theorem honest_voter_not_slashed:
  assumes "NewInMemoryRegistry policy vs = Inr r0" and "ss_registry st = registry_run r0 ops"
    and "evd_Type e = EvidenceConflictingVote \<or> evd_Type e = EvidenceDoubleSign"
    and key: "Set_Get (snapshotAt (ss_registry st) (evd_Height e)) (evd_Validator e) = Some info"
    and unforgeable: "\<And>x sig. evr_Verify v (val_PublicKey info) x sig \<Longrightarrow> x \<in> sent"
    and one_vote: "\<And>h r b b' x y. DomainMessage DomainConsensusVote (signbytes_Vote h r b) = Inr x \<Longrightarrow>
       DomainMessage DomainConsensusVote (signbytes_Vote h r b') = Inr y \<Longrightarrow>
       x \<in> sent \<Longrightarrow> y \<in> sent \<Longrightarrow> b = b'"
  shows "\<nexists>res. snd (SubmitEvidenceForSlashingWithContext slash env st ctx (Some v) a e c) = Inr res"
proof
  assume "\<exists>res. snd (SubmitEvidenceForSlashingWithContext slash env st ctx (Some v) a e c) = Inr res"
  then obtain st' res where run:
    "SubmitEvidenceForSlashingWithContext slash env st ctx (Some v) a e c = (st', Inr res)"
    by (metis prod.collapse)
  have inv: "registry_inv (ss_registry st)"
    unfolding assms(2) by (rule history_inv [OF assms(1)])
  from submit_success [OF inv run] key
  have "verifyConsensusEvidence env e (snapshotAt (ss_registry st) (evd_Height e)) info (Some v) c = None"
    by auto
  then have "verifyVoteCase env e info (Some v) = None"
    using assms(3) by (auto simp: verifyConsensusEvidence_def Let_def)
  from verifyVoteCase_None [OF this] obtain x y where "vote_Height x = evd_Height e" "vote_Round x = evd_Round e"
    "vote_Height y = evd_Height e" "vote_Round y = evd_Round e" "vote_BlockHash x \<noteq> vote_BlockHash y"
    "signed_by (evr_Verify v) (val_PublicKey info) DomainConsensusVote (VoteSignBytes x) (vote_Signature x)"
    "signed_by (evr_Verify v) (val_PublicKey info) DomainConsensusVote (VoteSignBytes y) (vote_Signature y)"
    by auto
  then show False
    using unforgeable one_vote unfolding signed_by_def VoteSignBytes_def by metis
qed

text \<open>
  C33: Submitting old evidence again resets the power of the validator.  When evidence that was charged before
  is submitted once more, the receipt is not charged again, but the registry is set to the power that the first
  charge left, whatever the power is by then: later penalties are undone, later deposits are lost.
\<close>

theorem replayed_evidence_resets_power:
  assumes "NewInMemoryRegistry policy vs = Inr r0" and "ss_registry st = registry_run r0 ops"
    and "keeper_PenaltyReceipt (ss_keeper st) e = Some receipt" and "rcp_RemainingPower receipt \<noteq> 0"
    and "ValidateEvidence (ss_keeper st) None e = None"
    and "Set_Get (snapshotAt (ss_registry st) (evd_Height e)) (evd_Validator e) = Some info"
    and "verifyConsensusEvidence env e (snapshotAt (ss_registry st) (evd_Height e)) info verifier c = None"
    and "H = (if a = 0 then evd_Height e else a)"
    and "Set_Get (snapshotAt (ss_registry st) H) (evd_Validator e) = Some now"
  shows "\<exists>st' res. SubmitEvidenceForSlashingWithContext slash env st None verifier a e c = (st', Inr res)
    \<and> Set_Get (snapshotAt (ss_registry st') H) (evd_Validator e)
        = Some (now\<lparr>val_VotingPower := rcp_RemainingPower receipt\<rparr>)"
proof -
  have inv: "registry_inv (ss_registry st)"
    unfolding assms(2) by (rule history_inv [OF assms(1)])
  obtain k err where k: "SubmitEvidence (ss_keeper st) None e = (k, err)" "err = None \<or> err = Some ErrDuplicateEvidence"
    using SubmitEvidence_valid [OF assms(5)] by (metis prod.collapse)
  have at: "reg_at (ss_registry st) H (evd_Validator e) = Some now"
    using assms(9) by (simp add: Set_Get_snapshotAt [OF inv])
  from submit_receipt [OF inv assms(6,7) k assms(8), of slash k receipt] assms(3) at obtain r' where
    "SubmitEvidenceForSlashingWithContext slash env st None verifier a e c
       = (st\<lparr>ss_keeper := k, ss_registry := r'\<rparr>, Inr (slash_result receipt))"
    "registry_inv r'"
    "reg_at r' = penalised (ss_registry st) H (evd_Validator e) now (rcp_RemainingPower receipt)"
    by auto
  with assms(4) show ?thesis
    by (simp add: Set_Get_snapshotAt penalised_def)
qed
section \<open>A first charge\<close>

definition fresh :: "InMemoryKeeper \<Rightarrow> Evidence \<Rightarrow> bool" where
  "fresh k e \<longleftrightarrow> (let key = evidenceKey e in
     map_of (kp_evidence k) key = None \<and> map_of (kp_evidenceStatus k) key = None
     \<and> map_of (kp_evidenceExpires k) key = None \<and> map_of (kp_penalties k) key = None)"

text \<open>The expiry height of new evidence does not wrap around.\<close>

definition expiry_fits :: "InMemoryKeeper \<Rightarrow> Evidence \<Rightarrow> bool" where
  "expiry_fits k e \<longleftrightarrow> evd_Height e < evd_Height e + lc_EvidenceMaxAge (kp_lifecyclePolicy k)"

lemma jailAndUnbond_frame' [simp]:
  "kp_policy (jailAndUnbond k e p) = kp_policy k"
  "kp_lifecyclePolicy (jailAndUnbond k e p) = kp_lifecyclePolicy k"
  "kp_evidenceStatus (jailAndUnbond k e p) = kp_evidenceStatus k"
  "kp_evidenceExpires (jailAndUnbond k e p) = kp_evidenceExpires k"
  by (simp_all add: jailAndUnbond_def Let_def)

lemma charge_fresh:
  assumes "fresh k e" and "ValidateEvidence k None e = None" and "expiry_fits k e"
    and "map_of (kp_policy k) (evd_Type e) = Some pen" and "slash p pen = Inr q"
  obtains k1 k2 where "SubmitEvidence k None e = (k1, None)"
    and "ApplyPenaltyWithStake slash k1 None e p =
      (k2, Inr \<lparr>rcp_Evidence = e, rcp_Penalty = pen, rcp_PreviousPower = p, rcp_RemainingPower = q\<rparr>)"
proof -
  let ?age = "lc_EvidenceMaxAge (kp_lifecyclePolicy k)"
  have age: "0 < ?age" "evd_Height e + ?age \<noteq> 0" "\<not> evd_Height e + ?age \<le> evd_Height e"
    using assms(3) by (auto simp: expiry_fits_def not_le intro: neq0_conv [THEN iffD1])
      (metis add.right_neutral less_irrefl word_gt_0)
  obtain k1 where k1: "SubmitEvidence k None e = (k1, None)"
    "k1 = k\<lparr>kp_evidence := AList.update (evidenceKey e) e (kp_evidence k),
            kp_evidenceStatus := AList.update (evidenceKey e) EvidenceStatusSubmitted (kp_evidenceStatus k),
            kp_evidenceExpires := AList.update (evidenceKey e) (evd_Height e + ?age) (kp_evidenceExpires k)\<rparr>"
    using assms(1,2) age(1) by (simp add: SubmitEvidence_def fresh_def Let_def)
  have "ValidateEvidence k1 None e = None" "map_of (kp_policy k1) (evd_Type e) = Some pen"
    using assms(2,4) by (auto simp: k1(2) ValidateEvidence_def split: if_splits)
  then have penalty: "ApplyPenalty k1 None e = Inr pen"
    by (simp add: ApplyPenalty_def)
  have "\<exists>k2. ApplyPenaltyWithStake slash k1 None e p =
      (k2, Inr \<lparr>rcp_Evidence = e, rcp_Penalty = pen, rcp_PreviousPower = p, rcp_RemainingPower = q\<rparr>)"
    using assms(1,5) age(2,3) penalty
    by (simp add: ApplyPenaltyWithStake_def fresh_def Let_def k1(2) update_conv')
  with k1(1) that show ?thesis
    by blast
qed

lemma charge_frame:
  assumes "SubmitEvidence k None e = (k1, err)" and "ApplyPenaltyWithStake slash k1 None e p = (k2, res)"
  shows "kp_policy k2 = kp_policy k \<and> kp_lifecyclePolicy k2 = kp_lifecyclePolicy k
    \<and> (evidenceKey f \<noteq> evidenceKey e \<longrightarrow> fresh k f \<longrightarrow> fresh k2 f)"
proof -
  have "kp_policy k1 = kp_policy k \<and> kp_lifecyclePolicy k1 = kp_lifecyclePolicy k
    \<and> (evidenceKey f \<noteq> evidenceKey e \<longrightarrow> fresh k f \<longrightarrow> fresh k1 f)"
    using assms(1)
    by (auto simp: SubmitEvidence_def fresh_def Let_def update_conv' split: option.splits if_splits)
  moreover have "kp_policy k2 = kp_policy k1 \<and> kp_lifecyclePolicy k2 = kp_lifecyclePolicy k1
    \<and> (evidenceKey f \<noteq> evidenceKey e \<longrightarrow> fresh k1 f \<longrightarrow> fresh k2 f)"
    using assms(2)
    by (auto simp: ApplyPenaltyWithStake_def fresh_def Let_def update_conv' split: option.splits if_splits sum.splits)
  ultimately show ?thesis
    by simp
qed

lemma submit_fresh:
  assumes "registry_inv (ss_registry st)"
    and "Set_Get (snapshotAt (ss_registry st) (evd_Height e)) (evd_Validator e) = Some info"
    and "verifyConsensusEvidence env e (snapshotAt (ss_registry st) (evd_Height e)) info verifier c = None"
    and "fresh (ss_keeper st) e" and "ValidateEvidence (ss_keeper st) None e = None" and "expiry_fits (ss_keeper st) e"
    and "map_of (kp_policy (ss_keeper st)) (evd_Type e) = Some pen"
    and "H = (if a = 0 then evd_Height e else a)"
    and "slash (base_power (ss_registry st) H info (evd_Validator e)) pen = Inr q"
  shows "\<exists>st' res. SubmitEvidenceForSlashingWithContext slash env st None verifier a e c = (st', Inr res)
    \<and> sr_PreviousPower res = base_power (ss_registry st) H info (evd_Validator e) \<and> sr_RemainingPower res = q"
proof -
  from charge_fresh [where slash = slash, OF assms(4-7,9)] obtain k1 k2 where k:
    "SubmitEvidence (ss_keeper st) None e = (k1, None)"
    "ApplyPenaltyWithStake slash k1 None e (base_power (ss_registry st) H info (evd_Validator e)) =
      (k2, Inr \<lparr>rcp_Evidence = e, rcp_Penalty = pen,
         rcp_PreviousPower = base_power (ss_registry st) H info (evd_Validator e), rcp_RemainingPower = q\<rparr>)"
    by blast
  have "keeper_PenaltyReceipt (ss_keeper st) e = None"
    using assms(4) by (simp add: fresh_def keeper_PenaltyReceipt_def Let_def)
  with submit_receipt [OF assms(1-3) k(1) _ assms(8), of slash k2] k(2) show ?thesis
    by (fastforce simp: slash_result_def)
qed

section \<open>Framed proposers and double charges\<close>

text \<open>The data-availability proof of a proposal.\<close>

definition da_proof :: "Proposal \<Rightarrow> InvalidProposalProof" where
  "da_proof p = (newProof p InvalidProposalReasonDAMismatch)
     \<lparr>ipp_ExpectedHash := Commitment (blk_Txs (prop_Block p)),
      ipp_ActualHash := hdr_ConsensusHash (blk_Header (prop_Block p))\<rparr>"

definition with_txs :: "Proposal \<Rightarrow> Tx list \<Rightarrow> Proposal" where
  "with_txs p txs = p\<lparr>prop_Block := (prop_Block p)\<lparr>blk_Txs := txs\<rparr>\<rparr>"

text \<open>The block hash, and so what is signed, does not depend on the transactions once the header has a root.\<close>

lemma sign_bytes_without_txs:
  "hdr_TxRoot (blk_Header (prop_Block p)) \<noteq> zero_hash \<Longrightarrow>
     ProposalSignBytes (with_txs p txs) = ProposalSignBytes p"
  by (simp add: ProposalSignBytes_def with_txs_def HashBlock_def Let_def)

lemma da_reason: "InvalidProposalReasonDAMismatch \<noteq> []" "isBuiltinInvalidProposalReason InvalidProposalReasonDAMismatch"
  "InvalidProposalReasonDAMismatch \<noteq> InvalidProposalReasonMissingData"
  "\<not> invalidProposalReasonRequiresContext reg InvalidProposalReasonDAMismatch \<longleftrightarrow>
     (case map_of reg InvalidProposalReasonDAMismatch of None \<Rightarrow> True | Some entry \<Rightarrow> \<not> vre_requireContext entry)"
  by (simp_all add: isBuiltinInvalidProposalReason_def builtinInvalidProposalReasons_def
      invalidProposalReasonRequiresContext_def InvalidProposalReasonDAMismatch_def
      InvalidProposalReasonMissingData_def InvalidProposalReasonValidatorSetHash_def
      InvalidProposalReasonAppHash_def InvalidProposalReasonTimestamp_def InvalidProposalReasonTxValidity_def
      split: option.splits)

lemma da_verified:
  assumes "Commitment (blk_Txs (prop_Block p)) \<noteq> zero_hash"
    and "hdr_ConsensusHash (blk_Header (prop_Block p)) \<noteq> zero_hash"
    and "hdr_ConsensusHash (blk_Header (prop_Block p)) \<noteq> Commitment (blk_Txs (prop_Block p))"
  shows "verifyInvalidProposalByReasonWithContext reg (da_proof p) c = None"
  using assms da_reason(3)
  by (simp add: verifyInvalidProposalByReasonWithContext_def da_proof_def newProof_def verifyDAError_def
      verifyDACommitmentProof_def DA_Verify_def Let_def)

text \<open>The reason has no registered verifier: registration refuses the built-in reasons.\<close>

definition registry_ok :: "verifier_registry \<Rightarrow> bool" where
  "registry_ok reg \<longleftrightarrow> list_all (\<lambda>(reason, _). reason \<noteq> [] \<and> \<not> isBuiltinInvalidProposalReason reason) reg"

lemma registry_ok_register:
  "registry_ok reg \<Longrightarrow> registry_ok (fst (RegisterInvalidProposalVerifierWithOptions reg reason verifier require))"
  by (auto simp: registry_ok_def RegisterInvalidProposalVerifierWithOptions_def list_all_iff
      split: option.splits dest: update_set_cases)

lemma registry_ok_builtin: "registry_ok reg \<Longrightarrow> isBuiltinInvalidProposalReason reason \<Longrightarrow> map_of reg reason = None"
  by (auto simp: registry_ok_def list_all_iff map_of_eq_None_iff)

text \<open>
  C32: An honest proposer can be framed.  The signature of a proposal does not cover its transactions once the
  header has a transaction root, which every created proposal with transactions has.  Anyone who swaps the
  transactions of a signed proposal obtains evidence of a data-availability fault that names its proposer and
  that is accepted.
\<close>

theorem honest_proposer_framed:
  assumes "verifyProposalEvidenceSignature p info verifier = None" and "\<not> missing_proposer p"
    and "hdr_TxRoot (blk_Header (prop_Block p)) \<noteq> zero_hash"
    and "hdr_ConsensusHash (blk_Header (prop_Block p)) \<notin> {zero_hash, Commitment txs}"
    and "Commitment txs \<noteq> zero_hash"
    and "env_encodeInvalid env (da_proof (with_txs p txs)) = Inr bs"
    and "env_decodeInvalid env bs = Inr (da_proof (with_txs p txs))"
    and "registry_ok (env_verifiers env)"
  shows "\<exists>e. NewDataAvailabilityInvalidProposalEvidence env (with_txs p txs) InvalidProposalReasonDAMismatch = Inr e
    \<and> evd_Validator e = prop_Proposer p
    \<and> verifyConsensusEvidence env e s info verifier zeroContext = None"
proof -
  let ?q = "with_txs p txs" and ?reg = "env_verifiers env"
  have q: "blk_Txs (prop_Block ?q) = txs" "blk_Header (prop_Block ?q) = blk_Header (prop_Block p)"
    "prop_Proposer ?q = prop_Proposer p" "prop_Signature ?q = prop_Signature p"
    by (simp_all add: with_txs_def)
  have da: "verifyInvalidProposalByReasonWithContext ?reg (da_proof ?q) c = None" for c
    using assms(4,5) by (intro da_verified) (auto simp: q)
  have valid: "validInvalidProposalReason ?reg InvalidProposalReasonDAMismatch"
    by (simp add: validInvalidProposalReason_def da_reason)
  have nocontext: "\<not> invalidProposalReasonRequiresContext ?reg InvalidProposalReasonDAMismatch"
    using registry_ok_builtin [OF assms(8) da_reason(2)] by (simp add: da_reason(4))
  have fields: "ipp_Reason (da_proof ?q) = InvalidProposalReasonDAMismatch" "ipp_Proposal (da_proof ?q) = ?q"
    "ipp_ContextProofHash (da_proof ?q) = zero_hash" "ipp_StateProof (da_proof ?q) = None"
    by (simp_all add: da_proof_def newProof_def)
  have new: "NewDataAvailabilityInvalidProposalEvidence env ?q InvalidProposalReasonDAMismatch
      = Inr (invalid_evidence ?q bs)"
    unfolding NewDataAvailabilityInvalidProposalEvidence_def verifyInvalidProposalByReason_def
      da_proof_def [symmetric]
    using assms(2) by (simp add: encodeInvalid_def missing_proposer_def q da_reason fields Let_def assms(6) da valid)
  have evidence: "evd_Type (invalid_evidence ?q bs) = EvidenceInvalidProposal"
    "evd_Validator (invalid_evidence ?q bs) = prop_Proposer ?q"
    "evd_Height (invalid_evidence ?q bs) = hdr_Height (blk_Header (prop_Block ?q))"
    "evd_Round (invalid_evidence ?q bs) = prop_Round ?q" "evd_Proof (invalid_evidence ?q bs) = bs"
    by (simp_all add: invalid_evidence_def)
  have "VerifyInvalidProposalEvidenceWithContext env (invalid_evidence ?q bs) zeroContext = None"
    using da [of zeroContext] valid nocontext
    by (simp add: VerifyInvalidProposalEvidenceWithContext_def evidence assms(7) fields Let_def
        verifyInvalidProposalEnvelope_def da_reason(1) verifyInvalidProposalBoundContext_def verifyReasonContext_def
        verifyContextHash_def verifyInvalidProposalStateProof_def zeroContext_def
        InvalidProposalReasonDAMismatch_def InvalidProposalReasonValidatorSetHash_def
        InvalidProposalReasonAppHash_def InvalidProposalReasonTimestamp_def InvalidProposalReasonTxValidity_def)
  moreover have "verifyProposalEvidenceSignature ?q info verifier = None"
    using assms(1,3) by (cases verifier) (simp_all add: verifyProposalEvidenceSignature_def sign_bytes_without_txs q)
  ultimately have "verifyConsensusEvidence env (invalid_evidence ?q bs) s info verifier zeroContext = None"
    by (simp add: verifyConsensusEvidence_def verifyProposalCase_def evidence assms(7) fields Let_def
        evidence_type_defs)
  with new show ?thesis
    by (auto simp: evidence q)
qed
lemma double_sign_accepted:
  assumes "verifyConsensusEvidence env e s info (Some v) c = None" and "evd_Type e = EvidenceConflictingVote"
    and "val_PublicKey info' = val_PublicKey info"
  shows "verifyConsensusEvidence env (e\<lparr>evd_Type := EvidenceDoubleSign\<rparr>) s' info' (Some v) c' = None"
proof -
  have "verifyVoteCase env e info (Some v) = None"
    using assms(1,2) by (simp add: verifyConsensusEvidence_def Let_def)
  from verifyVoteCase_None [OF this] obtain x y where
    "env_decodeVotes env (evd_Proof e) = Inr \<lparr>cvp_First = x, cvp_Second = y\<rparr>"
    "vote_ValidatorID x = evd_Validator e" "vote_Height x = evd_Height e" "vote_Round x = evd_Round e"
    "vote_ValidatorID y = evd_Validator e" "vote_Height y = evd_Height e" "vote_Round y = evd_Round e"
    "vote_BlockHash x \<noteq> vote_BlockHash y"
    "signed_by (evr_Verify v) (val_PublicKey info) DomainConsensusVote (VoteSignBytes x) (vote_Signature x)"
    "signed_by (evr_Verify v) (val_PublicKey info) DomainConsensusVote (VoteSignBytes y) (vote_Signature y)"
    by auto
  then show ?thesis
    using assms(3) by (intro verifyVoteCase_accepts [of env _ x y]) simp_all
qed

text \<open>
  The same equivocation is charged twice.  Vote evidence that a new keeper accepts as a conflicting vote is
  accepted again as a double sign, with the same proof: the validator loses power from what the first penalty
  left it.
\<close>

theorem equivocation_charged_twice:
  assumes "NewInMemoryRegistry policy vs = Inr r0" and "ss_registry st = registry_run r0 ops"
    and "fresh (ss_keeper st) e'" and "kp_policy (ss_keeper st) = DefaultPenaltyPolicy"
    and "expiry_fits (ss_keeper st) e'"
    and "evd_Type e = EvidenceConflictingVote" and "e' = e\<lparr>evd_Type := EvidenceDoubleSign\<rparr>"
    and "keeper_PenaltyReceipt (ss_keeper st) e = None"
    and "SubmitEvidenceForSlashing slash env st None (Some v) H e = (st', Inr res)"
    and "H \<noteq> 0" and "Set_Get (snapshotAt (ss_registry st) H) (evd_Validator e) = Some now"
    and "sr_RemainingPower res \<noteq> 0"
    and "slash (sr_RemainingPower res) \<lparr>pen_SlashFraction = ''0.05'', pen_JailDuration = 1209600\<rparr> = Inr q"
  shows "\<exists>st'' res'. SubmitEvidenceForSlashing slash env st' None (Some v) H e' = (st'', Inr res')
    \<and> sr_PreviousPower res' = sr_RemainingPower res \<and> sr_RemainingPower res' = q"
proof -
  let ?i = "evd_Validator e" and ?r = "ss_registry st" and ?r' = "ss_registry st'"
  have inv: "registry_inv ?r"
    unfolding assms(2) by (rule history_inv [OF assms(1)])
  have H: "H = (if H = 0 then evd_Height e else H)" "H = (if H = 0 then evd_Height e' else H)"
    using assms(10) by simp_all
  note run = assms(9) [unfolded SubmitEvidenceForSlashing_def]
  obtain info k err k' receipt where s:
    "Set_Get (snapshotAt ?r (evd_Height e)) ?i = Some info"
    "verifyConsensusEvidence env e (snapshotAt ?r (evd_Height e)) info (Some v) zeroContext = None"
    "SubmitEvidence (ss_keeper st) None e = (k, err)" "err = None \<or> err = Some ErrDuplicateEvidence"
    "(case keeper_PenaltyReceipt (ss_keeper st) e of Some receipt \<Rightarrow> (k, Inr receipt)
      | None \<Rightarrow> ApplyPenaltyWithStake slash k None e (base_power ?r H info ?i)) = (k', Inr receipt)"
    by (rule submit_success [OF inv run, folded H(1)])
  have at: "reg_at ?r H ?i = Some now"
    using assms(11) by (simp add: Set_Get_snapshotAt [OF inv])
  have inv': "registry_inv ?r'" and reg': "reg_at ?r' = penalised ?r H ?i now (sr_RemainingPower res)"
    using submit_registry [OF inv run H(1)] at by simp_all
  have "ss_keeper st' = k'"
    using submit_receipt [OF inv s(1-4) H(1) s(5)] run by auto
  moreover have "evidenceKey e' \<noteq> evidenceKey e"
    using evidenceKey_inj [of e' e] by (auto simp: assms(6,7) evidence_type_defs)
  ultimately have keeper': "fresh (ss_keeper st') e'" "kp_policy (ss_keeper st') = DefaultPenaltyPolicy"
    "expiry_fits (ss_keeper st') e'"
    using charge_frame [OF s(3), of slash "base_power ?r H info ?i" k' "Inr receipt" e'] s(5) assms(3-5,8)
    by (auto simp: expiry_fits_def)
  have fields: "evd_Validator e' = ?i" "evd_Height e' = evd_Height e" "evd_Type e' = EvidenceDoubleSign"
    by (simp_all add: assms(7))
  obtain info' where info': "reg_at ?r' (evd_Height e) ?i = Some info'" "val_PublicKey info' = val_PublicKey info"
    using s(1) at governs_reg_at [of ?r H "evd_Height e"] assms(12)
    by (cases "governs ?r H (evd_Height e)") (simp_all add: reg' penalised_def Set_Get_snapshotAt [OF inv])
  have verified: "verifyConsensusEvidence env e' s' info' (Some v) zeroContext = None" for s'
    unfolding assms(7) by (rule double_sign_accepted [OF s(2) assms(6) info'(2)])
  have valid: "ValidateEvidence (ss_keeper st') None e' = None"
    using SubmitEvidence_ok [OF s(3,4)] keeper'(2)
    by (auto simp: ValidateEvidence_def assms(7) DefaultPenaltyPolicy_def evidence_type_defs split: if_splits)
  have base: "base_power ?r' H info' (evd_Validator e') = sr_RemainingPower res"
    using assms(12) by (simp add: base_power_def reg' penalised_def fields)
  have pen: "map_of (kp_policy (ss_keeper st')) (evd_Type e')
      = Some \<lparr>pen_SlashFraction = ''0.05'', pen_JailDuration = 1209600\<rparr>"
    by (simp add: keeper'(2) fields DefaultPenaltyPolicy_def)
  show ?thesis
    using submit_fresh [where slash = slash and st = st' and e = e', OF inv' _ verified keeper'(1) valid keeper'(3) pen H(2)]
      base assms(13) info'(1)
    by (simp add: SubmitEvidenceForSlashing_def fields Set_Get_snapshotAt [OF inv'])
qed
section \<open>An example\<close>

text \<open>A validator with power 100 that signed votes for the blocks 11 and 12 at height 3.\<close>

definition ex_accused :: Validator where
  "ex_accused = \<lparr>val_ID = ''a'', val_Address = ''a'', val_PublicKey = ''k'', val_VotingPower = 100, val_Stake = 100,
     val_Metadata = None\<rparr>"

definition ex_accused_registry :: InMemoryRegistry where
  "ex_accused_registry = \<lparr>reg_policy = None, reg_validators = [(''a'', ex_accused)], reg_effectiveHeight = 1,
     reg_versions = [\<lparr>ver_height = 1, ver_validators = [(''a'', ex_accused)],
                      ver_hash = hashValidators [ex_accused]\<rparr>], reg_events = []\<rparr>"

definition ex_ballot :: "hash \<Rightarrow> Vote" where
  "ex_ballot b = \<lparr>vote_Height = 3, vote_Round = 0, vote_BlockHash = b, vote_ValidatorID = ''a'', vote_Signature = ''s''\<rparr>"

definition ex_equivocation :: Evidence where
  "ex_equivocation = \<lparr>evd_Type = EvidenceConflictingVote, evd_Validator = ''a'', evd_Height = 3, evd_Round = 0,
     evd_Proof = ''proof''\<rparr>"

definition ex_proposal :: Proposal where
  "ex_proposal = \<lparr>prop_Block = \<lparr>blk_Header = \<lparr>hdr_ChainID = ''vexo'', hdr_Height = 3, hdr_TimeUnixNano = 1,
        hdr_PreviousBlockHash = 11, hdr_AppHash = 0, hdr_ValidatorSetHash = 0,
        hdr_ConsensusHash = (if Commitment [''x''] = 1 then 2 else 1), hdr_TxRoot = 7\<rparr>, blk_Txs = [''y'']\<rparr>,
     prop_Round = 0, prop_Proposer = ''a'', prop_JustifyQC = zeroQC, prop_Signature = ''s''\<rparr>"

definition ex_env :: EvidenceEnv where
  "ex_env = \<lparr>env_decodeVotes = \<lambda>_. Inr \<lparr>cvp_First = ex_ballot 11, cvp_Second = ex_ballot 12\<rparr>,
     env_decodeTimeouts = \<lambda>_. Inl ''syntax'', env_encodeInvalid = \<lambda>_. Inr ''proof'',
     env_decodeInvalid = \<lambda>_. Inr (da_proof (with_txs ex_proposal [''x''])),
     env_encodeUnavailable = \<lambda>_. Inl ''syntax'', env_decodeUnavailable = \<lambda>_. Inl ''syntax'',
     env_encodeQuery = \<lambda>_. Inl ''syntax'', env_decodeQuery = \<lambda>_. Inl ''syntax'',
     env_decodeConflict = \<lambda>_. None, env_verifiers = []\<rparr>"

definition ex_evidence_verifier :: EvidenceVerifier where
  "ex_evidence_verifier = \<lparr>evr_Verify = \<lambda>_ _ _. True, evr_VerifyAggregate = None\<rparr>"

definition ex_slash :: "VotingPower \<Rightarrow> Penalty \<Rightarrow> slashing_error + VotingPower" where
  "ex_slash p pen = Inr (p - 5)"

definition ex_slashing :: slashing_state where
  "ex_slashing = \<lparr>ss_keeper = NewInMemoryKeeper None, ss_registry = ex_accused_registry\<rparr>"

lemma ex_accused_new: "NewInMemoryRegistry None [ex_accused] = Inr ex_accused_registry"
  by (simp add: NewInMemoryRegistry_def recordVersion_def snapshot_def sortedValidatorMap_def sortedValidators_def
      index_by_ID_def toMap_def Set_List_def Set_Hash_def ex_accused_def ex_accused_registry_def Let_def)

lemma ex_accused_run: "ss_registry ex_slashing = registry_run ex_accused_registry []"
  by (simp add: ex_slashing_def registry_run_def)

lemmas ex_accused_inv = NewInMemoryRegistry_inv [OF ex_accused_new]

lemma ex_accused_at: "1 \<le> h \<Longrightarrow> Set_Get (snapshotAt ex_accused_registry h) = [''a'' \<mapsto> ex_accused]"
  unfolding Set_Get_snapshotAt [OF ex_accused_inv]
  by (auto simp: reg_at_def selectVersion_def ex_accused_registry_def)

lemma ex_signed: "signed_by (evr_Verify ex_evidence_verifier) pk DomainConsensusVote m ''s''"
  by (simp add: signed_by_def ex_evidence_verifier_def DomainMessage_def DomainConsensusVote_def)

lemma ex_verified:
  "verifyConsensusEvidence ex_env ex_equivocation s info (Some ex_evidence_verifier) c = None"
  by (rule verifyVoteCase_accepts [of _ _ "ex_ballot 11" "ex_ballot 12"])
     (simp_all add: ex_env_def ex_equivocation_def ex_ballot_def ex_signed)

lemma ex_keeper:
  "fresh (NewInMemoryKeeper None) e" "kp_policy (NewInMemoryKeeper None) = DefaultPenaltyPolicy"
  "ValidateEvidence (NewInMemoryKeeper None) None ex_equivocation = None"
  "evd_Height e = 3 \<Longrightarrow> expiry_fits (NewInMemoryKeeper None) e"
  by (simp_all add: fresh_def NewInMemoryKeeper_def NewInMemoryKeeperWithLifecycle_def ValidateEvidence_def
      expiry_fits_def normalizeLifecyclePolicy_def DefaultLifecyclePolicy_def ex_equivocation_def
      DefaultPenaltyPolicy_def evidence_type_defs)

lemma ex_charged:
  obtains st res where
    "SubmitEvidenceForSlashingWithContext ex_slash ex_env ex_slashing None (Some ex_evidence_verifier) 3
       ex_equivocation zeroContext = (st, Inr res)"
    "sr_PreviousPower res = 100" "sr_RemainingPower res = 95"
proof -
  have "Set_Get (snapshotAt ex_accused_registry 3) ''a'' = Some ex_accused"
    by (simp add: ex_accused_at)
  moreover have "base_power ex_accused_registry 3 ex_accused ''a'' = 100"
    using calculation by (simp add: base_power_def Set_Get_snapshotAt [OF ex_accused_inv] ex_accused_def)
  ultimately show ?thesis
    using that submit_fresh [of ex_slashing ex_equivocation ex_accused ex_env "Some ex_evidence_verifier" zeroContext
        "\<lparr>pen_SlashFraction = ''0.05'', pen_JailDuration = 1209600\<rparr>" 3 3 ex_slash 95]
      ex_keeper ex_verified ex_accused_inv
    by (fastforce simp: ex_slashing_def ex_equivocation_def ex_slash_def DefaultPenaltyPolicy_def
        evidence_type_defs)
qed

theorem penalty_reaches_registry_witness:
  "\<exists>st res. SubmitEvidenceForSlashingWithContext ex_slash ex_env ex_slashing None (Some ex_evidence_verifier) 3
       ex_equivocation zeroContext = (st, Inr res)
     \<and> Set_Get (snapshotAt (ss_registry st) 7) ''a'' = Some (ex_accused\<lparr>val_VotingPower := 95\<rparr>)
     \<and> Set_Get (snapshotAt (ss_registry st) 2) ''a'' = Some ex_accused"
proof -
  obtain st res where run: "SubmitEvidenceForSlashingWithContext ex_slash ex_env ex_slashing None
      (Some ex_evidence_verifier) 3 ex_equivocation zeroContext = (st, Inr res)" "sr_RemainingPower res = 95"
    by (rule ex_charged)
  have H: "3 = (if (3 :: Height) = 0 then evd_Height ex_equivocation else 3)"
    by simp
  have gov: "governs ex_accused_registry 3 7" "\<not> governs ex_accused_registry 3 2"
    by (auto simp: governs_def ex_accused_registry_def)
  have at: "Set_Get (snapshotAt ex_accused_registry 3) = [''a'' \<mapsto> ex_accused]"
    "reg_at ex_accused_registry 3 = [''a'' \<mapsto> ex_accused]" "reg_at ex_accused_registry 2 = [''a'' \<mapsto> ex_accused]"
    using ex_accused_at [of 3] ex_accused_at [of 2] by (simp_all add: Set_Get_snapshotAt [OF ex_accused_inv])
  show ?thesis
    using penalty_reaches_registry [OF ex_accused_new ex_accused_run run(1) H, of 7]
      penalty_reaches_registry [OF ex_accused_new ex_accused_run run(1) H, of 2] run gov at
    by (simp add: ex_slashing_def ex_equivocation_def penalised_def)
qed

theorem equivocation_charged_twice_witness:
  "\<exists>st res st' res'.
     SubmitEvidenceForSlashing ex_slash ex_env ex_slashing None (Some ex_evidence_verifier) 3 ex_equivocation
       = (st, Inr res)
     \<and> SubmitEvidenceForSlashing ex_slash ex_env st None (Some ex_evidence_verifier) 3
         (ex_equivocation\<lparr>evd_Type := EvidenceDoubleSign\<rparr>) = (st', Inr res')
     \<and> sr_PreviousPower res = 100 \<and> sr_RemainingPower res' = 90"
proof -
  obtain st res where "SubmitEvidenceForSlashingWithContext ex_slash ex_env ex_slashing None
      (Some ex_evidence_verifier) 3 ex_equivocation zeroContext = (st, Inr res)"
    and res: "sr_PreviousPower res = 100" "sr_RemainingPower res = 95"
    by (rule ex_charged)
  then have run: "SubmitEvidenceForSlashing ex_slash ex_env ex_slashing None (Some ex_evidence_verifier) 3
      ex_equivocation = (st, Inr res)"
    by (simp add: SubmitEvidenceForSlashing_def)
  have "keeper_PenaltyReceipt (ss_keeper ex_slashing) ex_equivocation = None"
    by (simp add: ex_slashing_def keeper_PenaltyReceipt_def NewInMemoryKeeper_def NewInMemoryKeeperWithLifecycle_def)
  with equivocation_charged_twice [OF ex_accused_new ex_accused_run _ _ _ _ refl _ run, of ex_accused 90] ex_keeper res
    ex_accused_at [of 3] run
  show ?thesis
    by (fastforce simp: ex_slashing_def ex_equivocation_def ex_slash_def)
qed

theorem honest_proposer_framed_witness:
  "\<exists>e. NewDataAvailabilityInvalidProposalEvidence ex_env (with_txs ex_proposal [''x''])
        InvalidProposalReasonDAMismatch = Inr e \<and> evd_Validator e = ''a''
     \<and> verifyConsensusEvidence ex_env e (snapshotAt ex_accused_registry 3) ex_accused (Some ex_evidence_verifier)
         zeroContext = None"
proof -
  have "verifyProposalEvidenceSignature ex_proposal ex_accused (Some ex_evidence_verifier) = None"
    by (simp add: verifyProposalEvidenceSignature_def verifyDomainSignature_def ex_evidence_verifier_def
        ex_proposal_def DomainMessage_def DomainConsensusProposal_def)
  from honest_proposer_framed [OF this, of "[''x'']" ex_env "''proof''"] ex_leaf_nonzero show ?thesis
    by (simp add: missing_proposer_def ex_Commitment registry_ok_def) (simp add: ex_proposal_def ex_env_def ex_Commitment)
qed
text \<open>A validator that signed one vote only.\<close>

definition ex_sent :: "bytes set" where
  "ex_sent = {x. DomainMessage DomainConsensusVote (signbytes_Vote 3 0 11) = Inr x}"

definition ex_strict_verifier :: EvidenceVerifier where
  "ex_strict_verifier = \<lparr>evr_Verify = \<lambda>_ x _. x \<in> ex_sent, evr_VerifyAggregate = None\<rparr>"

theorem honest_voter_not_slashed_witness:
  "evr_Verify ex_strict_verifier ''k''
      (projr (DomainMessage DomainConsensusVote (signbytes_Vote 3 0 11))) ''s''
   \<and> (\<nexists>res. snd (SubmitEvidenceForSlashingWithContext ex_slash ex_env ex_slashing None (Some ex_strict_verifier) 3
          ex_equivocation zeroContext) = Inr res)"
proof
  show "evr_Verify ex_strict_verifier ''k'' (projr (DomainMessage DomainConsensusVote (signbytes_Vote 3 0 11))) ''s''"
    by (simp add: ex_strict_verifier_def ex_sent_def DomainMessage_def DomainConsensusVote_def)
  have one: "b = b'" if "DomainMessage DomainConsensusVote (signbytes_Vote h r b) = Inr x"
    "DomainMessage DomainConsensusVote (signbytes_Vote h r b') = Inr y" "x \<in> ex_sent" "y \<in> ex_sent" for h r b b' x y
  proof -
    have "DomainMessage DomainConsensusVote (signbytes_Vote h r b) = DomainMessage DomainConsensusVote (signbytes_Vote h r b')"
      using that by (simp add: ex_sent_def)
    from DomainMessage_separates [OF _ _ this] show ?thesis
      by (simp add: consensus_domains_def signbytes_Vote_inj)
  qed
  have key: "Set_Get (snapshotAt (ss_registry ex_slashing) (evd_Height ex_equivocation)) (evd_Validator ex_equivocation)
      = Some ex_accused"
    using ex_accused_at [of 3] by (simp add: ex_slashing_def ex_equivocation_def)
  have "evd_Type ex_equivocation = EvidenceConflictingVote \<or> evd_Type ex_equivocation = EvidenceDoubleSign"
    by (simp add: ex_equivocation_def)
  from honest_voter_not_slashed [OF ex_accused_new ex_accused_run this key, of ex_strict_verifier ex_sent] one
  show "\<nexists>res. snd (SubmitEvidenceForSlashingWithContext ex_slash ex_env ex_slashing None (Some ex_strict_verifier) 3
          ex_equivocation zeroContext) = Inr res"
    by (simp add: ex_strict_verifier_def)
qed

text \<open>The first charge left 95; a later one left 90 from height 5 on.\<close>

definition ex_receipt :: PenaltyReceipt where
  "ex_receipt = \<lparr>rcp_Evidence = ex_equivocation,
     rcp_Penalty = \<lparr>pen_SlashFraction = ''0.05'', pen_JailDuration = 1209600\<rparr>,
     rcp_PreviousPower = 100, rcp_RemainingPower = 95\<rparr>"

definition ex_charged_state :: slashing_state where
  "ex_charged_state = \<lparr>ss_keeper = (NewInMemoryKeeper None)\<lparr>kp_penalties := [(evidenceKey ex_equivocation, ex_receipt)]\<rparr>,
     ss_registry = registry_run ex_accused_registry [OpPower None 5 ''a'' 90]\<rparr>"

theorem replayed_evidence_resets_power_witness:
  "Set_Get (snapshotAt (ss_registry ex_charged_state) 6) ''a'' = Some (ex_accused\<lparr>val_VotingPower := 90\<rparr>)
   \<and> (\<exists>st res. SubmitEvidenceForSlashingWithContext ex_slash ex_env ex_charged_state None
          (Some ex_evidence_verifier) 6 ex_equivocation zeroContext = (st, Inr res)
        \<and> Set_Get (snapshotAt (ss_registry st) 6) ''a'' = Some (ex_accused\<lparr>val_VotingPower := 95\<rparr>))"
proof -
  let ?op = "OpPower None 5 ''a'' 90" and ?r = "ex_accused_registry"
  obtain r ok where r: "registry_exec ?r ?op = (r, ok)"
    by fastforce
  have at: "reg_at ?r h = [''a'' \<mapsto> ex_accused]" if "1 \<le> h" for h
    using ex_accused_at [OF that] by (simp add: Set_Get_snapshotAt [OF ex_accused_inv])
  have "snd (UpdateVotingPowerAt ?r None 5 ''a'' 90) = None"
    by (rule UpdateVotingPowerAt_total [OF ex_accused_inv]) (simp_all add: at)
  then have ok
    using r by (auto split: prod.splits)
  note step = registry_exec_refines [OF ex_accused_inv r]
  have gov: "governs ?r 5 6" "\<not> governs ?r 5 3"
    by (auto simp: governs_def ex_accused_registry_def)
  have reg: "reg_at r 6 = [''a'' \<mapsto> ex_accused\<lparr>val_VotingPower := 90\<rparr>]" "reg_at r 3 = [''a'' \<mapsto> ex_accused]"
    using step \<open>ok\<close> gov at [of 5] at [of 3] by (simp_all add: changes_set_def effective_def)
  have run: "ss_registry ex_charged_state = registry_run ex_accused_registry [?op]" "ss_registry ex_charged_state = r"
    using r by (simp_all add: ex_charged_state_def registry_run_def)
  have keeper: "keeper_PenaltyReceipt (ss_keeper ex_charged_state) ex_equivocation = Some ex_receipt"
    "ValidateEvidence (ss_keeper ex_charged_state) None ex_equivocation = None"
    using ex_keeper(3) by (simp_all add: ex_charged_state_def keeper_PenaltyReceipt_def ValidateEvidence_def
        split: if_splits)
  have sets: "Set_Get (snapshotAt (ss_registry ex_charged_state) 6) ''a'' = Some (ex_accused\<lparr>val_VotingPower := 90\<rparr>)"
    "Set_Get (snapshotAt (ss_registry ex_charged_state) 3) ''a'' = Some ex_accused"
    using step reg by (simp_all add: run(2) Set_Get_snapshotAt)
  have e: "evd_Height ex_equivocation = 3" "evd_Validator ex_equivocation = ''a''"
    by (simp_all add: ex_equivocation_def)
  from replayed_evidence_resets_power [OF ex_accused_new run(1) keeper(1) _ keeper(2), of ex_accused ex_env
      "Some ex_evidence_verifier" zeroContext 6 6 _ ex_slash] sets
  show ?thesis
    by (simp add: e ex_verified) (simp add: ex_receipt_def)
qed

end
