(* ===== verification/MachineInvariant.thy ===== *)
theory MachineInvariant
  imports StateMachine
begin

text \<open>
  The invariant of the consensus state machine: committed heights and the commit index, votes and
  certificates, authenticity of votes and evidence, the block tree and the locks.  Every handler keeps
  it, and no step undoes a commit, a lock, a high certificate or filed evidence.
\<close>

section \<open>Commits\<close>

definition commit_pairs :: "CommitDecision list \<Rightarrow> (Height \<times> hash) list" where
  "commit_pairs ds = map (\<lambda>d. (cd_CommittedHeight d, cd_CommittedBlockHash d)) ds"

text \<open>A decision carries the certificate of the block it commits.\<close>

definition decision_ok :: "CommitDecision \<Rightarrow> bool" where
  "decision_ok d \<longleftrightarrow> cd_CommittedHeight d \<noteq> 0 \<and> cd_CommittedBlockHash d \<noteq> zero_hash
     \<and> qc_Height (cd_CommitQC d) = cd_CommittedHeight d
     \<and> qc_BlockHash (cd_CommitQC d) = cd_CommittedBlockHash d"

definition commits_inv :: "StateMachine \<Rightarrow> bool" where
  "commits_inv m \<longleftrightarrow>
     sorted_wrt (<) (map cd_CommittedHeight (sm_committed m))
     \<and> map_of (ci_byHeight (sm_commitIndex m)) = map_of (commit_pairs (sm_committed m))
     \<and> sm_committedSet m = cd_CommittedBlockHash ` set (sm_committed m)
     \<and> list_all decision_ok (sm_committed m)
     \<and> st_LastFinalized (sm_status m) =
         (if sm_committed m = [] then zero_hash else cd_CommittedBlockHash (last (sm_committed m)))"

text \<open>What the commit rule may change of a machine.\<close>

definition commit_frame :: "StateMachine \<Rightarrow> StateMachine \<Rightarrow> bool" where
  "commit_frame m m' \<longleftrightarrow>
     (\<exists>index committed hashes finalized.
        m' = m\<lparr>sm_commitIndex := index, sm_committed := committed, sm_committedSet := hashes,
               sm_status := (sm_status m)\<lparr>st_LastFinalized := finalized\<rparr>\<rparr>)
     \<and> set (sm_committed m) \<subseteq> set (sm_committed m')"

lemma commit_frame_refl [simp]: "commit_frame m m"
  unfolding commit_frame_def
  by (intro conjI exI [of _ "sm_commitIndex m"] exI [of _ "sm_committed m"]
        exI [of _ "sm_committedSet m"] exI [of _ "st_LastFinalized (sm_status m)"]) simp_all

lemma commit_frame_trans: "commit_frame a b \<Longrightarrow> commit_frame b c \<Longrightarrow> commit_frame a c"
  by (auto simp: commit_frame_def) blast

lemma commit_frame_simps:
  assumes "commit_frame m m'"
  shows "sm_votes m' = sm_votes m" and "sm_votedVotes m' = sm_votedVotes m"
    and "sm_blockTree m' = sm_blockTree m" and "sm_lockedQC m' = sm_lockedQC m"
    and "sm_timeouts m' = sm_timeouts m" and "sm_evidence m' = sm_evidence m"
    and "sm_validatorSet m' = sm_validatorSet m" and "sm_aggregator m' = sm_aggregator m"
    and "sm_hashBlock m' = sm_hashBlock m" and "sm_signatures m' = sm_signatures m"
    and "sm_pacemaker m' = sm_pacemaker m" and "sm_chainID m' = sm_chainID m"
    and "sm_enforceProposerSelection m' = sm_enforceProposerSelection m"
    and "st_Height (sm_status m') = st_Height (sm_status m)"
    and "st_Round (sm_status m') = st_Round (sm_status m)"
    and "st_Phase (sm_status m') = st_Phase (sm_status m)"
    and "set (sm_committed m) \<subseteq> set (sm_committed m')"
  using assms by (auto simp: commit_frame_def)

lemma applyCommitRule_frame: "commit_frame m (fst (applyCommitRule m c))"
proof -
  have new: "commit_frame m
    (m\<lparr>sm_commitIndex := i, sm_committed := sort_key cd_CommittedHeight (sm_committed m @ [d]),
       sm_committedSet := s, sm_status := (sm_status m)\<lparr>st_LastFinalized := l\<rparr>\<rparr>)" for i d s l
    by (auto simp: commit_frame_def)
  have idx: "commit_frame m (m\<lparr>sm_commitIndex := i\<rparr>)" for i
    unfolding commit_frame_def
    by (intro conjI exI [of _ i] exI [of _ "sm_committed m"]
          exI [of _ "sm_committedSet m"] exI [of _ "st_LastFinalized (sm_status m)"]) simp_all
  show ?thesis
    using new idx
    by (auto simp: applyCommitRule_def Let_def split: sum.splits prod.splits option.splits)
qed

lemma applyCommitRules_frame: "commit_frame m (fst (applyCommitRules m hs))"
proof (induction m hs rule: applyCommitRules.induct)
  case (2 m h rest)
  show ?case
  proof (cases "CommitCandidate_of (sm_blockTree m) h")
    case None
    with 2 show ?thesis
      by simp
  next
    case (Some c)
    obtain m1 r where a: "applyCommitRule m c = (m1, r)"
      by fastforce
    have f: "commit_frame m m1"
      using applyCommitRule_frame [of m c] a by simp
    show ?thesis
    proof (cases r)
      case (Inl e)
      with 2(2) [OF Some a [symmetric]] Some a f show ?thesis
        by (auto intro: commit_frame_trans)
    next
      case (Inr d)
      with 2(3) [OF Some a [symmetric]] Some a f show ?thesis
        by (auto intro: commit_frame_trans)
    qed
  qed
qed simp

lemma map_of_commit_pairs_None:
  "map_of (commit_pairs ds) h = None \<longleftrightarrow> h \<notin> cd_CommittedHeight ` set ds"
  by (force simp: commit_pairs_def map_of_eq_None_iff)

lemma map_of_commit_pairs_perm:
  assumes "mset ds = mset ds'" and "distinct (map cd_CommittedHeight ds)"
  shows "map_of (commit_pairs ds) = map_of (commit_pairs ds')"
proof -
  have d: "distinct (map cd_CommittedHeight ds')"
    using assms by (metis mset_map mset_eq_imp_distinct_iff)
  have "distinct (map fst (commit_pairs ds))" and "distinct (map fst (commit_pairs ds'))"
    using assms(2) d by (simp_all add: commit_pairs_def comp_def)
  moreover have "set (commit_pairs ds) = set (commit_pairs ds')"
    using mset_eq_setD [OF assms(1)] by (simp add: commit_pairs_def)
  ultimately show ?thesis
    by (simp add: map_of_inject_set)
qed

lemma applyCommitRule_inv:
  assumes inv: "commits_inv m"
  shows "commits_inv (fst (applyCommitRule m c))"
proof (cases "Decide c")
  case (Inl e)
  with inv show ?thesis
    by (simp add: applyCommitRule_def)
next
  case (Inr d)
  show ?thesis
  proof (cases "cd_CommittedBlockHash d \<in> sm_committedSet m")
    case True
    with inv Inr show ?thesis
      by (simp add: applyCommitRule_def)
  next
    case fresh: False
    obtain i r where rec: "Record (sm_commitIndex m) (cd_CommittedHeight d) (cd_CommittedBlockHash d) = (i, r)"
      by fastforce
    show ?thesis
    proof (cases r)
      case (Some e)
      with Record_error rec have "i = sm_commitIndex m"
        by blast
      with inv Inr fresh rec Some show ?thesis
        by (simp add: applyCommitRule_def commits_inv_def)
    next
      case None
      let ?cs = "sm_committed m" and ?new = "sort_key cd_CommittedHeight (sm_committed m @ [d])"
      have i: "map_of (ci_byHeight i) = (map_of (commit_pairs ?cs))(cd_CommittedHeight d \<mapsto> cd_CommittedBlockHash d)"
        and free: "map_of (commit_pairs ?cs) (cd_CommittedHeight d) \<in> {None, Some (cd_CommittedBlockHash d)}"
        using Record_ok [OF rec [unfolded None]] inv by (auto simp: commits_inv_def)
      have "map_of (commit_pairs ?cs) (cd_CommittedHeight d) \<noteq> Some (cd_CommittedBlockHash d)"
        using fresh inv by (auto simp: commits_inv_def commit_pairs_def dest!: map_of_SomeD)
      with free have h: "cd_CommittedHeight d \<notin> cd_CommittedHeight ` set ?cs"
        using map_of_commit_pairs_None by force
      have sorted: "sorted_wrt (<) (map cd_CommittedHeight ?cs)"
        using inv by (simp add: commits_inv_def)
      then have dist: "distinct (map cd_CommittedHeight (?cs @ [d]))"
        using h strict_sorted_iff by auto
      then have distn: "distinct (map cd_CommittedHeight ?new)"
        by (metis mset_map mset_eq_imp_distinct_iff mset_sort)
      have "map_of (commit_pairs ?new) = map_of (commit_pairs (d # ?cs))"
        using distn by (intro map_of_commit_pairs_perm) auto
      moreover have "sorted_wrt (<) (map cd_CommittedHeight ?new)"
        using distn by (simp add: strict_sorted_iff)
      moreover have "decision_ok d"
        using Inr by (auto simp: Decide_iff decision_ok_def)
      ultimately show ?thesis
        using inv Inr fresh rec None i
        by (auto simp: applyCommitRule_def commits_inv_def Let_def commit_pairs_def list_all_iff
              simp flip: set_empty)
    qed
  qed
qed

lemma applyCommitRules_inv: "commits_inv m \<Longrightarrow> commits_inv (fst (applyCommitRules m hs))"
proof (induction m hs rule: applyCommitRules.induct)
  case (2 m h rest)
  show ?case
  proof (cases "CommitCandidate_of (sm_blockTree m) h")
    case None
    with 2 show ?thesis
      by simp
  next
    case (Some c)
    obtain m1 r where a: "applyCommitRule m c = (m1, r)"
      by fastforce
    then have i: "commits_inv m1"
      using applyCommitRule_inv [OF "2.prems", of c] by simp
    show ?thesis
    proof (cases r)
      case (Inl e)
      with "2.IH"(2) [OF Some a [symmetric]] Some a i show ?thesis
        by auto
    next
      case (Inr d)
      with "2.IH"(3) [OF Some a [symmetric]] Some a i show ?thesis
        by auto
    qed
  qed
qed simp

section \<open>Votes\<close>

definition votes_inv :: "StateMachine \<Rightarrow> bool" where
  "votes_inv m \<longleftrightarrow>
     (\<forall>h r b. distinct (map fst (sm_votes m h r b)))
     \<and> (\<forall>h r b i v. (i, v) \<in> set (sm_votes m h r b) \<longrightarrow> vote_BlockHash v = b \<and> sm_votedVotes m h r i = Some v)
     \<and> (\<forall>h r i v. sm_votedVotes m h r i = Some v \<longrightarrow>
          vote_Height v = h \<and> vote_Round v = r \<and> vote_ValidatorID v = i
          \<and> (i, v) \<in> set (sm_votes m h r (vote_BlockHash v)))"

lemma votes_inv_distinct: "votes_inv m \<Longrightarrow> distinct (map fst (sm_votes m h r b))"
  by (simp add: votes_inv_def)

lemma votes_inv_stored:
  "votes_inv m \<Longrightarrow> (i, v) \<in> set (sm_votes m h r b) \<Longrightarrow> vote_BlockHash v = b \<and> sm_votedVotes m h r i = Some v"
  unfolding votes_inv_def by blast

lemma votes_inv_voted:
  "votes_inv m \<Longrightarrow> sm_votedVotes m h r i = Some v \<Longrightarrow>
     vote_Height v = h \<and> vote_Round v = r \<and> vote_ValidatorID v = i
     \<and> (i, v) \<in> set (sm_votes m h r (vote_BlockHash v))"
  unfolding votes_inv_def by blast

lemma votes_inv_cong:
  "sm_votes m' = sm_votes m \<Longrightarrow> sm_votedVotes m' = sm_votedVotes m \<Longrightarrow> votes_inv m' = votes_inv m"
  by (simp add: votes_inv_def)

definition storeVote :: "StateMachine \<Rightarrow> Vote \<Rightarrow> StateMachine" where
  "storeVote m v =
     (let h = vote_Height v; r = vote_Round v; b = vote_BlockHash v; i = vote_ValidatorID v in
      m\<lparr>sm_votedVotes := (sm_votedVotes m)(h := (sm_votedVotes m h)(r := (sm_votedVotes m h r)(i \<mapsto> v))),
        sm_votes := (sm_votes m)(h := (sm_votes m h)(r := (sm_votes m h r)(b :=
          AList.update i v (sm_votes m h r b))))\<rparr>)"

text \<open>The two outcomes of recording a vote.\<close>

definition conflicts :: "StateMachine \<Rightarrow> Vote \<Rightarrow> Vote \<Rightarrow> bool" where
  "conflicts m previous v \<longleftrightarrow>
     sm_votedVotes m (vote_Height v) (vote_Round v) (vote_ValidatorID v) = Some previous
     \<and> vote_BlockHash previous \<noteq> vote_BlockHash v"

lemma recordVote_cases:
  obtains (stored) "recordVote ext m v = (storeVote m v, None)" "\<And>p. \<not> conflicts m p v"
  | (conflict) p where "conflicts m p v" "snd (recordVote ext m v) = Some ErrConflictingVote"
      "fst (recordVote ext m v) = (case NewConflictingVoteEvidence ext p v of
         Inl _ \<Rightarrow> m | Inr e \<Rightarrow> m\<lparr>sm_evidence := sm_evidence m @ [e]\<rparr>)"
proof (cases "sm_votedVotes m (vote_Height v) (vote_Round v) (vote_ValidatorID v)")
  case None
  then show thesis
    by (intro stored) (simp_all add: recordVote_def storeVote_def conflicts_def Let_def)
next
  case (Some p)
  show thesis
  proof (cases "vote_BlockHash p = vote_BlockHash v")
    case True
    with Some show thesis
      by (intro stored) (auto simp: recordVote_def storeVote_def conflicts_def Let_def)
  next
    case False
    with Some show thesis
      by (intro conflict [of p])
         (auto simp: recordVote_def conflicts_def Let_def split: sum.splits)
  qed
qed

text \<open>A conflicting vote becomes evidence and changes nothing else.\<close>

lemma OnVote_conflict:
  assumes "Set_Get (sm_validatorSet m) (vote_ValidatorID v) \<noteq> None" and "v' = ensureVoteSignature m v"
    and "validateVote m v' = None" and "conflicts m p v'" and "NewConflictingVoteEvidence ext p v' = Inr e"
  shows "OnVote ext m None v = (m\<lparr>sm_evidence := sm_evidence m @ [e]\<rparr>, Some ErrConflictingVote)"
  using assms by (simp add: OnVote_def Let_def recordVote_def conflicts_def)

lemma storeVote_votes:
  "sm_votes (storeVote m v) h r b =
     (if h = vote_Height v \<and> r = vote_Round v \<and> b = vote_BlockHash v
      then AList.update (vote_ValidatorID v) v (sm_votes m h r b) else sm_votes m h r b)"
  by (simp add: storeVote_def Let_def)

lemma storeVote_voted:
  "sm_votedVotes (storeVote m v) h r i =
     (if h = vote_Height v \<and> r = vote_Round v \<and> i = vote_ValidatorID v
      then Some v else sm_votedVotes m h r i)"
  by (simp add: storeVote_def Let_def)

lemma storeVote_frame:
  "\<exists>votes voted. storeVote m v = m\<lparr>sm_votedVotes := voted, sm_votes := votes\<rparr>"
  unfolding storeVote_def Let_def by blast

lemma in_set_update:
  "distinct (map fst xs) \<Longrightarrow> (k, a) \<in> set (AList.update i b xs) \<longleftrightarrow>
     (if k = i then a = b else (k, a) \<in> set xs)"
proof -
  assume "distinct (map fst xs)"
  then have "distinct (map fst (AList.update i b xs))"
    by (rule distinct_update)
  then have "(k, a) \<in> set (AList.update i b xs) \<longleftrightarrow> map_of (AList.update i b xs) k = Some a"
    by (simp add: map_of_eq_Some_iff)
  then show ?thesis
    using \<open>distinct (map fst xs)\<close> by (auto simp: update_conv' map_of_eq_Some_iff)
qed

lemma storeVote_inv:
  assumes inv: "votes_inv m" and ok: "\<And>p. \<not> conflicts m p v"
  shows "votes_inv (storeVote m v)"
  unfolding votes_inv_def
proof (intro conjI allI impI)
  fix h r b
  show "distinct (map fst (sm_votes (storeVote m v) h r b))"
    using votes_inv_distinct [OF inv] by (simp add: storeVote_votes distinct_update)
next
  fix h r b i w
  assume a: "(i, w) \<in> set (sm_votes (storeVote m v) h r b)"
  show "vote_BlockHash w = b"
    using a votes_inv_stored [OF inv] votes_inv_distinct [OF inv]
    by (auto simp: storeVote_votes in_set_update split: if_splits)
  have "b = vote_BlockHash v" if "h = vote_Height v" "r = vote_Round v" "i = vote_ValidatorID v"
    using that a votes_inv_stored [OF inv, of i w h r b] ok [unfolded conflicts_def]
    by (auto simp: storeVote_votes split: if_splits)
  then show "sm_votedVotes (storeVote m v) h r i = Some w"
    using a votes_inv_stored [OF inv, of i w h r b] votes_inv_distinct [OF inv]
    by (auto simp: storeVote_votes storeVote_voted in_set_update split: if_splits)
next
  fix h r i w
  assume a: "sm_votedVotes (storeVote m v) h r i = Some w"
  show "vote_Height w = h" "vote_Round w = r" "vote_ValidatorID w = i"
    using a votes_inv_voted [OF inv, of h r i w] by (auto simp: storeVote_voted split: if_splits)
  show "(i, w) \<in> set (sm_votes (storeVote m v) h r (vote_BlockHash w))"
    using a votes_inv_voted [OF inv, of h r i w] votes_inv_distinct [OF inv]
    by (auto simp: storeVote_votes storeVote_voted in_set_update split: if_splits)
qed

section \<open>Quorum certificates\<close>

definition is_quorum :: "setSnapshot \<Rightarrow> ValidatorID list \<Rightarrow> bool" where
  "is_quorum s ids \<longleftrightarrow> distinct ids \<and> Set_TotalVotingPower s \<noteq> 0
     \<and> 2 * unat (Set_TotalVotingPower s) \<le> 3 * signers_power (Set_Get s) ids"

definition voters :: "StateMachine \<Rightarrow> Height \<Rightarrow> Round \<Rightarrow> hash \<Rightarrow> ValidatorID set" where
  "voters m h r b = {i. \<exists>v. sm_votedVotes m h r i = Some v \<and> vote_BlockHash v = b
                          \<and> Set_Get (sm_validatorSet m) i \<noteq> None}"

lemma voters_disjoint: "b \<noteq> b' \<Longrightarrow> voters m h r b \<inter> voters m h r b' = {}"
  by (auto simp: voters_def)

lemma quorums_meet:
  assumes "snapshot_wf s" and "is_quorum s xs" and "is_quorum s ys"
  shows "set xs \<inter> set ys \<noteq> {}"
proof
  assume "set xs \<inter> set ys = {}"
  then have "filter (\<lambda>i. i \<in> set ys) xs = []"
    by (auto simp: filter_empty_conv)
  moreover have "unat (Set_TotalVotingPower s) \<le> 3 * signers_power (Set_Get s) (filter (\<lambda>i. i \<in> set ys) xs)"
    using assms by (intro snap.quorum_overlap) (simp_all add: is_quorum_def)
  ultimately have "unat (Set_TotalVotingPower s) = 0"
    by simp
  with assms(2) show False
    by (simp add: is_quorum_def word_unat_eq_iff)
qed

lemma stored_voters:
  assumes "votes_inv m"
  shows "{i \<in> fst ` set (sm_votes m h r b). Set_Get (sm_validatorSet m) i \<noteq> None} = voters m h r b"
proof (intro set_eqI iffI)
  fix i
  assume i: "i \<in> {i \<in> fst ` set (sm_votes m h r b). Set_Get (sm_validatorSet m) i \<noteq> None}"
  then obtain v where "(i, v) \<in> set (sm_votes m h r b)"
    by auto
  from votes_inv_stored [OF assms this] i show "i \<in> voters m h r b"
    unfolding voters_def by blast
next
  fix i
  assume "i \<in> voters m h r b"
  then obtain v where v: "sm_votedVotes m h r i = Some v" "vote_BlockHash v = b"
    "Set_Get (sm_validatorSet m) i \<noteq> None"
    unfolding voters_def by blast
  from votes_inv_voted [OF assms v(1)] v(2) have "(i, v) \<in> set (sm_votes m h r b)"
    by blast
  then have "i \<in> fst ` set (sm_votes m h r b)"
    by (rule image_eqI [rotated]) simp
  with v(3) show "i \<in> {i \<in> fst ` set (sm_votes m h r b). Set_Get (sm_validatorSet m) i \<noteq> None}"
    by simp
qed

text \<open>A certificate names the known validators that voted for the block, and they are a quorum.\<close>

lemma buildQuorumCert_sound:
  assumes inv: "votes_inv m" and run: "buildQuorumCert m h r b = Inr qc"
  shows "qc_Height qc = h \<and> qc_Round qc = r \<and> qc_BlockHash qc = b
    \<and> (\<exists>ids. qc_Signers qc = EncodeSigners ids \<and> sorted ids \<and> set ids = voters m h r b
         \<and> is_quorum (sm_validatorSet m) ids
         \<and> unat (qc_VotingPower qc) = signers_power (Set_Get (sm_validatorSet m)) ids)"
proof -
  from run obtain p acc signers signature where
    t: "tallyVotes (sm_validatorSet m) vote_Signature (\<lambda>_ u. u) (sm_votes m h r b) 0 () [] = Inr (p, (), acc)"
    and c: "certify (sm_validatorSet m) (sm_aggregator m) p acc = Inr (signers, signature)"
    and qc: "qc = \<lparr>qc_Height = h, qc_Round = r, qc_BlockHash = b, qc_Signers = signers,
                   qc_Signature = signature, qc_VotingPower = p\<rparr>"
    by (auto simp: buildQuorumCert_def votesForBlock_def Let_def split: if_splits sum.splits)
  from tally_certified [OF votes_inv_distinct [OF inv] t c] obtain ids where
    "signers = EncodeSigners ids" "sorted ids" "is_quorum (sm_validatorSet m) ids"
    "set ids = voters m h r b" "unat p = signers_power (Set_Get (sm_validatorSet m)) ids"
    unfolding stored_voters [OF inv] is_quorum_def by metis
  then show ?thesis
    unfolding qc by (simp only: QuorumCert.select_convs simp_thms) blast
qed

text \<open>One certificate per height and round, whatever the votes.\<close>

lemma buildQuorumCert_unique:
  assumes inv: "votes_inv m" and wf: "snapshot_wf (sm_validatorSet m)"
    and one: "buildQuorumCert m h r b = Inr qc" and two: "buildQuorumCert m h r b' = Inr qc'"
  shows "b = b'"
proof (rule ccontr)
  assume ne: "b \<noteq> b'"
  obtain xs where xs: "set xs = voters m h r b" "is_quorum (sm_validatorSet m) xs"
    using buildQuorumCert_sound [OF inv one] by blast
  obtain ys where ys: "set ys = voters m h r b'" "is_quorum (sm_validatorSet m) ys"
    using buildQuorumCert_sound [OF inv two] by blast
  have "set xs \<inter> set ys = {}"
    unfolding xs(1) ys(1) by (rule voters_disjoint [OF ne])
  with quorums_meet [OF wf xs(2) ys(2)] show False
    by blast
qed

section \<open>Authenticity of what the machine keeps\<close>

text \<open>
  \<open>K i pk\<close> says that \<open>pk\<close> has been the key of validator \<open>i\<close>.  A signed message is authentic when it
  verifies under such a key; without a signature verifier the machine checks nothing.
\<close>

type_synonym key_history = "ValidatorID \<Rightarrow> PublicKey \<Rightarrow> bool"

definition authentic ::
    "key_history \<Rightarrow> signature_verifier option \<Rightarrow> string \<Rightarrow> ValidatorID \<Rightarrow> bytes \<Rightarrow> Signature \<Rightarrow> bool" where
  "authentic K signatures domain i signBytes signature \<longleftrightarrow>
     (case signatures of
        None \<Rightarrow> True
      | Some verify \<Rightarrow>
          \<exists>pk message. K i pk \<and> DomainMessage domain signBytes = Inr message \<and> verify pk message signature)"

definition vote_ok :: "key_history \<Rightarrow> signature_verifier option \<Rightarrow> Vote \<Rightarrow> bool" where
  "vote_ok K signatures v \<longleftrightarrow> vote_Signature v \<noteq> []
     \<and> authentic K signatures DomainConsensusVote (vote_ValidatorID v) (VoteSignBytes v) (vote_Signature v)"

definition timeout_ok :: "key_history \<Rightarrow> signature_verifier option \<Rightarrow> TimeoutVote \<Rightarrow> bool" where
  "timeout_ok K signatures v \<longleftrightarrow>
     authentic K signatures DomainConsensusTimeoutVote (tv_ValidatorID v) (TimeoutVoteSignBytes v) (tv_Signature v)"

definition evidence_ok :: "key_history \<Rightarrow> signature_verifier option \<Rightarrow> Evidence \<Rightarrow> bool" where
  "evidence_ok K signatures e \<longleftrightarrow>
     (\<exists>ext v1 v2. NewConflictingVoteEvidence ext v1 v2 = Inr e
        \<and> vote_ok K signatures v1 \<and> vote_ok K signatures v2)
     \<or> (\<exists>ext v1 v2. NewConflictingTimeoutVoteEvidence ext v1 v2 = Inr e
        \<and> timeout_ok K signatures v1 \<and> timeout_ok K signatures v2)"

definition set_ok :: "key_history \<Rightarrow> setSnapshot \<Rightarrow> bool" where
  "set_ok K s \<longleftrightarrow> snapshot_wf s \<and> (\<forall>i v. Set_Get s i = Some v \<longrightarrow> K i (val_PublicKey v))"

definition auth_inv :: "key_history \<Rightarrow> StateMachine \<Rightarrow> bool" where
  "auth_inv K m \<longleftrightarrow>
     (\<forall>h r i v. sm_votedVotes m h r i = Some v \<longrightarrow> vote_ok K (sm_signatures m) v)
     \<and> (\<forall>h r i v. (i, v) \<in> set (tcol_votes (sm_timeouts m) h r) \<longrightarrow> timeout_ok K (sm_signatures m) v)
     \<and> list_all (evidence_ok K (sm_signatures m)) (sm_evidence m)"

lemma verifyConsensusSignature_authentic:
  assumes "set_ok K (sm_validatorSet m)"
    and "verifyConsensusSignature m err kind domain i sb sig = None"
  shows "authentic K (sm_signatures m) domain i sb sig"
  using assms
  by (auto simp: verifyConsensusSignature_def authentic_def set_ok_def
        split: option.splits if_splits sum.splits)

lemma unsigned_nonempty: "unsignedConsensusSignature kind i sb \<noteq> []"
proof -
  have "length (unsignedConsensusSignature kind i sb) = 32"
    by (simp only: unsignedConsensusSignature_def length_hash_bytes)
  then show ?thesis
    by (metis list.size(3) zero_neq_numeral)
qed

lemma ensured_signature:
  assumes "verifyConsensusSignature m err kind domain i sb (vote_Signature (ensureVoteSignature m v)) = None"
  shows "vote_Signature (ensureVoteSignature m v) \<noteq> []"
proof (cases "sm_signatures m")
  case None
  then show ?thesis
    by (simp add: ensureVoteSignature_def unsigned_nonempty)
next
  case (Some verify)
  with assms show ?thesis
    by (auto simp: verifyConsensusSignature_def)
qed

section \<open>The invariant\<close>

definition machine_inv :: "key_history \<Rightarrow> StateMachine \<Rightarrow> bool" where
  "machine_inv K m \<longleftrightarrow>
     commits_inv m \<and> votes_inv m \<and> auth_inv K m
     \<and> tree_wf (sm_hashBlock m) (sm_blockTree m)
     \<and> collector_wf (sm_timeouts m) \<and> tcol_validatorSet (sm_timeouts m) = sm_validatorSet m
     \<and> set_ok K (sm_validatorSet m)
     \<and> qc_le (sm_lockedQC m) (tree_highQC (sm_blockTree m))"

lemma machine_inv_init:
  "NewStateMachine config = Inr m \<Longrightarrow> set_ok K (sm_validatorSet m) \<Longrightarrow> machine_inv K m"
  by (auto simp: NewStateMachine_def machine_inv_def commits_inv_def commit_pairs_def NewCommitIndex_def
        votes_inv_def auth_inv_def tree_wf_New collector_wf_New NewBlockTree_def tree_wf_def
        NewTimeoutCollectorWithAggregator_def split: if_splits option.splits)
     (simp_all add: collector_wf_def round_wf_def)

lemma machine_inv_frame:
  assumes "machine_inv K m" and "commit_frame m m'" and "commits_inv m'"
  shows "machine_inv K m'"
  using assms(1,3)
  unfolding machine_inv_def auth_inv_def votes_inv_def commit_frame_simps(1-13) [OF assms(2)]
  by (elim conjE, intro conjI) assumption+

lemma machine_inv_status:
  "machine_inv K m \<Longrightarrow> st_LastFinalized s = st_LastFinalized (sm_status m)
     \<Longrightarrow> machine_inv K (m\<lparr>sm_status := s\<rparr>)"
  by (simp add: machine_inv_def commits_inv_def votes_inv_def auth_inv_def)

lemma machine_inv_rules:
  assumes "machine_inv K m"
  shows "machine_inv K (fst (applyCommitRules m hs))"
  using assms by (intro machine_inv_frame [OF assms applyCommitRules_frame] applyCommitRules_inv)
    (simp add: machine_inv_def)

lemma machine_inv_tree:
  assumes "machine_inv K m" and "tree_wf (sm_hashBlock m) t"
    and "qc_le (tree_highQC (sm_blockTree m)) (tree_highQC t)"
  shows "machine_inv K (m\<lparr>sm_blockTree := t\<rparr>)"
  using assms by (auto simp: machine_inv_def commits_inv_def votes_inv_def auth_inv_def intro: qc_le_trans)

lemma machine_inv_insertBlock:
  "machine_inv K m \<Longrightarrow> machine_inv K (insertBlock m b (sm_hashBlock m b) qc)"
  unfolding insertBlock_def
  by (rule machine_inv_tree) (auto simp: machine_inv_def intro!: tree_wf_Insert Insert_mono)

lemma machine_inv_SetQuorumCert:
  "machine_inv K m \<Longrightarrow> machine_inv K (m\<lparr>sm_blockTree := fst (SetQuorumCert (sm_blockTree m) qc)\<rparr>)"
  by (rule machine_inv_tree) (auto simp: machine_inv_def intro!: tree_wf_SetQuorumCert SetQuorumCert_mono)

text \<open>A certificate that the tree accepted is at most the high certificate.\<close>

lemma SetQuorumCert_high: "SetQuorumCert t qc = (t', None) \<Longrightarrow> qc_le qc (tree_highQC t')"
  by (auto simp: SetQuorumCert_def ObserveQuorumCert_def isBetterQC_iff Let_def
        split: if_splits option.splits)

lemma machine_inv_lock:
  "machine_inv K m \<Longrightarrow> qc_le qc (tree_highQC (sm_blockTree m)) \<Longrightarrow> machine_inv K (updateLockedQC m qc)"
  by (auto simp: updateLockedQC_def machine_inv_def commits_inv_def votes_inv_def auth_inv_def)

section \<open>Handlers keep the invariant\<close>

lemma OnProposal_shape:
  obtains m1 hs s where
    "m1 = m \<or> (\<exists>qc. m1 = insertBlock m (prop_Block p) (sm_hashBlock m (prop_Block p)) qc)"
    and "fst (OnProposal ext m ctx p) = (fst (applyCommitRules m1 hs))\<lparr>sm_status := s\<rparr>"
    and "st_LastFinalized s = st_LastFinalized (sm_status (fst (applyCommitRules m1 hs)))"
proof -
  let ?ins = "insertBlock m (prop_Block p) (sm_hashBlock m (prop_Block p)) (prop_JustifyQC p)"
  note result = that
  have same: thesis if "fst (OnProposal ext m ctx p) = m"
    using that by (intro result [of m "sm_status m" "[]"]) simp_all
  have ran: thesis if "fst (OnProposal ext m ctx p) = (fst (applyKnownCommitRules ext m1))\<lparr>sm_status := s\<rparr>"
    "m1 = m \<or> m1 = ?ins"
    "st_LastFinalized s = st_LastFinalized (sm_status (fst (applyKnownCommitRules ext m1)))" for m1 s
    using that by (intro result [of m1 s "ext_range ext (map fst (tree_blocks (sm_blockTree m1)))"])
      (auto simp: applyKnownCommitRules_def)
  obtain k1 e1 where r1: "applyKnownCommitRules ext m = (k1, e1)"
    by fastforce
  obtain k2 e2 where r2: "applyKnownCommitRules ext ?ins = (k2, e2)"
    by fastforce
  let ?s = "(sm_status k2)\<lparr>st_Height := hdr_Height (blk_Header (prop_Block p)),
              st_Round := prop_Round p, st_Phase := PhaseVote\<rparr>"
  have "fst (OnProposal ext m ctx p) \<in> {m, k1, k2, k2\<lparr>sm_status := ?s\<rparr>}"
    by (simp add: OnProposal_def Let_def r1 r2 split: option.splits bool.splits)
  then consider "fst (OnProposal ext m ctx p) = m" | "fst (OnProposal ext m ctx p) = k1"
    | "fst (OnProposal ext m ctx p) = k2" | "fst (OnProposal ext m ctx p) = k2\<lparr>sm_status := ?s\<rparr>"
    by blast
  then show thesis
  proof cases
    case 1
    then show thesis
      by (rule same)
  next
    case 2
    then show thesis
      by (intro ran [of "sm_status k1" m]) (simp_all add: r1)
  next
    case 3
    then show thesis
      by (intro ran [of "sm_status k2" ?ins]) (simp_all add: r2)
  next
    case 4
    then show thesis
      by (intro ran [of ?s ?ins]) (simp_all add: r2)
  qed
qed

lemma OnProposal_inv:
  assumes "machine_inv K m"
  shows "machine_inv K (fst (OnProposal ext m ctx p))"
proof -
  obtain m1 hs s where m1: "m1 = m \<or> (\<exists>qc. m1 = insertBlock m (prop_Block p) (sm_hashBlock m (prop_Block p)) qc)"
    and run: "fst (OnProposal ext m ctx p) = (fst (applyCommitRules m1 hs))\<lparr>sm_status := s\<rparr>"
    and s: "st_LastFinalized s = st_LastFinalized (sm_status (fst (applyCommitRules m1 hs)))"
    by (rule OnProposal_shape)
  from m1 assms have "machine_inv K m1"
    by (auto intro: machine_inv_insertBlock)
  then show ?thesis
    unfolding run by (intro machine_inv_status machine_inv_rules s)
qed

lemma machine_inv_evidence:
  "machine_inv K m \<Longrightarrow> evidence_ok K (sm_signatures m) e
     \<Longrightarrow> machine_inv K (m\<lparr>sm_evidence := sm_evidence m @ [e]\<rparr>)"
  by (simp add: machine_inv_def commits_inv_def votes_inv_def auth_inv_def)

lemma machine_inv_parts:
  assumes "machine_inv K m"
  shows "commits_inv m" and "votes_inv m" and "auth_inv K m"
    and "tree_wf (sm_hashBlock m) (sm_blockTree m)"
    and "collector_wf (sm_timeouts m)" and "tcol_validatorSet (sm_timeouts m) = sm_validatorSet m"
    and "set_ok K (sm_validatorSet m)" and "qc_le (sm_lockedQC m) (tree_highQC (sm_blockTree m))"
  using assms by (simp_all add: machine_inv_def)

lemma auth_inv_parts:
  assumes "auth_inv K m"
  shows "sm_votedVotes m h r i = Some v \<Longrightarrow> vote_ok K (sm_signatures m) v"
    and "(i, w) \<in> set (tcol_votes (sm_timeouts m) h r) \<Longrightarrow> timeout_ok K (sm_signatures m) w"
    and "e \<in> set (sm_evidence m) \<Longrightarrow> evidence_ok K (sm_signatures m) e"
  using assms unfolding auth_inv_def by (blast, blast, simp add: list_all_iff)

lemma storeVote_auth:
  "auth_inv K m \<Longrightarrow> vote_ok K (sm_signatures m) v \<Longrightarrow> auth_inv K (storeVote m v)"
  using storeVote_frame [of m v] unfolding auth_inv_def storeVote_voted
  by (elim exE) (simp, blast?)

lemma recordVote_inv:
  assumes inv: "machine_inv K m" and ok: "vote_ok K (sm_signatures m) v"
  shows "machine_inv K (fst (recordVote ext m v))"
proof (cases rule: recordVote_cases [of ext m v])
  case stored
  have "votes_inv (storeVote m v)"
    using stored(2) machine_inv_parts [OF inv] by (intro storeVote_inv)
  moreover have "auth_inv K (storeVote m v)"
    using ok machine_inv_parts [OF inv] by (intro storeVote_auth)
  ultimately show ?thesis
    using inv storeVote_frame [of m v] stored(1) by (auto simp: machine_inv_def commits_inv_def)
next
  case (conflict p)
  have "vote_ok K (sm_signatures m) p"
    using conflict(1) auth_inv_parts(1) [OF machine_inv_parts(3) [OF inv]] by (auto simp: conflicts_def)
  then have "evidence_ok K (sm_signatures m) e" if "NewConflictingVoteEvidence ext p v = Inr e" for e
    using that ok unfolding evidence_ok_def by blast
  then show ?thesis
    using inv by (auto simp: conflict(3) intro: machine_inv_evidence split: sum.splits)
qed

lemma certifyVotes_inv:
  assumes inv: "machine_inv K m"
  shows "machine_inv K (fst (certifyVotes m v))"
proof (cases "buildQuorumCert m (vote_Height v) (vote_Round v) (vote_BlockHash v)")
  case (Inl e)
  with inv show ?thesis
    by (simp add: certifyVotes_def)
next
  case (Inr qc)
  obtain t e where t: "SetQuorumCert (sm_blockTree m) qc = (t, e)"
    by fastforce
  then have tree: "machine_inv K (m\<lparr>sm_blockTree := t\<rparr>)"
    using machine_inv_SetQuorumCert [OF inv, of qc] by simp
  moreover have "machine_inv K (updateLockedQC (m\<lparr>sm_blockTree := t\<rparr>) qc)" if "e = None"
    using that t SetQuorumCert_high by (intro machine_inv_lock [OF tree]) auto
  ultimately show ?thesis
    using Inr t by (auto simp: certifyVotes_def Let_def intro!: machine_inv_status)
qed

lemma OnVote_inv:
  assumes inv: "machine_inv K m"
  shows "machine_inv K (fst (OnVote ext m ctx v))"
proof -
  let ?v = "ensureVoteSignature m v"
  obtain m1 e1 where r: "recordVote ext m ?v = (m1, e1)"
    by fastforce
  have "machine_inv K m1" and "machine_inv K (fst (certifyVotes m1 ?v))" if "validateVote m ?v = None"
  proof -
    have "verifyVoteSignature m ?v = None"
      using that by (auto simp: validateVote_def split: if_splits option.splits)
    then have "vote_ok K (sm_signatures m) ?v"
      unfolding vote_ok_def verifyVoteSignature_def
      using ensured_signature verifyConsensusSignature_authentic [OF machine_inv_parts(7) [OF inv]] by blast
    from recordVote_inv [OF inv this, of ext] r show "machine_inv K m1"
      by simp
    then show "machine_inv K (fst (certifyVotes m1 ?v))"
      by (rule certifyVotes_inv)
  qed
  then show ?thesis
    using inv r by (simp add: OnVote_def Let_def split: option.splits)
qed

lemma AddVote_votes:
  assumes "collector_wf c" and "(i, w) \<in> set (tcol_votes (fst (AddVote c v)) h r)"
  shows "(i, w) \<in> set (tcol_votes c h r) \<or> w = v"
proof -
  have "distinct (map fst (tcol_votes c (tv_Height v) (tv_Round v)))"
    using assms(1) by (simp add: collector_wf_def round_wf_def)
  with assms(2) show ?thesis
    by (auto simp: AddVote_def Let_def in_set_update split: option.splits if_splits)
qed

lemma AddVote_set [simp]: "tcol_validatorSet (fst (AddVote c v)) = tcol_validatorSet c"
  by (simp add: AddVote_def Let_def split: option.splits)

lemma machine_inv_timeouts:
  assumes inv: "machine_inv K m" and ok: "timeout_ok K (sm_signatures m) v"
  shows "machine_inv K (m\<lparr>sm_timeouts := fst (AddVote (sm_timeouts m) v)\<rparr>)"
proof -
  note p = machine_inv_parts [OF inv]
  have "timeout_ok K (sm_signatures m) w"
    if "(i, w) \<in> set (tcol_votes (fst (AddVote (sm_timeouts m) v)) h r)" for h r i w
    using AddVote_votes [OF p(5) that] ok auth_inv_parts(2) [OF p(3)] by blast
  then have "auth_inv K (m\<lparr>sm_timeouts := fst (AddVote (sm_timeouts m) v)\<rparr>)"
    using p(3) unfolding auth_inv_def by simp
  moreover have "collector_wf (fst (AddVote (sm_timeouts m) v))"
    by (rule AddVote_wf [OF p(5)])
  ultimately show ?thesis
    using inv by (simp add: machine_inv_def commits_inv_def votes_inv_def)
qed

lemma machine_inv_pacemaker: "machine_inv K (m\<lparr>sm_pacemaker := p\<rparr>) = machine_inv K m"
  by (simp add: machine_inv_def commits_inv_def votes_inv_def auth_inv_def)

lemma machine_inv_observe:
  "machine_inv K m \<Longrightarrow> machine_inv K (m\<lparr>sm_blockTree := ObserveQuorumCert (sm_blockTree m) qc\<rparr>)"
  by (rule machine_inv_tree) (auto simp: machine_inv_def tree_wf_Observe Observe_mono)

lemma ConflictingVote_stored:
  "ConflictingVote c v = Some p \<Longrightarrow> (tv_ValidatorID v, p) \<in> set (tcol_votes c (tv_Height v) (tv_Round v))"
  by (auto simp: ConflictingVote_def split: option.splits if_splits dest: map_of_SomeD)

lemma OnTimeoutVote_inv:
  assumes inv: "machine_inv K m"
  shows "machine_inv K (fst (OnTimeoutVote ext m ctx v))"
proof -
  let ?v = "ensureTimeoutVoteSignature m v"
  obtain tcs e where add: "AddVote (sm_timeouts m) ?v = (tcs, e)"
    by fastforce
  show ?thesis
  proof (cases "ctx = None \<and> verifyTimeoutVoteSignature m ?v = None")
    case False
    with inv show ?thesis
      by (auto simp: OnTimeoutVote_def Let_def split: option.splits)
  next
    case True
    then have ok: "timeout_ok K (sm_signatures m) ?v"
      unfolding timeout_ok_def verifyTimeoutVoteSignature_def
      by (blast intro: verifyConsensusSignature_authentic [OF machine_inv_parts(7) [OF inv]])
    have c: "machine_inv K (m\<lparr>sm_timeouts := tcs\<rparr>)"
      using machine_inv_timeouts [OF inv ok] add by simp
    have ev: "machine_inv K (m\<lparr>sm_timeouts := tcs, sm_evidence := sm_evidence m @ [x]\<rparr>)"
      if "ConflictingVote (sm_timeouts m) ?v = Some p" "NewConflictingTimeoutVoteEvidence ext p ?v = Inr x" for p x
    proof -
      have "timeout_ok K (sm_signatures m) p"
        by (rule auth_inv_parts(2) [OF machine_inv_parts(3) [OF inv] ConflictingVote_stored [OF that(1)]])
      then have "evidence_ok K (sm_signatures m) x"
        using ok that(2) unfolding evidence_ok_def by blast
      with machine_inv_evidence [OF c, of x] show ?thesis
        by simp
    qed
    have pac: "machine_inv K (m\<lparr>sm_timeouts := tcs, sm_pacemaker := q\<rparr>)" for q
      using c by (simp only: machine_inv_pacemaker)
    have adv: "machine_inv K (m\<lparr>sm_timeouts := tcs, sm_pacemaker := q,
        sm_blockTree := ObserveQuorumCert (sm_blockTree m) hq, sm_status := s\<rparr>)"
      if "st_LastFinalized s = st_LastFinalized (sm_status m)" for q hq s
      using machine_inv_status [OF machine_inv_observe [OF pac [of q], of hq], of s] that by simp
    show ?thesis
      using True add c ev adv pac
      by (cases e) (auto simp: OnTimeoutVote_def Let_def split: option.splits sum.splits prod.splits)
  qed
qed

lemma ObserveCommittedBlock_inv:
  assumes inv: "machine_inv K m"
  shows "machine_inv K (fst (ObserveCommittedBlock m b qc))"
proof -
  let ?m = "if Tree_Get (sm_blockTree m) (sm_hashBlock m b) = None
            then insertBlock m b (sm_hashBlock m b) zeroQC else m"
  have ins: "machine_inv K ?m"
    using inv machine_inv_insertBlock by simp
  obtain t e where t: "SetQuorumCert (sm_blockTree ?m) qc = (t, e)"
    by fastforce
  then have tree: "machine_inv K (?m\<lparr>sm_blockTree := t\<rparr>)"
    using machine_inv_SetQuorumCert [OF ins, of qc] by simp
  moreover have "machine_inv K (updateLockedQC (?m\<lparr>sm_blockTree := t\<rparr>) qc)" if "e = None"
    using that t SetQuorumCert_high by (intro machine_inv_lock [OF tree]) auto
  ultimately show ?thesis
    using inv t unfolding ObserveCommittedBlock_def Let_def by (cases e) simp_all
qed

lemma UpdateValidatorSet_inv:
  "machine_inv K m \<Longrightarrow> set_ok K s \<Longrightarrow> machine_inv K (fst (UpdateValidatorSet m (Some s)))"
  by (simp add: UpdateValidatorSet_def machine_inv_def commits_inv_def votes_inv_def auth_inv_def
        collector_wf_New) (simp add: NewTimeoutCollectorWithAggregator_def)

lemma StartRound_inv: "machine_inv K m \<Longrightarrow> machine_inv K (StartRound m h r)"
  unfolding StartRound_def
  by (simp only: machine_inv_pacemaker) (simp add: machine_inv_status)

section \<open>Steps and reachable machines\<close>

text \<open>The handlers in any order, each with its own environment.\<close>

inductive machine_step :: "key_history \<Rightarrow> StateMachine \<Rightarrow> StateMachine \<Rightarrow> bool" for K where
  step_start: "machine_step K m (StartRound m h r)"
| step_validators: "set_ok K s \<Longrightarrow> machine_step K m (fst (UpdateValidatorSet m (Some s)))"
| step_proposal: "machine_step K m (fst (OnProposal ext m ctx p))"
| step_vote: "machine_step K m (fst (OnVote ext m ctx v))"
| step_timeout: "machine_step K m (fst (OnTimeoutVote ext m ctx tv))"
| step_observe: "machine_step K m (fst (ObserveCommittedBlock m b qc))"
| step_commit: "machine_step K m (fst (ApplyCommitRule m c))"

inductive reachable :: "key_history \<Rightarrow> StateMachine \<Rightarrow> bool" for K where
  reach_init: "NewStateMachine config = Inr m \<Longrightarrow> set_ok K (sm_validatorSet m) \<Longrightarrow> reachable K m"
| reach_step: "reachable K m \<Longrightarrow> machine_step K m m' \<Longrightarrow> reachable K m'"

lemma machine_step_inv: "machine_step K m m' \<Longrightarrow> machine_inv K m \<Longrightarrow> machine_inv K m'"
proof (induction rule: machine_step.induct)
  case (step_commit m c)
  then show ?case
    using machine_inv_frame [OF step_commit applyCommitRule_frame applyCommitRule_inv]
    by (simp add: ApplyCommitRule_def machine_inv_parts)
qed (auto intro: StartRound_inv UpdateValidatorSet_inv OnProposal_inv OnVote_inv OnTimeoutVote_inv
       ObserveCommittedBlock_inv)

lemma reachable_inv: "reachable K m \<Longrightarrow> machine_inv K m"
  by (induction rule: reachable.induct) (auto intro: machine_inv_init machine_step_inv)

section \<open>What no step undoes\<close>

definition machine_le :: "StateMachine \<Rightarrow> StateMachine \<Rightarrow> bool" where
  "machine_le m m' \<longleftrightarrow>
     set (sm_committed m) \<subseteq> set (sm_committed m')
     \<and> qc_le (sm_lockedQC m) (sm_lockedQC m')
     \<and> qc_le (tree_highQC (sm_blockTree m)) (tree_highQC (sm_blockTree m'))
     \<and> prefix (sm_evidence m) (sm_evidence m')
     \<and> sm_chainID m' = sm_chainID m \<and> sm_signatures m' = sm_signatures m
     \<and> sm_hashBlock m' = sm_hashBlock m"

lemma machine_le_refl: "machine_le m m"
  by (simp add: machine_le_def)

lemma machine_le_trans: "machine_le a b \<Longrightarrow> machine_le b c \<Longrightarrow> machine_le a c"
  by (auto simp: machine_le_def intro: qc_le_trans prefix_order.trans)

lemma machine_le_frame: "commit_frame m m' \<Longrightarrow> machine_le m m'"
  by (simp add: machine_le_def commit_frame_simps)

lemma machine_le_insert: "machine_le m (insertBlock m b h qc)"
  by (simp add: machine_le_def insertBlock_def Insert_mono)

lemma machine_le_status: "machine_le m m' \<Longrightarrow> machine_le m (m'\<lparr>sm_status := s\<rparr>)"
  by (simp add: machine_le_def)

lemma machine_le_lock: "machine_le m m' \<Longrightarrow> machine_le m (updateLockedQC m' qc)"
  by (auto simp: machine_le_def updateLockedQC_def intro: qc_le_trans isBetterQC_le)

lemma machine_le_tree:
  "machine_le m (m\<lparr>sm_blockTree := fst (SetQuorumCert (sm_blockTree m) qc)\<rparr>)"
  "machine_le m (m\<lparr>sm_blockTree := ObserveQuorumCert (sm_blockTree m) qc\<rparr>)"
  by (simp_all add: machine_le_def SetQuorumCert_mono Observe_mono)

lemma machine_le_record: "machine_le m (fst (recordVote ext m v))"
  using storeVote_frame [of m v]
  by (cases rule: recordVote_cases [of ext m v]) (auto simp: machine_le_def split: sum.splits)

lemma machine_le_certify: "machine_le m (fst (certifyVotes m v))"
proof (cases "buildQuorumCert m (vote_Height v) (vote_Round v) (vote_BlockHash v)")
  case (Inr qc)
  obtain t e where t: "SetQuorumCert (sm_blockTree m) qc = (t, e)"
    by fastforce
  then have "machine_le m (m\<lparr>sm_blockTree := t\<rparr>)"
    using machine_le_tree(1) [of m qc] by simp
  with Inr t show ?thesis
    by (auto simp: certifyVotes_def Let_def intro!: machine_le_status machine_le_lock)
qed (simp add: certifyVotes_def machine_le_refl)

lemma OnProposal_le: "machine_le m (fst (OnProposal ext m ctx p))"
proof -
  obtain m1 hs s where m1: "m1 = m \<or> (\<exists>qc. m1 = insertBlock m (prop_Block p) (sm_hashBlock m (prop_Block p)) qc)"
    and run: "fst (OnProposal ext m ctx p) = (fst (applyCommitRules m1 hs))\<lparr>sm_status := s\<rparr>"
    by (rule OnProposal_shape)
  from m1 have "machine_le m m1"
    by (auto intro: machine_le_refl machine_le_insert)
  with machine_le_frame [OF applyCommitRules_frame] show ?thesis
    unfolding run by (blast intro: machine_le_status machine_le_trans)
qed

lemma OnVote_le: "machine_le m (fst (OnVote ext m ctx v))"
proof -
  let ?v = "ensureVoteSignature m v"
  obtain m1 e1 where r: "recordVote ext m ?v = (m1, e1)"
    by fastforce
  then have "machine_le m m1"
    using machine_le_record [of m ext ?v] by simp
  moreover from this have "machine_le m (fst (certifyVotes m1 ?v))"
    using machine_le_certify machine_le_trans by blast
  ultimately show ?thesis
    using r by (simp add: OnVote_def Let_def machine_le_refl split: option.splits)
qed

lemma OnTimeoutVote_le: "machine_le m (fst (OnTimeoutVote ext m ctx v))"
  by (simp add: OnTimeoutVote_def Let_def machine_le_def Observe_mono split: option.splits sum.splits prod.splits)

lemma ObserveCommittedBlock_le: "machine_le m (fst (ObserveCommittedBlock m b qc))"
proof -
  let ?m = "if Tree_Get (sm_blockTree m) (sm_hashBlock m b) = None
            then insertBlock m b (sm_hashBlock m b) zeroQC else m"
  have ins: "machine_le m ?m"
    using machine_le_refl machine_le_insert by simp
  obtain t e where t: "SetQuorumCert (sm_blockTree ?m) qc = (t, e)"
    by fastforce
  then have tree: "machine_le m (?m\<lparr>sm_blockTree := t\<rparr>)"
    using machine_le_trans [OF ins machine_le_tree(1) [of ?m qc]] by simp
  with t show ?thesis
    unfolding ObserveCommittedBlock_def Let_def
    by (cases e) (simp_all add: machine_le_refl machine_le_lock)
qed

lemma machine_step_le: "machine_step K m m' \<Longrightarrow> machine_le m m'"
proof (induction rule: machine_step.induct)
  case (step_start m h r)
  show ?case
    by (simp add: machine_le_def StartRound_def)
next
  case (step_validators s m)
  show ?case
    by (simp add: machine_le_def UpdateValidatorSet_def)
next
  case (step_commit m c)
  show ?case
    using machine_le_frame [OF applyCommitRule_frame] by (simp add: ApplyCommitRule_def)
qed (rule OnProposal_le OnVote_le OnTimeoutVote_le ObserveCommittedBlock_le)+

end
