(* ===== verification/ExampleNetwork.thy ===== *)
theory ExampleNetwork
  imports MachineInvariant
begin

text \<open>
  A network of four validators, and lemmas to run its machines by rewriting: the fixtures of the
  consensus properties and of the executions that show how the protocol fails.
\<close>

section \<open>A network of four validators\<close>

text \<open>
  A configuration with every check on: four validators of power 1, proposer selection enforced, signatures
  verified.  A signature is the key followed by the signed message; the block hash is read from the
  application hash, so that blocks are told apart by a tag.
\<close>

definition ex_sig :: "string \<Rightarrow> ValidatorID \<Rightarrow> bytes \<Rightarrow> Signature" where
  "ex_sig domain i signBytes =
     (case DomainMessage domain signBytes of Inl _ \<Rightarrow> [] | Inr message \<Rightarrow> i @ ''/'' @ message)"

definition ex_verify :: signature_verifier where
  "ex_verify pk message signature \<longleftrightarrow> signature = pk @ ''/'' @ message"

definition ex_hashBlock :: "Block \<Rightarrow> hash" where
  "ex_hashBlock b = hdr_AppHash (blk_Header b)"

text \<open>A verifier that rejects whatever is said to come from \<open>i\<close>.\<close>

definition ex_verify_except :: "ValidatorID \<Rightarrow> signature_verifier" where
  "ex_verify_except i pk message signature \<longleftrightarrow> pk \<noteq> i \<and> ex_verify pk message signature"

definition ex_config :: "signature_verifier \<Rightarrow> StateMachineConfig" where
  "ex_config verify = \<lparr>cfg_ChainID = ''vexo'', cfg_ValidatorSet = Some ex_set, cfg_HashBlock = Some ex_hashBlock,
     cfg_Signatures = Some verify, cfg_Aggregator = Some (\<lambda>_. Inr ''agg''),
     cfg_EnforceProposerSelection = True\<rparr>"

definition ex_machine_with :: "signature_verifier \<Rightarrow> StateMachine" where
  "ex_machine_with verify = \<lparr>sm_chainID = ''vexo'', sm_validatorSet = ex_set, sm_hashBlock = ex_hashBlock,
     sm_signatures = Some verify, sm_aggregator = Some (\<lambda>_. Inr ''agg''),
     sm_enforceProposerSelection = True,
     sm_status = \<lparr>st_ChainID = ''vexo'', st_Height = 0, st_Round = 0, st_Phase = PhasePropose,
       st_LastFinalized = 0, st_ValidatorSetHash = Set_Hash ex_set, st_LastTimeoutCert = zeroTC\<rparr>,
     sm_votes = (\<lambda>_ _ _. []), sm_votedVotes = (\<lambda>_ _. Map.empty), sm_evidence = [],
     sm_timeouts = \<lparr>tcol_validatorSet = ex_set, tcol_aggregator = Some (\<lambda>_. Inr ''agg''),
       tcol_votes = (\<lambda>_ _. [])\<rparr>,
     sm_pacemaker = \<lparr>pm_height = 0, pm_round = 0\<rparr>,
     sm_blockTree = \<lparr>tree_blocks = [], tree_highQC = zeroQC\<rparr>, sm_lockedQC = zeroQC,
     sm_committed = [], sm_committedSet = {}, sm_commitIndex = \<lparr>ci_byHeight = []\<rparr>\<rparr>"

definition ex_machine :: StateMachine where
  "ex_machine = ex_machine_with ex_verify"

text \<open>The signatures of \<open>i\<close> are accepted.\<close>

definition accepts :: "signature_verifier option \<Rightarrow> ValidatorID \<Rightarrow> bool" where
  "accepts signatures i \<longleftrightarrow> (case signatures of None \<Rightarrow> False
     | Some verify \<Rightarrow> (\<forall>message. verify i message (i @ ''/'' @ message)))"

definition ex_ext :: Externals where
  "ex_ext = \<lparr>ext_envelope = (\<lambda>_. None), ext_marshalVotes = (\<lambda>_ _. Inr ''votes''),
     ext_marshalTimeouts = (\<lambda>_ _. Inr ''timeouts''), ext_range = (\<lambda>keys. keys)\<rparr>"

text \<open>Every validator has used one key, its own name.\<close>

definition ex_keys :: key_history where
  "ex_keys i pk \<longleftrightarrow> pk = i"

definition ex_block :: "Height \<Rightarrow> hash \<Rightarrow> hash \<Rightarrow> Block" where
  "ex_block h parent tag = \<lparr>blk_Header = \<lparr>hdr_ChainID = ''vexo'', hdr_Height = h, hdr_TimeUnixNano = 0,
     hdr_PreviousBlockHash = parent, hdr_AppHash = tag, hdr_ValidatorSetHash = Set_Hash ex_set,
     hdr_ConsensusHash = 0, hdr_TxRoot = TxRoot []\<rparr>, blk_Txs = []\<rparr>"

definition ex_qc :: "Height \<Rightarrow> Round \<Rightarrow> hash \<Rightarrow> Bitmap \<Rightarrow> VotingPower \<Rightarrow> QuorumCert" where
  "ex_qc h r b signers pow = \<lparr>qc_Height = h, qc_Round = r, qc_BlockHash = b, qc_Signers = signers,
     qc_Signature = ''agg'', qc_VotingPower = pow\<rparr>"

definition ex_unsigned :: "Height \<Rightarrow> Round \<Rightarrow> ValidatorID \<Rightarrow> hash \<Rightarrow> QuorumCert \<Rightarrow> Proposal" where
  "ex_unsigned h r i tag qc = \<lparr>prop_Block = ex_block h (qc_BlockHash qc) tag, prop_Round = r,
     prop_Proposer = i, prop_JustifyQC = qc, prop_Signature = []\<rparr>"

definition ex_sign :: "Proposal \<Rightarrow> Proposal" where
  "ex_sign p = p\<lparr>prop_Signature := ex_sig DomainConsensusProposal (prop_Proposer p) (ProposalSignBytes p)\<rparr>"

definition ex_vote :: "Height \<Rightarrow> Round \<Rightarrow> hash \<Rightarrow> ValidatorID \<Rightarrow> Vote" where
  "ex_vote h r b i = \<lparr>vote_Height = h, vote_Round = r, vote_BlockHash = b, vote_ValidatorID = i,
     vote_Signature = ex_sig DomainConsensusVote i (signbytes_Vote h r b)\<rparr>"

lemma accepts_simps [simp]:
  "accepts (Some ex_verify) i" "accepts (Some (ex_verify_except j)) i \<longleftrightarrow> i \<noteq> j"
  by (auto simp: accepts_def ex_verify_def ex_verify_except_def)

lemma ex_machine_new: "NewStateMachine (ex_config verify) = Inr (ex_machine_with verify)"
  by (simp add: NewStateMachine_def ex_config_def ex_machine_with_def NewTimeoutCollectorWithAggregator_def
      NewPacemaker_def NewBlockTree_def NewCommitIndex_def)

lemma ex_set_ok: "set_ok ex_keys ex_set"
  by (auto simp: set_ok_def ex_set_wf ex_set_Get ex_keys_def ex_validator_def split: if_splits)

lemma ex_machine_reachable: "reachable ex_keys (ex_machine_with verify)"
  by (rule reach_init [OF ex_machine_new]) (simp add: ex_machine_with_def ex_set_ok)

lemma ex_sig_verifies:
  assumes "accepts (sm_signatures m) i" and "sm_validatorSet m = ex_set"
    and "i \<in> {''v0'', ''v1'', ''v2'', ''v3''}" and "domain \<noteq> []"
  shows "verifyConsensusSignature m err kind domain i sb (ex_sig domain i sb) = None"
proof -
  obtain verify where "sm_signatures m = Some verify" and "\<And>message. verify i message (i @ ''/'' @ message)"
    using assms(1) by (auto simp: accepts_def split: option.splits)
  with assms(2-4) show ?thesis
    by (simp add: verifyConsensusSignature_def ex_sig_def DomainMessage_def ex_set_Get ex_validator_def)
qed

lemma ex_schedule: "schedule (Set_List ex_set) = [''v0'', ''v1'', ''v2'', ''v3'']"
proof -
  have "map val_ID (activeValidators (Set_List ex_set)) = [''v0'', ''v1'', ''v2'', ''v3'']"
    by (simp add: ex_set_def Set_List_def activeValidators_def ex_validator_def)
  moreover have "sort [''v0'', ''v1'', ''v2'', ''v3''] = [''v0'', ''v1'', ''v2'', ''v3'']"
    by (simp add: sort_key_def less_eq_char_def)
  ultimately show ?thesis
    by (simp add: schedule_def)
qed

lemma ex_proposer:
  "SelectProposer (Set_List ex_set) h r
     = Some ([''v0'', ''v1'', ''v2'', ''v3''] ! (unat ((if h = 0 then 1 else h) - 1 + r) mod 4))"
proof -
  have "length (Set_List ex_set) < 2 ^ 64"
    by (simp add: ex_set_def Set_List_def)
  from SelectProposer_schedule [OF this, of h r] show ?thesis
    by (simp add: ex_schedule)
qed

lemma SortTxs_Nil [simp]: "SortTxsWithSalt json [] salt = []"
  using SortTxsWithSalt_mset [of json "[]" salt] by simp

lemma ex_block_simps [simp]:
  "hdr_ChainID (blk_Header (ex_block h parent tag)) = ''vexo''"
  "hdr_Height (blk_Header (ex_block h parent tag)) = h"
  "hdr_PreviousBlockHash (blk_Header (ex_block h parent tag)) = parent"
  "hdr_ValidatorSetHash (blk_Header (ex_block h parent tag)) = Set_Hash ex_set"
  "hdr_ConsensusHash (blk_Header (ex_block h parent tag)) = 0"
  "blk_Txs (ex_block h parent tag) = []"
  "ex_hashBlock (ex_block h parent tag) = tag"
  by (simp_all add: ex_block_def ex_hashBlock_def)

lemma ex_proposal_simps [simp]:
  "prop_Block (ex_sign (ex_unsigned h r i tag qc)) = ex_block h (qc_BlockHash qc) tag"
  "prop_Round (ex_sign (ex_unsigned h r i tag qc)) = r"
  "prop_Proposer (ex_sign (ex_unsigned h r i tag qc)) = i"
  "prop_JustifyQC (ex_sign (ex_unsigned h r i tag qc)) = qc"
  "prop_Signature (ex_sign (ex_unsigned h r i tag qc)) =
     ex_sig DomainConsensusProposal i (ProposalSignBytes (ex_sign (ex_unsigned h r i tag qc)))"
  by (simp_all add: ex_sign_def ex_unsigned_def ProposalSignBytes_def)

lemma ex_validate:
  assumes "sm_chainID m = ''vexo''" and "sm_validatorSet m = ex_set" and "accepts (sm_signatures m) i"
    and "h \<noteq> 0" and "qc_Height qc \<le> h" and "i = [''v0'', ''v1'', ''v2'', ''v3''] ! (unat (h - 1 + r) mod 4)"
  shows "validateProposal ext m (ex_sign (ex_unsigned h r i tag qc)) = None"
proof -
  let ?p = "ex_sign (ex_unsigned h r i tag qc)"
  have "unat (h - 1 + r) mod 4 \<in> {0, 1, 2, 3}"
    by auto
  then have i: "i \<in> {''v0'', ''v1'', ''v2'', ''v3''}"
    unfolding assms(6) by (auto simp: numeral_2_eq_2 numeral_3_eq_3)
  have "verifyProposalSignature m ?p = None"
    using ex_sig_verifies [OF assms(3,2) i, of DomainConsensusProposal]
    by (simp only: verifyProposalSignature_def ex_proposal_simps) (simp add: DomainConsensusProposal_def)
  moreover have "validateProposer m h r i = None"
    using assms(2,4,6) by (simp add: validateProposer_def ex_proposer)
  moreover have "Set_Get ex_set i \<noteq> None"
    using i by (simp add: ex_set_Get)
  ultimately show ?thesis
    using assms(1,2,4,5)
    by (simp add: validateProposal_def Let_def IsOrderedWithSalt_iff DA_Verify_def not_less)
qed



lemma zeroQC_simps [simp]:
  "qc_Height zeroQC = 0" "qc_Round zeroQC = 0" "qc_BlockHash zeroQC = 0"
  by (simp_all add: zeroQC_def)



section \<open>Executions of a network\<close>

datatype message = ProposalMsg Proposal | VoteMsg Vote

text \<open>A validator proposes a block with a tag, votes for a block, or receives what was sent before.\<close>

datatype action = Create Height hash Round | Cast Height Round hash | Receive message

text \<open>The machine after a message its handler accepts.\<close>

definition handle :: "StateMachine \<Rightarrow> message \<Rightarrow> StateMachine option" where
  "handle m msg =
     (case (case msg of ProposalMsg p \<Rightarrow> OnProposal ex_ext m None p | VoteMsg v \<Rightarrow> OnVote ex_ext m None v) of
        (m', e) \<Rightarrow> if e = None then Some m' else None)"

definition act :: "ValidatorID \<Rightarrow> StateMachine \<Rightarrow> message list \<Rightarrow> action \<Rightarrow> (StateMachine \<times> message list) option" where
  "act i m sent a =
     (case a of
        Create h tag r \<Rightarrow>
          (case CreateProposal ex_ext m (ex_block h 0 tag) r i zeroQC of
             Inl _ \<Rightarrow> None
           | Inr p \<Rightarrow>
               map_option (\<lambda>m. (m, ProposalMsg (ex_sign p) # sent)) (handle m (ProposalMsg (ex_sign p))))
      | Cast h r b \<Rightarrow>
          map_option (\<lambda>m. (m, VoteMsg (ex_vote h r b i) # sent)) (handle m (VoteMsg (ex_vote h r b i)))
      | Receive msg \<Rightarrow>
          if msg \<in> set sent then map_option (\<lambda>m. (m, sent)) (handle m msg) else None)"

fun network ::
    "(ValidatorID \<Rightarrow> StateMachine) \<Rightarrow> message list \<Rightarrow> (ValidatorID \<times> action) list
     \<Rightarrow> (ValidatorID \<Rightarrow> StateMachine) option" where
  "network ms sent [] = Some ms"
| "network ms sent ((i, a) # rest) =
     (case act i (ms i) sent a of None \<Rightarrow> None | Some (m, sent') \<Rightarrow> network (ms(i := m)) sent' rest)"

lemma extendsLoop_numeral:
  "extendsLoop (numeral k) t x a = extendsLoop (Suc (pred_numeral k)) t x a"
  by (simp only: numeral_eq_Suc)

lemmas eval_tree = Extends_def extendsLoop_numeral Tree_Get_def Tree_Insert_def SetQuorumCert_def ObserveQuorumCert_def isBetterQC_def
  CommitCandidate_of_def Decide_def Tree_HighQC_def

lemmas eval_proposal = OnProposal_def ex_validate isSafeProposal_def insertBlock_def
  applyKnownCommitRules_def applyCommitRule_def Record_def


lemma ex_vote_simps [simp]:
  "vote_Height (ex_vote h r b i) = h" "vote_Round (ex_vote h r b i) = r"
  "vote_BlockHash (ex_vote h r b i) = b" "vote_ValidatorID (ex_vote h r b i) = i"
  "vote_Signature (ex_vote h r b i) = ex_sig DomainConsensusVote i (signbytes_Vote h r b)"
  by (simp_all add: ex_vote_def)

lemma ex_sig_nonempty: "ex_sig DomainConsensusVote i sb \<noteq> []"
  by (simp add: ex_sig_def DomainMessage_def DomainConsensusVote_def)

lemma ex_vote_verifies:
  "accepts (sm_signatures m) i \<Longrightarrow> sm_validatorSet m = ex_set
     \<Longrightarrow> i \<in> {''v0'', ''v1'', ''v2'', ''v3''} \<Longrightarrow> verifyVoteSignature m (ex_vote h r b i) = None"
  by (simp only: verifyVoteSignature_def ex_vote_simps VoteSignBytes_def)
     (rule ex_sig_verifies, simp_all add: DomainConsensusVote_def)

lemma ex_ensure: "sm_signatures m = Some verify \<Longrightarrow> ensureVoteSignature m v = v"
  by (simp add: ensureVoteSignature_def)

lemma ex_power: "val_VotingPower (ex_validator i) = 1"
  by (simp add: ex_validator_def)

lemmas eval_vote = OnVote_def validateVote_def ex_vote_verifies ex_ensure isSafeVoteTarget_def
  recordVote_def certifyVotes_def buildQuorumCert_def votesForBlock_def certify_def hasQuorum_def
  HasTwoThirdsQuorum_iff ex_set_total ex_set_Get ex_power AddVotingPower_cases allSignaturesPresent_def
  updateLockedQC_def sort_key_def less_eq_char_def ex_sig_nonempty

lemmas eval_all = eval_tree eval_proposal eval_vote ex_machine_def ex_machine_with_def Let_def ex_ext_def ex_qc_def


lemma ex_create:
  assumes "sm_chainID m = ''vexo''" and "sm_validatorSet m = ex_set" and "proposalQC m = Some qc"
    and "h \<noteq> 0" and "i = [''v0'', ''v1'', ''v2'', ''v3''] ! (unat (h - 1 + r) mod 4)"
    and "qc_Height qc \<noteq> 0 \<or> qc_BlockHash qc = 0"
  shows "CreateProposal ext m (ex_block h 0 tag) r i zeroQC = Inr (ex_unsigned h r i tag (the (proposalQC m)))"
proof -
  have "unat (h - 1 + r) mod 4 \<in> {0, 1, 2, 3}"
    by auto
  then have "Set_Get ex_set i \<noteq> None"
    unfolding assms(5) by (auto simp: numeral_2_eq_2 numeral_3_eq_3 ex_set_Get)
  moreover have "validateProposer m h r i = None"
    using assms(2,4,5) by (simp add: validateProposer_def ex_proposer)
  ultimately show ?thesis
    using assms(1-3,6)
    by (auto simp: CreateProposal_def ex_unsigned_def Let_def ex_block_def word_gt_0)
qed

lemmas eval_network = act_def handle_def ex_create proposalQC_def

end
