(* ===== verification/ConsensusSafety.thy ===== *)
theory ConsensusSafety
  imports ExampleNetwork
begin

text \<open>
  Properties of the consensus state machine over all reachable machines: certificates, commits, evidence,
  proposals; and executions in which the protocol does not keep what its documentation promises.
\<close>

section \<open>Certificates\<close>

text \<open>
  C2: One certificate per round.  In every reachable machine, whatever votes arrived and in whatever order,
  two quorum certificates that can be built for the same height and round are for the same block.
\<close>

theorem one_certificate_per_round:
  assumes "reachable K m"
    and "buildQuorumCert m h r b = Inr qc" and "buildQuorumCert m h r b' = Inr qc'"
  shows "b = b'"
proof -
  note inv = reachable_inv [OF assms(1)]
  have "snapshot_wf (sm_validatorSet m)"
    using machine_inv_parts(7) [OF inv] by (simp add: set_ok_def)
  from buildQuorumCert_unique [OF machine_inv_parts(2) [OF inv] this assms(2,3)] show ?thesis .
qed

definition ex_certified :: StateMachine where
  "ex_certified =
     fst (OnVote ex_ext (fst (OnVote ex_ext (fst (OnVote ex_ext
       (fst (OnProposal ex_ext ex_machine None (ex_sign (ex_unsigned 1 0 ''v0'' 11 zeroQC))))
       None (ex_vote 1 0 11 ''v0''))) None (ex_vote 1 0 11 ''v1''))) None (ex_vote 1 0 11 ''v2''))"

lemma ex_certified_reachable: "reachable ex_keys ex_certified"
  unfolding ex_certified_def ex_machine_def
  by (intro reach_step [OF _ step_vote] reach_step [OF _ step_proposal] ex_machine_reachable)

lemma ex_certified_qc: "buildQuorumCert ex_certified 1 0 11 = Inr (ex_qc 1 0 11 ''v0,v1,v2'' 3)"
  by (simp add: ex_certified_def eval_all)

theorem one_certificate_per_round_witness:
  "buildQuorumCert ex_certified 1 0 11 = Inr (ex_qc 1 0 11 ''v0,v1,v2'' 3)
     \<and> \<not> (\<exists>b qc. buildQuorumCert ex_certified 1 0 b = Inr qc \<and> b \<noteq> 11)"
  using one_certificate_per_round [OF ex_certified_reachable ex_certified_qc] ex_certified_qc by blast



lemma certify_total:
  assumes "hasQuorum p (Set_TotalVotingPower s)" and "votes \<noteq> []" and "list_all (\<lambda>(i, sig). sig \<noteq> []) votes"
    and "\<And>sigs. f sigs = Inr agg"
  shows "\<exists>signers signature. certify s (Some f) p votes = Inr (signers, signature)"
proof -
  have "set (sort_key fst votes) = set votes" and "sort_key fst votes \<noteq> []"
    using assms(2) by (simp, metis length_0_conv length_sort)
  with assms show ?thesis
    by (auto simp: certify_def Let_def allSignaturesPresent_def list_all_iff)
qed



section \<open>Commits\<close>

definition ex_committed :: StateMachine where
  "ex_committed =
     fst (OnProposal ex_ext (fst (OnProposal ex_ext ex_certified None
       (ex_sign (ex_unsigned 2 0 ''v1'' 12 (ex_qc 1 0 11 ''v0,v1,v2'' 3)))))
       None (ex_sign (ex_unsigned 3 0 ''v2'' 13 (ex_qc 2 0 12 ''v0,v1,v2'' 3))))"

lemma ex_committed_reachable: "reachable ex_keys ex_committed"
  unfolding ex_committed_def by (intro reach_step [OF _ step_proposal] ex_certified_reachable)

lemma ex_committed_eval: "map cd_CommittedBlockHash (sm_committed ex_committed) = [11]"
  by (simp add: ex_committed_def ex_certified_def eval_all)

text \<open>
  C3: Commits are consistent.  In every reachable machine the committed decisions are strictly increasing in
  height, so no height has two; each carries the certificate of the block it commits; the commit index and the
  set of committed hashes hold exactly these decisions; and the last finalized hash is the highest one.
\<close>

theorem commits_consistent:
  assumes "reachable K m"
  shows "sorted_wrt (<) (map cd_CommittedHeight (sm_committed m))
    \<and> list_all decision_ok (sm_committed m)
    \<and> map_of (ci_byHeight (sm_commitIndex m)) = map_of (commit_pairs (sm_committed m))
    \<and> sm_committedSet m = cd_CommittedBlockHash ` set (sm_committed m)
    \<and> st_LastFinalized (sm_status m) =
        (if sm_committed m = [] then zero_hash else cd_CommittedBlockHash (last (sm_committed m)))"
  using machine_inv_parts(1) [OF reachable_inv [OF assms]] by (simp add: commits_inv_def)

theorem commits_consistent_witness:
  "map cd_CommittedBlockHash (sm_committed ex_committed) = [11]
     \<and> sm_committedSet ex_committed = {11} \<and> st_LastFinalized (sm_status ex_committed) = 11"
proof -
  obtain d where d: "sm_committed ex_committed = [d]" "cd_CommittedBlockHash d = 11"
    using ex_committed_eval by auto
  with commits_consistent [OF ex_committed_reachable] show ?thesis
    by simp
qed

text \<open>
  C9: Finality is irrevocable within a machine.  Along any sequence of handler calls a committed decision
  stays committed, evidence stays filed, and the locked and the high certificate never go back in height and
  round.
\<close>

theorem finality_irrevocable:
  assumes "(machine_step K)\<^sup>*\<^sup>* m m'"
  shows "set (sm_committed m) \<subseteq> set (sm_committed m') \<and> prefix (sm_evidence m) (sm_evidence m')
    \<and> qc_le (sm_lockedQC m) (sm_lockedQC m')
    \<and> qc_le (tree_highQC (sm_blockTree m)) (tree_highQC (sm_blockTree m'))"
proof -
  from assms have "machine_le m m'"
    by (induction rule: rtranclp_induct) (blast intro: machine_le_refl machine_le_trans machine_step_le)+
  then show ?thesis
    by (simp add: machine_le_def)
qed

theorem finality_irrevocable_witness:
  "set (sm_committed ex_committed)
     \<subseteq> set (sm_committed (fst (OnVote ex_ext ex_committed None (ex_vote 3 0 13 ''v2''))))"
proof -
  have "(machine_step ex_keys)\<^sup>*\<^sup>* ex_committed (fst (OnVote ex_ext ex_committed None (ex_vote 3 0 13 ''v2'')))"
    by (rule r_into_rtranclp) (rule step_vote)
  from finality_irrevocable [OF this] show ?thesis
    by blast
qed

section \<open>Evidence\<close>

text \<open>Two proposals of one round, and a validator that votes for both.\<close>

definition ex_voted :: StateMachine where
  "ex_voted =
     fst (OnVote ex_ext (fst (OnProposal ex_ext (fst (OnProposal ex_ext (ex_machine_with (ex_verify_except ''v2''))
       None (ex_sign (ex_unsigned 1 0 ''v0'' 11 zeroQC))))
       None (ex_sign (ex_unsigned 1 0 ''v0'' 14 zeroQC)))) None (ex_vote 1 0 11 ''v1''))"

definition ex_equivocated :: StateMachine where
  "ex_equivocated = fst (OnVote ex_ext ex_voted None (ex_vote 1 0 14 ''v1''))"

lemma ex_voted_reachable: "reachable ex_keys ex_voted"
  unfolding ex_voted_def
  by (intro reach_step [OF _ step_vote] reach_step [OF _ step_proposal] ex_machine_reachable)

lemma ex_equivocated_reachable: "reachable ex_keys ex_equivocated"
  unfolding ex_equivocated_def by (intro reach_step [OF _ step_vote] ex_voted_reachable)

text \<open>
  A conflicting vote is punished.  When a validator of the set casts a valid vote for a round in which the
  machine has its vote for another block, the vote is refused, evidence that names the validator and the
  round is filed with both votes, and nothing else of the machine changes.
\<close>

theorem conflicting_vote_filed:
  assumes "reachable K m" and "Set_Get (sm_validatorSet m) (vote_ValidatorID v) \<noteq> None"
    and "v' = ensureVoteSignature m v" and "validateVote m v' = None"
    and "sm_votedVotes m (vote_Height v') (vote_Round v') (vote_ValidatorID v') = Some p"
    and "vote_BlockHash p \<noteq> vote_BlockHash v'"
    and "ext_marshalVotes ext p v' = Inr proof"
  shows "OnVote ext m None v =
    (m\<lparr>sm_evidence := sm_evidence m @ [\<lparr>evd_Type = EvidenceConflictingVote,
         evd_Validator = vote_ValidatorID v', evd_Height = vote_Height v', evd_Round = vote_Round v',
         evd_Proof = proof\<rparr>]\<rparr>, Some ErrConflictingVote)"
proof -
  have "vote_Height p = vote_Height v'" "vote_Round p = vote_Round v'" "vote_ValidatorID p = vote_ValidatorID v'"
    using votes_inv_voted [OF machine_inv_parts(2) [OF reachable_inv [OF assms(1)]] assms(5)] by auto
  then have "NewConflictingVoteEvidence ext p v' = Inr \<lparr>evd_Type = EvidenceConflictingVote,
      evd_Validator = vote_ValidatorID v', evd_Height = vote_Height v', evd_Round = vote_Round v',
      evd_Proof = proof\<rparr>"
    using assms(6,7) by (simp add: NewConflictingVoteEvidence_def)
  with assms show ?thesis
    by (intro OnVote_conflict [of m v v' p]) (simp_all add: conflicts_def)
qed

theorem conflicting_vote_filed_witness:
  "snd (OnVote ex_ext ex_voted None (ex_vote 1 0 14 ''v1'')) = Some ErrConflictingVote
     \<and> sm_evidence (fst (OnVote ex_ext ex_voted None (ex_vote 1 0 14 ''v1''))) =
         [\<lparr>evd_Type = EvidenceConflictingVote, evd_Validator = ''v1'', evd_Height = 1, evd_Round = 0,
           evd_Proof = ''votes''\<rparr>]"
proof -
  let ?v = "ex_vote 1 0 14 ''v1''"
  have "ensureVoteSignature ex_voted ?v = ?v" and "sm_evidence ex_voted = []"
    and "validateVote ex_voted ?v = None" and "Set_Get (sm_validatorSet ex_voted) ''v1'' \<noteq> None"
    and "sm_votedVotes ex_voted 1 0 ''v1'' = Some (ex_vote 1 0 11 ''v1'')"
    by (simp_all add: ex_voted_def eval_all)
  then show ?thesis
    using conflicting_vote_filed [OF ex_voted_reachable, of ?v ?v "ex_vote 1 0 11 ''v1''" ex_ext "''votes''"]
    by (simp add: ex_ext_def)
qed

text \<open>
  C15: No honest validator is accused.  Let the only messages that verify under the keys of a validator be the
  ones it signed, and let it never have signed votes for two blocks of one round.  Then no reachable machine
  holds evidence of a conflicting vote against it.
\<close>

theorem honest_validator_not_accused:
  assumes "reachable K m" and "sm_signatures m = Some verify"
    and unforgeable: "\<And>pk message sig. K i pk \<Longrightarrow> verify pk message sig \<Longrightarrow> message \<in> sent"
    and one_vote: "\<And>h r b b' x y. DomainMessage DomainConsensusVote (signbytes_Vote h r b) = Inr x \<Longrightarrow>
       DomainMessage DomainConsensusVote (signbytes_Vote h r b') = Inr y \<Longrightarrow>
       x \<in> sent \<Longrightarrow> y \<in> sent \<Longrightarrow> b = b'"
  shows "\<not> (\<exists>e. e \<in> set (sm_evidence m) \<and> evd_Type e = EvidenceConflictingVote \<and> evd_Validator e = i)"
proof
  assume "\<exists>e. e \<in> set (sm_evidence m) \<and> evd_Type e = EvidenceConflictingVote \<and> evd_Validator e = i"
  then obtain e where e: "e \<in> set (sm_evidence m)" "evd_Type e = EvidenceConflictingVote" "evd_Validator e = i"
    by blast
  have "evidence_ok K (Some verify) e"
    using auth_inv_parts(3) [OF machine_inv_parts(3) [OF reachable_inv [OF assms(1)]] e(1)] assms(2) by simp
  moreover have "\<not> (\<exists>ext v1 v2. NewConflictingTimeoutVoteEvidence ext v1 v2 = Inr e)"
    using e(2) by (auto simp: NewConflictingTimeoutVoteEvidence_def EvidenceConflictingVote_def
        EvidenceConflictingTimeoutVote_def split: if_splits sum.splits)
  ultimately obtain ext v1 v2 where ev: "NewConflictingVoteEvidence ext v1 v2 = Inr e"
    and ok: "vote_ok K (Some verify) v1" "vote_ok K (Some verify) v2"
    unfolding evidence_ok_def by blast
  from ev e(3) have same: "vote_ValidatorID v1 = i" "vote_ValidatorID v2 = i" "vote_Height v2 = vote_Height v1"
    "vote_Round v2 = vote_Round v1" "vote_BlockHash v1 \<noteq> vote_BlockHash v2"
    by (auto simp: NewConflictingVoteEvidence_def split: if_splits sum.splits)
  obtain pk x where x: "K i pk" "DomainMessage DomainConsensusVote (VoteSignBytes v1) = Inr x"
    "verify pk x (vote_Signature v1)"
    using ok(1) same(1) by (auto simp: vote_ok_def authentic_def)
  obtain pk' y where y: "K i pk'" "DomainMessage DomainConsensusVote (VoteSignBytes v2) = Inr y"
    "verify pk' y (vote_Signature v2)"
    using ok(2) same(2) by (auto simp: vote_ok_def authentic_def)
  have "vote_BlockHash v1 = vote_BlockHash v2"
    using one_vote [OF x(2)[unfolded VoteSignBytes_def] y(2)[unfolded VoteSignBytes_def same(3,4)]]
      unforgeable [OF x(1,3)] unforgeable [OF y(1,3)] by blast
  with same(5) show False
    by blast
qed

theorem honest_validator_not_accused_witness:
  "sm_evidence ex_equivocated \<noteq> []
     \<and> \<not> (\<exists>e. e \<in> set (sm_evidence ex_equivocated) \<and> evd_Type e = EvidenceConflictingVote
            \<and> evd_Validator e = ''v2'')"
proof
  show "sm_evidence ex_equivocated \<noteq> []"
    by (simp add: ex_equivocated_def ex_voted_def eval_all NewConflictingVoteEvidence_def)
  have "sm_signatures ex_equivocated = Some (ex_verify_except ''v2'')"
    by (simp add: ex_equivocated_def ex_voted_def eval_all NewConflictingVoteEvidence_def)
  then show "\<not> (\<exists>e. e \<in> set (sm_evidence ex_equivocated) \<and> evd_Type e = EvidenceConflictingVote
            \<and> evd_Validator e = ''v2'')"
    by (rule honest_validator_not_accused [OF ex_equivocated_reachable, where sent = "{}"])
       (simp_all add: ex_keys_def ex_verify_except_def)
qed

section \<open>Proposals\<close>

text \<open>
  What a validator creates its peers accept.  A proposal that a machine creates for a block with a height
  and no data commitment of its own, once validly signed, passes every content check of a machine of the same
  chain and validator set: chain, height, validator set hash, fair order of the transactions, data
  commitment, and the link to the justified parent.
\<close>

theorem created_proposal_validates:
  assumes "CreateProposal ext m block rnd proposer qc = Inr p"
    and "p' = p\<lparr>prop_Signature := sig\<rparr>" and "verifyProposalSignature m p' = None"
    and "hdr_Height (blk_Header block) \<noteq> 0" and "hdr_ConsensusHash (blk_Header block) = zero_hash"
    and "qc_Height (prop_JustifyQC p) \<le> hdr_Height (blk_Header block)"
    and "hdr_PreviousBlockHash (blk_Header block) \<in> {zero_hash, qc_BlockHash (prop_JustifyQC p)}"
    and "blk_Txs block = [] \<or> Commitment (blk_Txs (prop_Block p)) \<noteq> zero_hash"
  shows "validateProposal ext m p' = None"
proof -
  let ?salt = "orderingSalt m (hdr_Height (blk_Header block))"
  let ?txs = "SortTxsWithSalt (ext_envelope ext) (blk_Txs block) ?salt"
  from assms(1) obtain q where known: "Set_Get (sm_validatorSet m) proposer \<noteq> None"
    and turn: "validateProposer m (hdr_Height (blk_Header block)) rnd proposer = None"
    and p: "prop_Proposer p = proposer" "prop_Round p = rnd" "prop_JustifyQC p = q"
      "blk_Txs (prop_Block p) = ?txs" "hdr_ChainID (blk_Header (prop_Block p)) = sm_chainID m"
      "hdr_Height (blk_Header (prop_Block p)) = hdr_Height (blk_Header block)"
      "hdr_ValidatorSetHash (blk_Header (prop_Block p)) = Set_Hash (sm_validatorSet m)"
      "hdr_ConsensusHash (blk_Header (prop_Block p)) = (if ?txs = [] then zero_hash else Commitment ?txs)"
      "hdr_PreviousBlockHash (blk_Header (prop_Block p)) =
         (if hdr_PreviousBlockHash (blk_Header block) = zero_hash \<and> 0 < qc_Height q then qc_BlockHash q
          else hdr_PreviousBlockHash (blk_Header block))"
    using assms(5)
    by (auto simp: CreateProposal_def Let_def AttachCommitment_def split: if_splits option.splits)
  have perm: "mset ?txs = mset (blk_Txs block)"
    by (rule SortTxsWithSalt_mset)
  have "SortTxsWithSalt (ext_envelope ext) ?txs ?salt = ?txs"
    by (rule SortTxsWithSalt_perm [OF perm])
  moreover have "?txs = [] \<longleftrightarrow> blk_Txs block = []"
    using perm by (metis mset_zero_iff)
  ultimately have "IsOrderedWithSalt (ext_envelope ext) ?txs ?salt" and "DA_Verify (blk_Header (prop_Block p)) ?txs = None"
    using assms(8) p by (auto simp: IsOrderedWithSalt_iff DA_Verify_def)
  moreover have "\<not> (0 < qc_Height q \<and> qc_BlockHash q \<noteq> hdr_PreviousBlockHash (blk_Header (prop_Block p)))"
    using assms(7) p by auto
  ultimately show ?thesis
    using known turn p assms(2-4,6) by (simp add: validateProposal_def Let_def not_less)
qed

theorem created_proposal_validates_witness:
  "validateProposal ex_ext ex_certified (ex_sign (ex_unsigned 2 0 ''v1'' 12 (ex_qc 1 0 11 ''v0,v1,v2'' 3))) = None"
proof -
  let ?p = "ex_unsigned 2 0 ''v1'' 12 (ex_qc 1 0 11 ''v0,v1,v2'' 3)"
  have "CreateProposal ex_ext ex_certified (ex_block 2 0 12) 0 ''v1'' zeroQC = Inr ?p"
    by (simp add: ex_certified_def eval_all eval_network)
  moreover have "verifyProposalSignature ex_certified (ex_sign ?p) = None"
    using ex_sig_verifies [of ex_certified "''v1''" DomainConsensusProposal]
    by (simp only: verifyProposalSignature_def ex_proposal_simps)
       (simp add: DomainConsensusProposal_def ex_certified_def eval_all)
  ultimately show ?thesis
    by (intro created_proposal_validates [of ex_ext ex_certified "ex_block 2 0 12" 0 "''v1''" zeroQC ?p])
       (simp_all add: ex_sign_def, simp_all add: ex_unsigned_def ex_qc_def)
qed

section \<open>Where the protocol fails\<close>


text \<open>The two forks: \<open>11\<close>, \<open>12\<close>, \<open>13\<close> and \<open>21\<close>, \<open>22\<close>, \<open>23\<close>.\<close>

definition block11 :: message where
  "block11 = ProposalMsg (ex_sign (ex_unsigned 1 0 ''v0'' 11 zeroQC))"

definition block12 :: message where
  "block12 = ProposalMsg (ex_sign (ex_unsigned 2 0 ''v1'' 12 (ex_qc 1 0 11 ''v0,v1,v2'' 3)))"

definition block21 :: message where
  "block21 = ProposalMsg (ex_sign (ex_unsigned 1 3 ''v3'' 21 zeroQC))"

definition block22 :: message where
  "block22 = ProposalMsg (ex_sign (ex_unsigned 2 2 ''v3'' 22 (ex_qc 1 3 21 ''v0,v2,v3'' 3)))"

definition fork_actions :: "(ValidatorID \<times> action) list" where
  "fork_actions =
    [(''v0'', Create 1 11 0), (''v0'', Cast 1 0 11),
     (''v1'', Receive block11), (''v1'', Cast 1 0 11),
     (''v2'', Receive block11), (''v2'', Cast 1 0 11),
     (''v1'', Receive (VoteMsg (ex_vote 1 0 11 ''v0''))), (''v1'', Receive (VoteMsg (ex_vote 1 0 11 ''v2''))),
     (''v3'', Create 1 21 3), (''v3'', Cast 1 3 21),
     (''v0'', Receive block21), (''v0'', Cast 1 3 21),
     (''v2'', Receive block21), (''v2'', Cast 1 3 21),
     (''v3'', Receive (VoteMsg (ex_vote 1 3 21 ''v0''))), (''v3'', Receive (VoteMsg (ex_vote 1 3 21 ''v2''))),
     (''v1'', Create 2 12 0), (''v1'', Cast 2 0 12),
     (''v0'', Receive block12), (''v0'', Cast 2 0 12),
     (''v2'', Receive block12), (''v2'', Cast 2 0 12),
     (''v2'', Receive (VoteMsg (ex_vote 2 0 12 ''v0''))), (''v2'', Receive (VoteMsg (ex_vote 2 0 12 ''v1''))),
     (''v2'', Create 3 13 0),
     (''v3'', Create 2 22 2), (''v3'', Cast 2 2 22),
     (''v0'', Receive block22), (''v0'', Cast 2 2 22),
     (''v1'', Receive block22), (''v1'', Cast 2 2 22),
     (''v3'', Receive (VoteMsg (ex_vote 2 2 22 ''v0''))), (''v3'', Receive (VoteMsg (ex_vote 2 2 22 ''v1''))),
     (''v3'', Create 3 23 1)]"



definition ex_timeout :: "Height \<Rightarrow> Round \<Rightarrow> ValidatorID \<Rightarrow> TimeoutVote" where
  "ex_timeout h r i =
     (let v = \<lparr>tv_Height = h, tv_Round = r, tv_ValidatorID = i, tv_HighQC = zeroQC, tv_Signature = []\<rparr>
      in v\<lparr>tv_Signature := ex_sig DomainConsensusTimeoutVote i (TimeoutVoteSignBytes v)\<rparr>)"

lemma ex_timeout_simps [simp]:
  "tv_Height (ex_timeout h r i) = h" "tv_Round (ex_timeout h r i) = r"
  "tv_ValidatorID (ex_timeout h r i) = i" "tv_HighQC (ex_timeout h r i) = zeroQC"
  "tv_Signature (ex_timeout h r i) = ex_sig DomainConsensusTimeoutVote i (TimeoutVoteSignBytes (ex_timeout h r i))"
  by (simp_all add: ex_timeout_def Let_def TimeoutVoteSignBytes_def)

lemma ex_timeout_verifies:
  "accepts (sm_signatures m) i \<Longrightarrow> sm_validatorSet m = ex_set
     \<Longrightarrow> i \<in> {''v0'', ''v1'', ''v2'', ''v3''} \<Longrightarrow> verifyTimeoutVoteSignature m (ex_timeout h r i) = None"
  by (simp only: verifyTimeoutVoteSignature_def)
     (subst ex_timeout_simps(5), subst ex_timeout_simps(3), rule ex_sig_verifies,
      simp_all add: DomainConsensusTimeoutVote_def)

lemma ex_timeout_ensure: "sm_signatures m = Some verify \<Longrightarrow> ensureTimeoutVoteSignature m v = v"
  by (simp add: ensureTimeoutVoteSignature_def)

lemma ex_timeout_sig: "ex_sig DomainConsensusTimeoutVote i sb \<noteq> []"
  by (simp add: ex_sig_def DomainMessage_def DomainConsensusTimeoutVote_def)

lemmas eval_timeout = OnTimeoutVote_def ex_timeout_verifies ex_timeout_ensure AddVote_def BuildTimeoutCert_def
  AdvanceRound_def ex_timeout_sig

text \<open>
  A late timeout moves a machine back.  After a machine accepted a proposal of height 2, a quorum of
  timeout votes for height 1 sets its height back to 1: the pacemaker is not told of the heights that
  proposals reach.
\<close>

theorem late_timeout_lowers_height:
  "\<exists>m m'. reachable ex_keys m \<and> machine_step ex_keys m m'
     \<and> st_Height (sm_status m) = 2 \<and> st_Height (sm_status m') = 1"
proof -
  let ?m0 = "StartRound (ex_machine_with ex_verify) 1 0"
  let ?m1 = "fst (OnProposal ex_ext (fst (OnProposal ex_ext ?m0
     None (ex_sign (ex_unsigned 1 0 ''v0'' 11 zeroQC))))
     None (ex_sign (ex_unsigned 2 0 ''v1'' 12 (ex_qc 1 0 11 ''v0,v1,v2'' 3))))"
  let ?m = "fst (OnTimeoutVote ex_ext (fst (OnTimeoutVote ex_ext ?m1
     None (ex_timeout 1 0 ''v0''))) None (ex_timeout 1 0 ''v1''))"
  let ?m' = "fst (OnTimeoutVote ex_ext ?m None (ex_timeout 1 0 ''v2''))"
  have "reachable ex_keys ?m"
    by (intro reach_step [OF _ step_timeout] reach_step [OF _ step_proposal] reach_step [OF _ step_start]
          ex_machine_reachable)
  moreover have "machine_step ex_keys ?m ?m'"
    by (rule step_timeout)
  moreover have "st_Height (sm_status ?m) = 2"
    by (simp add: eval_all eval_timeout StartRound_def NewPacemaker_def)
  moreover have "st_Height (sm_status ?m') = 1"
    by (simp add: eval_all eval_timeout StartRound_def NewPacemaker_def)
  ultimately show ?thesis
    by blast
qed

end
