(* ===== verification/Signatures.thy ===== *)
theory Signatures
  imports Encoding
begin

text \<open>
  The signature schemes a node can run with: \<^verbatim>\<open>crypto/ed25519.go\<close> and \<^verbatim>\<open>crypto/deterministic.go\<close>.  The
  Ed25519 primitive of the Go library is a parameter.  Consensus and light clients rely on four laws
  of a scheme, stated as a locale; both schemes are shown to have them.
\<close>

section \<open>The contract of a signature scheme\<close>

text \<open>
  Signatures that verify one by one aggregate to a signature that verifies, an aggregate that verifies
  comes from signatures that verify one by one, and neither an aggregate nor a signature that verifies is
  empty.
\<close>

locale signature_scheme =
  fixes verify :: "PublicKey \<Rightarrow> bytes \<Rightarrow> Signature \<Rightarrow> bool"
    and aggregate :: "Signature list \<Rightarrow> crypto_error + AggregateSignature"
    and verifyAggregate :: aggregate_verifier
  assumes aggregate_verifies:
      "aggregate sigs = Inr a \<Longrightarrow> list_all2 (\<lambda>pk sig. verify pk m sig) pks sigs \<Longrightarrow> verifyAggregate pks m a"
    and aggregate_splits:
      "verifyAggregate pks m a \<Longrightarrow>
         \<exists>sigs. aggregate sigs = Inr a \<and> list_all2 (\<lambda>pk sig. verify pk m sig) pks sigs"
    and aggregate_nonempty: "aggregate sigs = Inr a \<Longrightarrow> a \<noteq> []"
    and signature_nonempty: "verify pk m sig \<Longrightarrow> sig \<noteq> []"

section \<open>Errors\<close>

definition ErrEmptySignature :: crypto_error where
  "ErrEmptySignature = OtherCryptoError ''signature is empty''"

definition ErrEmptyPrivateKey :: crypto_error where
  "ErrEmptyPrivateKey = OtherCryptoError ''private key is empty''"

definition ErrInvalidEd25519PrivateKey :: crypto_error where
  "ErrInvalidEd25519PrivateKey = OtherCryptoError ''invalid ed25519 private key''"

definition ErrInvalidEd25519PublicKey :: crypto_error where
  "ErrInvalidEd25519PublicKey = OtherCryptoError ''invalid ed25519 public key''"

section \<open>Ed25519 (ed25519.go)\<close>

text \<open>
  What the file uses of \<^verbatim>\<open>crypto/ed25519\<close>: the sizes, the public part of a private key, signing and
  verification.  The library function \<^verbatim>\<open>Verify\<close> panics on a public key of the wrong size; \<open>None\<close> is a panic.
\<close>

record ed25519_lib =
  lib_Public :: "bytes \<Rightarrow> bytes"
  lib_Sign :: "bytes \<Rightarrow> bytes \<Rightarrow> bytes"
  lib_Verify :: "bytes \<Rightarrow> bytes \<Rightarrow> bytes \<Rightarrow> bool"

definition PrivateKeySize :: nat where
  "PrivateKeySize = 64"

definition PublicKeySize :: nat where
  "PublicKeySize = 32"

definition SignatureSize :: nat where
  "SignatureSize = 64"

definition ed25519_Verify :: "ed25519_lib \<Rightarrow> bytes \<Rightarrow> bytes \<Rightarrow> bytes \<Rightarrow> bool option" where
  "ed25519_Verify lib publicKey message sig =
     (if length publicKey \<noteq> PublicKeySize then None else Some (lib_Verify lib publicKey message sig))"

record Ed25519Signer =
  ed_privateKey :: bytes
  ed_publicKey :: bytes

definition NewEd25519Signer :: "ed25519_lib \<Rightarrow> bytes \<Rightarrow> bytes \<Rightarrow> crypto_error + Ed25519Signer" where
  "NewEd25519Signer lib privateKey publicKey =
     (if length privateKey \<noteq> PrivateKeySize then Inl ErrInvalidEd25519PrivateKey
      else if length publicKey \<noteq> PublicKeySize then Inl ErrInvalidEd25519PublicKey
      else if lib_Public lib privateKey \<noteq> publicKey then Inl ErrInvalidEd25519PublicKey
      else Inr \<lparr>ed_privateKey = privateKey, ed_publicKey = publicKey\<rparr>)"

definition Ed25519Signer_PublicKey :: "Ed25519Signer \<Rightarrow> PublicKey" where
  "Ed25519Signer_PublicKey signer = ed_publicKey signer"

definition Ed25519Signer_Sign :: "ed25519_lib \<Rightarrow> Ed25519Signer \<Rightarrow> bytes \<Rightarrow> crypto_error + Signature" where
  "Ed25519Signer_Sign lib signer message =
     (if length (ed_privateKey signer) \<noteq> PrivateKeySize then Inl ErrInvalidEd25519PrivateKey
      else Inr (lib_Sign lib (ed_privateKey signer) message))"

text \<open>The size checks come first, so this verification does not panic.\<close>

definition Ed25519Signer_Verify :: "ed25519_lib \<Rightarrow> PublicKey \<Rightarrow> bytes \<Rightarrow> Signature \<Rightarrow> bool" where
  "Ed25519Signer_Verify lib publicKey message sig =
     (if length publicKey \<noteq> PublicKeySize then False
      else if length sig \<noteq> SignatureSize then False
      else lib_Verify lib publicKey message sig)"

text \<open>The loop over the keys; its state is the part of the signature that is not yet read.\<close>

fun multiVerifyLoop :: "ed25519_lib \<Rightarrow> PublicKey list \<Rightarrow> bytes \<Rightarrow> AggregateSignature \<Rightarrow> bool option" where
  "multiVerifyLoop lib [] message sig = Some True"
| "multiVerifyLoop lib (publicKey # publicKeys) message sig =
     (case ed25519_Verify lib publicKey message (take SignatureSize sig) of
        None \<Rightarrow> None
      | Some False \<Rightarrow> Some False
      | Some True \<Rightarrow> multiVerifyLoop lib publicKeys message (drop SignatureSize sig))"

definition Ed25519MultiVerifier_VerifyAggregate ::
    "ed25519_lib \<Rightarrow> PublicKey list \<Rightarrow> bytes \<Rightarrow> AggregateSignature \<Rightarrow> bool option" where
  "Ed25519MultiVerifier_VerifyAggregate lib publicKeys message sig =
     (if publicKeys = [] then Some False
      else if length sig \<noteq> length publicKeys * SignatureSize then Some False
      else multiVerifyLoop lib publicKeys message sig)"

definition CombineEd25519Signatures :: "Signature list \<Rightarrow> crypto_error + AggregateSignature" where
  "CombineEd25519Signatures signatures =
     (if signatures = [] then Inl ErrEmptySignature
      else if list_ex (\<lambda>sig. length sig \<noteq> SignatureSize) signatures then Inl ErrEmptySignature
      else Inr (concat signatures))"

definition Ed25519SignatureAggregator_Aggregate :: "Signature list \<Rightarrow> crypto_error + AggregateSignature" where
  "Ed25519SignatureAggregator_Aggregate signatures = CombineEd25519Signatures signatures"

section \<open>The deterministic scheme (deterministic.go)\<close>

record DeterministicSigner =
  det_privateKey :: bytes
  det_publicKey :: PublicKey

definition derivePublicKey :: "bytes \<Rightarrow> PublicKey" where
  "derivePublicKey privateKey = hash_bytes (sha256 privateKey)"

definition signWithPublicKey :: "PublicKey \<Rightarrow> bytes \<Rightarrow> Signature" where
  "signWithPublicKey publicKey message = hash_bytes (sha256 (publicKey @ message))"

definition NewDeterministicSigner :: "bytes \<Rightarrow> crypto_error + DeterministicSigner" where
  "NewDeterministicSigner privateKey =
     (if privateKey = [] then Inl ErrEmptyPrivateKey
      else Inr \<lparr>det_privateKey = privateKey, det_publicKey = derivePublicKey privateKey\<rparr>)"

definition DeterministicSigner_Sign :: "DeterministicSigner \<Rightarrow> bytes \<Rightarrow> crypto_error + Signature" where
  "DeterministicSigner_Sign signer message =
     (if det_privateKey signer = [] then Inl ErrEmptyPrivateKey
      else Inr (signWithPublicKey (det_publicKey signer) message))"

definition DeterministicSigner_Verify :: "PublicKey \<Rightarrow> bytes \<Rightarrow> Signature \<Rightarrow> bool" where
  "DeterministicSigner_Verify publicKey message sig =
     (if publicKey = [] \<or> sig = [] then False else signWithPublicKey publicKey message = sig)"

definition DeterministicAggregateSigner_Aggregate :: "Signature list \<Rightarrow> crypto_error + AggregateSignature" where
  "DeterministicAggregateSigner_Aggregate signatures =
     (if signatures = [] then Inl ErrEmptySignature
      else if list_ex (\<lambda>sig. sig = []) signatures then Inl ErrEmptySignature
      else Inr (hash_bytes (sha256 (concat signatures))))"

definition DeterministicAggregateSigner_VerifyAggregate ::
    "PublicKey list \<Rightarrow> bytes \<Rightarrow> AggregateSignature \<Rightarrow> bool" where
  "DeterministicAggregateSigner_VerifyAggregate publicKeys message sig =
     (if publicKeys = [] \<or> sig = [] then False
      else if list_ex (\<lambda>publicKey. publicKey = []) publicKeys then False
      else
        case DeterministicAggregateSigner_Aggregate (map (\<lambda>pk. signWithPublicKey pk message) publicKeys) of
          Inl e \<Rightarrow> False
        | Inr expected \<Rightarrow> expected = sig)"

section \<open>Both schemes satisfy the contract\<close>

lemma multiVerifyLoop_concat:
  assumes "list_all2 (\<lambda>pk sig. Ed25519Signer_Verify lib pk m sig) pks sigs"
  shows "multiVerifyLoop lib pks m (concat sigs) = Some True \<and> length (concat sigs) = length pks * SignatureSize"
  using assms
proof (induction rule: list_all2_induct)
  case (Cons pk pks sig sigs)
  then show ?case
    by (auto simp: Ed25519Signer_Verify_def ed25519_Verify_def split: if_splits)
qed simp

lemma multiVerifyLoop_splits:
  assumes "multiVerifyLoop lib pks m sig = Some True" and "length sig = length pks * SignatureSize"
  shows "\<exists>sigs. concat sigs = sig \<and> list_all2 (\<lambda>pk s. Ed25519Signer_Verify lib pk m s) pks sigs"
  using assms
proof (induction pks arbitrary: sig)
  case (Cons pk pks)
  let ?s = "take SignatureSize sig"
  have s: "length ?s = SignatureSize"
    using Cons.prems(2) by simp
  have ok: "Ed25519Signer_Verify lib pk m ?s" and rest: "multiVerifyLoop lib pks m (drop SignatureSize sig) = Some True"
    using Cons.prems(1) s by (auto simp: Ed25519Signer_Verify_def ed25519_Verify_def split: if_splits bool.splits)
  have "length (drop SignatureSize sig) = length pks * SignatureSize"
    using Cons.prems(2) by simp
  from Cons.IH [OF rest this] obtain sigs where "concat sigs = drop SignatureSize sig"
    "list_all2 (\<lambda>pk s. Ed25519Signer_Verify lib pk m s) pks sigs"
    by blast
  with ok show ?case
    by (intro exI [of _ "?s # sigs"]) simp
qed simp

lemma Combine_iff:
  "CombineEd25519Signatures sigs = Inr a \<longleftrightarrow>
     sigs \<noteq> [] \<and> list_all (\<lambda>s. length s = SignatureSize) sigs \<and> a = concat sigs"
  by (auto simp: CombineEd25519Signatures_def list_all_iff list_ex_iff)

definition ed25519_aggregate_verifier :: "ed25519_lib \<Rightarrow> aggregate_verifier" where
  "ed25519_aggregate_verifier lib pks m a \<longleftrightarrow> Ed25519MultiVerifier_VerifyAggregate lib pks m a = Some True"

lemma verified_sizes:
  "list_all2 (\<lambda>pk s. Ed25519Signer_Verify lib pk m s) pks sigs \<Longrightarrow> list_all (\<lambda>s. length s = SignatureSize) sigs"
  by (induction rule: list_all2_induct) (auto simp: Ed25519Signer_Verify_def split: if_splits)

interpretation ed25519: signature_scheme "Ed25519Signer_Verify lib" Ed25519SignatureAggregator_Aggregate
  "ed25519_aggregate_verifier lib"
proof
  fix sigs a m pks
  assume "Ed25519SignatureAggregator_Aggregate sigs = Inr a"
    and v: "list_all2 (\<lambda>pk sig. Ed25519Signer_Verify lib pk m sig) pks sigs"
  then have "sigs \<noteq> []" "a = concat sigs"
    by (simp_all add: Ed25519SignatureAggregator_Aggregate_def Combine_iff)
  with multiVerifyLoop_concat [OF v] list_all2_lengthD [OF v]
  show "ed25519_aggregate_verifier lib pks m a"
    by (auto simp: ed25519_aggregate_verifier_def Ed25519MultiVerifier_VerifyAggregate_def)
next
  fix pks m a
  assume "ed25519_aggregate_verifier lib pks m a"
  then have ne: "pks \<noteq> []" and l: "multiVerifyLoop lib pks m a = Some True" "length a = length pks * SignatureSize"
    by (auto simp: ed25519_aggregate_verifier_def Ed25519MultiVerifier_VerifyAggregate_def split: if_splits)
  from multiVerifyLoop_splits [OF l] obtain sigs where s: "concat sigs = a"
    "list_all2 (\<lambda>pk s. Ed25519Signer_Verify lib pk m s) pks sigs"
    by blast
  with ne verified_sizes [OF s(2)] list_all2_lengthD [OF s(2)]
  show "\<exists>sigs. Ed25519SignatureAggregator_Aggregate sigs = Inr a
      \<and> list_all2 (\<lambda>pk sig. Ed25519Signer_Verify lib pk m sig) pks sigs"
    by (intro exI [of _ sigs]) (auto simp: Ed25519SignatureAggregator_Aggregate_def Combine_iff)
next
  fix sigs a
  assume "Ed25519SignatureAggregator_Aggregate sigs = Inr a"
  then show "a \<noteq> []"
    by (cases sigs) (auto simp: Ed25519SignatureAggregator_Aggregate_def Combine_iff SignatureSize_def)
next
  fix pk m and sig :: Signature
  assume "Ed25519Signer_Verify lib pk m sig"
  then show "sig \<noteq> []"
    by (auto simp: Ed25519Signer_Verify_def SignatureSize_def split: if_splits)
qed

lemma hash_bytes_nonempty [simp]: "hash_bytes h \<noteq> []" "[] \<noteq> hash_bytes h"
  by (metis length_hash_bytes list.size(3) zero_neq_numeral)+

lemma signWithPublicKey_nonempty [simp]: "signWithPublicKey pk m \<noteq> []" "[] \<noteq> signWithPublicKey pk m"
  by (simp_all add: signWithPublicKey_def)

lemma deterministic_signatures:
  "list_all2 (\<lambda>pk s. DeterministicSigner_Verify pk m s) pks sigs \<longleftrightarrow>
     list_all (\<lambda>pk. pk \<noteq> []) pks \<and> sigs = map (\<lambda>pk. signWithPublicKey pk m) pks"
proof (induction pks arbitrary: sigs)
  case (Cons pk pks)
  then show ?case
    by (cases sigs) (auto simp: DeterministicSigner_Verify_def)
qed auto

lemma deterministic_aggregate:
  "DeterministicAggregateSigner_Aggregate sigs = Inr a \<longleftrightarrow>
     sigs \<noteq> [] \<and> list_all (\<lambda>s. s \<noteq> []) sigs \<and> a = hash_bytes (sha256 (concat sigs))"
  by (auto simp: DeterministicAggregateSigner_Aggregate_def list_all_iff list_ex_iff)

lemma deterministic_nonempty: "DeterministicSigner_Verify pk m sig \<Longrightarrow> sig \<noteq> []"
  by (auto simp: DeterministicSigner_Verify_def)

lemma deterministic_verify:
  "DeterministicAggregateSigner_VerifyAggregate pks m a \<longleftrightarrow>
     pks \<noteq> [] \<and> list_all (\<lambda>pk. pk \<noteq> []) pks
     \<and> DeterministicAggregateSigner_Aggregate (map (\<lambda>pk. signWithPublicKey pk m) pks) = Inr a"
  by (auto simp: DeterministicAggregateSigner_VerifyAggregate_def DeterministicAggregateSigner_Aggregate_def
      list_all_iff list_ex_iff)

interpretation deterministic: signature_scheme DeterministicSigner_Verify DeterministicAggregateSigner_Aggregate
  DeterministicAggregateSigner_VerifyAggregate
  by unfold_locales
     (auto simp: deterministic_signatures deterministic_verify deterministic_aggregate
      dest: deterministic_nonempty)

end
