(* ===== verification/Certificates.thy ===== *)
theory Certificates
  imports MachineInvariant Signatures
begin

text \<open>
  Certificates between components: the consensus state machine builds them from votes, a light client
  verifies them (\<^verbatim>\<open>consensus/state_machine.go\<close>, \<^verbatim>\<open>finality/verifier.go\<close>).  For every signature scheme with the
  laws of \<open>signature_scheme\<close>, the machine's certificates verify, and a verified certificate contains a
  signature of each of its signers.
\<close>

section \<open>How a certificate is put together\<close>

lemma buildQuorumCert_parts:
  assumes inv: "votes_inv m" and run: "buildQuorumCert m h r b = Inr qc"
  obtains votes f where "qc_Height qc = h" and "qc_Round qc = r" and "qc_BlockHash qc = b"
    and "qc_Signers qc = EncodeSigners (map fst votes)" and "distinct (map fst votes)"
    and "list_all (\<lambda>(i, sig). Set_Get (sm_validatorSet m) i \<noteq> None
           \<and> (\<exists>v. sm_votedVotes m h r i = Some v \<and> vote_BlockHash v = b \<and> vote_Signature v = sig)) votes"
    and "sm_aggregator m = Some f" and "f (map snd votes) = Inr (qc_Signature qc)"
    and "unat (qc_VotingPower qc) = signers_power (Set_Get (sm_validatorSet m)) (map fst votes)"
    and "hasQuorum (qc_VotingPower qc) (Set_TotalVotingPower (sm_validatorSet m))"
proof -
  let ?s = "sm_validatorSet m" and ?votes = "sm_votes m h r b"
  let ?known = "filter (\<lambda>(i, v). Set_Get ?s i \<noteq> None) ?votes"
  from run obtain p acc signers signature where
    t: "tallyVotes ?s vote_Signature (\<lambda>_ u. u) ?votes 0 () [] = Inr (p, (), acc)"
    and c: "certify ?s (sm_aggregator m) p acc = Inr (signers, signature)"
    and qc: "qc = \<lparr>qc_Height = h, qc_Round = r, qc_BlockHash = b, qc_Signers = signers,
                   qc_Signature = signature, qc_VotingPower = p\<rparr>"
    by (auto simp: buildQuorumCert_def votesForBlock_def Let_def split: if_splits sum.splits)
  have acc: "acc = map (\<lambda>(i, v). (i, vote_Signature v)) ?known"
    and p: "unat p = signers_power (Set_Get ?s) (map fst ?votes)"
    using tallyVotes_Inr [OF t] by simp_all
  let ?v = "sort_key fst acc"
  have ids: "map fst acc = filter (\<lambda>i. Set_Get ?s i \<noteq> None) (map fst ?votes)"
    unfolding acc by (simp add: filter_map comp_def split_def)
  have "map fst ?v = sort (map fst acc)"
    by (rule properties_for_sort [symmetric]) simp_all
  then have "distinct (map fst ?v)" "mset (map fst ?v) = mset (map fst acc)"
    using votes_inv_distinct [OF inv, of h r b] by (simp_all add: ids)
  moreover have "signers_power (Set_Get ?s) (map fst ?v) = unat p"
    unfolding p using signers_power_mset [OF calculation(2)] by (simp only: ids signers_power_known)
  moreover have "list_all (\<lambda>(i, sig). Set_Get ?s i \<noteq> None
      \<and> (\<exists>v. sm_votedVotes m h r i = Some v \<and> vote_BlockHash v = b \<and> vote_Signature v = sig)) ?v"
    unfolding list_all_iff set_sort acc using votes_inv_stored [OF inv] by fastforce
  moreover obtain f where "sm_aggregator m = Some f" "f (map snd ?v) = Inr signature"
    "signers = EncodeSigners (map fst ?v)" "hasQuorum p (Set_TotalVotingPower ?s)"
    using certify_Inr [OF c] \<open>map fst ?v = sort (map fst acc)\<close> by auto
  ultimately show ?thesis
    using that [of ?v f] unfolding qc by simp
qed

text \<open>
  The validators of a machine have one key each in the history, and names that fit into a signer list.
\<close>

definition keys_fixed :: "key_history \<Rightarrow> setSnapshot \<Rightarrow> bool" where
  "keys_fixed K s \<longleftrightarrow> (\<forall>i v pk. Set_Get s i = Some v \<longrightarrow> K i pk \<longrightarrow> pk = val_PublicKey v)"

definition names_ok :: "setSnapshot \<Rightarrow> bool" where
  "names_ok s \<longleftrightarrow> (\<forall>i. Set_Get s i \<noteq> None \<longrightarrow> signer_ok i)"

text \<open>The domain wrapper of a verifier.\<close>

definition vote_message :: "Height \<Rightarrow> Round \<Rightarrow> hash \<Rightarrow> bytes" where
  "vote_message h r b = projr (DomainMessage DomainConsensusVote (signbytes_Vote h r b))"

lemma vote_message: "DomainMessage DomainConsensusVote (signbytes_Vote h r b) = Inr (vote_message h r b)"
  by (simp add: vote_message_def DomainMessage_def DomainConsensusVote_def)

lemma NewVerifier_fields:
  "vf_validatorSet (NewVerifier s f) = s"
  "vf_signatures (NewVerifier s (Some va)) =
     Some (\<lambda>pks m sig. case DomainMessage DomainConsensusVote m of Inl _ \<Rightarrow> False | Inr m' \<Rightarrow> va pks m' sig)"
  by (simp_all add: NewVerifier_def newVerifier_def NewDomainAggregateVerifier_def DomainConsensusVote_def
      DomainAggregateVerifier_VerifyAggregate_def fun_eq_iff cong: sum.case_cong)

lemma list_all2_signers:
  "list_all (\<lambda>(i, sig). P (f i) sig) votes \<Longrightarrow> list_all2 P (map f (map fst votes)) (map snd votes)"
  by (induction votes) auto

lemma list_all2_signers_iff:
  "list_all2 P (map f ids) sigs \<longleftrightarrow> length sigs = length ids \<and> list_all (\<lambda>(i, sig). P (f i) sig) (zip ids sigs)"
proof (induction ids arbitrary: sigs)
  case (Cons i ids)
  then show ?case
    by (cases sigs) auto
qed auto

section \<open>For every signature scheme\<close>

context signature_scheme
begin

lemma certificate_verifies:
  assumes reach: "reachable K m" and sig: "sm_signatures m = Some verify"
    and agg: "sm_aggregator m = Some aggregate"
    and keys: "keys_fixed K (sm_validatorSet m)" and names: "names_ok (sm_validatorSet m)"
    and run: "buildQuorumCert m h r b = Inr qc"
  shows "verifyQuorumCert (NewVerifier (sm_validatorSet m) (Some verifyAggregate)) None qc h b (signbytes_Vote h r b) = None"
proof -
  let ?s = "sm_validatorSet m" and ?key = "\<lambda>i. val_PublicKey (the (Set_Get (sm_validatorSet m) i))"
  note inv = machine_inv_parts [OF reachable_inv [OF reach]]
  obtain votes f where head: "qc_Height qc = h" "qc_Round qc = r" "qc_BlockHash qc = b"
    and ids: "qc_Signers qc = EncodeSigners (map fst votes)" "distinct (map fst votes)"
    and votes: "list_all (\<lambda>(i, sig). Set_Get ?s i \<noteq> None
      \<and> (\<exists>v. sm_votedVotes m h r i = Some v \<and> vote_BlockHash v = b \<and> vote_Signature v = sig)) votes"
    and f: "sm_aggregator m = Some f" "f (map snd votes) = Inr (qc_Signature qc)"
    and pow: "unat (qc_VotingPower qc) = signers_power (Set_Get ?s) (map fst votes)"
    and quo: "hasQuorum (qc_VotingPower qc) (Set_TotalVotingPower ?s)"
    by (rule buildQuorumCert_parts [OF inv(2) run])
  have known: "list_all (\<lambda>i. Set_Get ?s i \<noteq> None) (map fst votes)"
    using votes by (fastforce simp: list_all_iff)
  have "list_all signer_ok (map fst votes)"
    using known names unfolding names_ok_def list_all_iff by blast
  note parse = ParseSigners_EncodeSigners [OF this]
  have "list_all (\<lambda>(i, sig). verify (?key i) (vote_message h r b) sig) votes"
    unfolding list_all_iff
  proof clarify
    fix i sig assume "(i, sig) \<in> set votes"
    with votes obtain w v where w: "Set_Get ?s i = Some w" and v: "sm_votedVotes m h r i = Some v"
      "vote_BlockHash v = b" "vote_Signature v = sig"
      by (fastforce simp: list_all_iff)
    from votes_inv_voted [OF inv(2) v(1)] auth_inv_parts(1) [OF inv(3) v(1)] obtain pk where
      "K i pk" "verify pk (vote_message h r b) sig"
      by (auto simp: vote_ok_def authentic_def \<open>sm_signatures m = Some verify\<close> VoteSignBytes_def v vote_message)
    with keys w show "verify (?key i) (vote_message h r b) sig"
      by (auto simp: keys_fixed_def)
  qed
  then have "list_all2 (\<lambda>pk sig. verify pk (vote_message h r b) sig) (map ?key (map fst votes)) (map snd votes)"
    by (rule list_all2_signers [where P = "\<lambda>pk sig. verify pk (vote_message h r b) sig"])
  from aggregate_verifies [OF _ this] f agg
  have "verifyAggregate (map ?key (map fst votes)) (vote_message h r b) (qc_Signature qc)"
    by simp
  moreover have "qc_Signature qc \<noteq> []"
    using f agg aggregate_nonempty by auto
  moreover have "signers_power (Set_Get ?s) (map fst votes) < 2 ^ 64"
    using unsigned_less [of "qc_VotingPower qc", where ?'a = nat] by (simp add: pow)
  ultimately have "qc_valid ?s (vf_signatures (NewVerifier ?s (Some verifyAggregate))) qc h b (signbytes_Vote h r b)"
    unfolding qc_valid_def
    using head ids parse known pow quo
    by (intro conjI exI [of _ "map fst votes"])
       (simp_all add: NewVerifier_fields vote_message hasQuorum_def HasTwoThirdsQuorum_iff)
  with verifyQuorumCert_complete [of "NewVerifier ?s (Some verifyAggregate)"] show ?thesis
    by (simp only: NewVerifier_fields)
qed

lemma certificate_signed:
  assumes "verifyQuorumCert (NewVerifier s (Some verifyAggregate)) None qc h b (signbytes_Vote h r b) = None"
  shows "\<exists>ids sigs. ParseSigners (qc_Signers qc) = Inr ids \<and> distinct ids \<and> length sigs = length ids
    \<and> 2 * unat (Set_TotalVotingPower s) \<le> 3 * signers_power (Set_Get s) ids
    \<and> list_all (\<lambda>(i, sig). \<exists>v. Set_Get s i = Some v \<and> verify (val_PublicKey v) (vote_message h r b) sig) (zip ids sigs)
    \<and> aggregate sigs = Inr (qc_Signature qc)"
proof -
  let ?key = "\<lambda>i. val_PublicKey (the (Set_Get s i))"
  from verifyQuorumCert_sound [OF assms] obtain ids where ids: "ParseSigners (qc_Signers qc) = Inr ids" "distinct ids"
    "list_all (\<lambda>i. Set_Get s i \<noteq> None) ids" "2 * unat (Set_TotalVotingPower s) \<le> 3 * signers_power (Set_Get s) ids"
    and v: "verifyAggregate (map ?key ids) (vote_message h r b) (qc_Signature qc)"
    by (auto simp: qc_valid_def NewVerifier_fields vote_message)
  from aggregate_splits [OF v] obtain sigs where s: "aggregate sigs = Inr (qc_Signature qc)"
    "length sigs = length ids" "list_all (\<lambda>(i, sig). verify (?key i) (vote_message h r b) sig) (zip ids sigs)"
    by (auto simp: list_all2_signers_iff)
  moreover have "list_all (\<lambda>(i, sig). \<exists>v. Set_Get s i = Some v \<and> verify (val_PublicKey v) (vote_message h r b) sig)
      (zip ids sigs)"
    using s(3) ids(3) unfolding list_all_iff by (fastforce dest: set_zip_leftD)
  ultimately show ?thesis
    using ids by blast
qed

text \<open>
  Two verified certificates for different blocks of one round: validators with a third of the power have
  signed both votes.
\<close>

lemma conflicting_certificates:
  assumes "snapshot_wf s"
    and "verifyQuorumCert (NewVerifier s (Some verifyAggregate)) None qc h b (signbytes_Vote h r b) = None"
    and "verifyQuorumCert (NewVerifier s (Some verifyAggregate)) None qc' h b' (signbytes_Vote h r b') = None"
  shows "\<exists>ids. distinct ids \<and> unat (Set_TotalVotingPower s) \<le> 3 * signers_power (Set_Get s) ids
    \<and> list_all (\<lambda>i. \<exists>info sig sig'. Set_Get s i = Some info \<and> sig \<noteq> [] \<and> sig' \<noteq> []
         \<and> verify (val_PublicKey info) (vote_message h r b) sig
         \<and> verify (val_PublicKey info) (vote_message h r b') sig') ids"
proof -
  have signer: "\<exists>sig. Set_Get s i = Some (the (Set_Get s i)) \<and> sig \<noteq> []
      \<and> verify (val_PublicKey (the (Set_Get s i))) (vote_message h r b) sig"
    if "length sigs = length ids" "i \<in> set ids" "list_all (\<lambda>(i, sig). \<exists>v. Set_Get s i = Some v
      \<and> verify (val_PublicKey v) (vote_message h r b) sig) (zip ids sigs)" for ids sigs i b
  proof -
    from that(1,2) obtain sig where "(i, sig) \<in> set (zip ids sigs)"
      by (metis in_set_impl_in_set_zip1)
    with that(3) signature_nonempty show ?thesis
      by (fastforce simp: list_all_iff)
  qed
  obtain xs sigs where xs: "distinct xs" "length sigs = length xs"
    "2 * unat (Set_TotalVotingPower s) \<le> 3 * signers_power (Set_Get s) xs"
    "list_all (\<lambda>(i, sig). \<exists>v. Set_Get s i = Some v \<and> verify (val_PublicKey v) (vote_message h r b) sig) (zip xs sigs)"
    using certificate_signed [OF assms(2)] by blast
  obtain ys sigs' where ys: "distinct ys" "length sigs' = length ys"
    "2 * unat (Set_TotalVotingPower s) \<le> 3 * signers_power (Set_Get s) ys"
    "list_all (\<lambda>(i, sig). \<exists>v. Set_Get s i = Some v \<and> verify (val_PublicKey v) (vote_message h r b') sig) (zip ys sigs')"
    using certificate_signed [OF assms(3)] by blast
  let ?ids = "filter (\<lambda>i. i \<in> set ys) xs"
  have "unat (Set_TotalVotingPower s) \<le> 3 * signers_power (Set_Get s) ?ids"
    by (rule snap.quorum_overlap [OF assms(1) xs(1) ys(1) xs(3) ys(3)])
  moreover have "list_all (\<lambda>i. \<exists>info sig sig'. Set_Get s i = Some info \<and> sig \<noteq> [] \<and> sig' \<noteq> []
      \<and> verify (val_PublicKey info) (vote_message h r b) sig
      \<and> verify (val_PublicKey info) (vote_message h r b') sig') ?ids"
    unfolding list_all_iff
  proof
    fix i assume "i \<in> set ?ids"
    then have i: "i \<in> set xs" "i \<in> set ys"
      by simp_all
    show "\<exists>info sig sig'. Set_Get s i = Some info \<and> sig \<noteq> [] \<and> sig' \<noteq> []
      \<and> verify (val_PublicKey info) (vote_message h r b) sig \<and> verify (val_PublicKey info) (vote_message h r b') sig'"
      using signer [OF xs(2) i(1) xs(4)] signer [OF ys(2) i(2) ys(4)] by blast
  qed
  ultimately show ?thesis
    using xs(1) by (intro exI [of _ ?ids]) simp
qed

end

end
