(* ===== verification/Storage.thy ===== *)
theory Storage
  imports GoStrings
begin

text \<open>
  The stores that the application executes on: the interfaces of \<^verbatim>\<open>app/app.go\<close> and \<^verbatim>\<open>kvbatch/kvbatch.go\<close>, and the
  staged store of \<^verbatim>\<open>app/staged_store.go\<close>, an overlay that collects the writes of a block over a base store.  What
  clients rely on is the locale \<open>state_store\<close>; the staged store is shown to satisfy it, and to hold exactly
  what its list of writes makes of the base.  The base store (LevelDB) is a parameter.
\<close>

section \<open>encoding/hex\<close>

definition hexDigit :: "nat \<Rightarrow> char" where
  "hexDigit n = (if n < 10 then char_of (48 + n) else char_of (87 + n))"

definition fromHexChar :: "char \<Rightarrow> nat option" where
  "fromHexChar c =
     (let n = of_char c in
      if 48 \<le> n \<and> n \<le> 57 then Some (n - 48)
      else if 97 \<le> n \<and> n \<le> 102 then Some (n - 87)
      else if 65 \<le> n \<and> n \<le> 70 then Some (n - 55)
      else None)"

definition hexEncode :: "bytes \<Rightarrow> string" where
  "hexEncode bs = concat (map (\<lambda>c. [hexDigit (of_char c div 16), hexDigit (of_char c mod 16)]) bs)"

fun hexDecode :: "string \<Rightarrow> bytes option" where
  "hexDecode [] = Some []"
| "hexDecode [c] = None"
| "hexDecode (a # b # rest) =
     (case (fromHexChar a, fromHexChar b, hexDecode rest) of
        (Some x, Some y, Some bs) \<Rightarrow> Some (char_of (16 * x + y) # bs)
      | _ \<Rightarrow> None)"

lemma fromHexChar_hexDigit:
  assumes "n < 16"
  shows "fromHexChar (hexDigit n) = Some n"
proof -
  have "of_char (char_of (48 + n)) = 48 + n" "of_char (char_of (87 + n)) = 87 + n"
    using assms by simp_all
  with assms show ?thesis
    unfolding hexDigit_def fromHexChar_def Let_def by auto
qed

lemma nibble: "(of_char (c :: char) :: nat) div 16 < 16"
proof -
  have "(of_char c :: nat) < 16 * 16"
    using nat_of_char_less_256 [of c] by simp
  then show ?thesis
    by (rule less_mult_imp_div_less)
qed

lemma hexEncode_simps [simp]:
  "hexEncode [] = []"
  "hexEncode (c # bs) = hexDigit (of_char c div 16) # hexDigit (of_char c mod 16) # hexEncode bs"
  by (simp_all add: hexEncode_def)

lemma hexDecode_hexEncode: "hexDecode (hexEncode bs) = Some bs"
proof (induction bs)
  case (Cons c bs)
  from nibble [of c] Cons show ?case
    by (simp add: fromHexChar_hexDigit)
qed simp

lemma hexEncode_inj: "hexEncode a = hexEncode b \<Longrightarrow> a = b"
  by (metis hexDecode_hexEncode option.inject)

lemma hexDigit_colon: "n < 16 \<Longrightarrow> hexDigit n \<noteq> CHR '':''"
  using fromHexChar_hexDigit [of n] by (auto simp: fromHexChar_def)

lemma hexEncode_no_colon: "CHR '':'' \<notin> set (hexEncode bs)"
proof (induction bs)
  case (Cons c bs)
  from nibble [of c] Cons hexDigit_colon [of "of_char c div 16"] hexDigit_colon [of "of_char c mod 16"] show ?case
    by auto
qed simp

section \<open>Interfaces\<close>

datatype store_error = ErrStoreKeyNotFound | StoreCtxError ctx_error | StoreError string

record KVWrite =
  kw_Namespace :: string
  kw_Key :: bytes
  kw_Value :: bytes
  kw_Delete :: bool

record KVPair =
  kv_Namespace :: string
  kv_Key :: bytes
  kv_Value :: bytes

text \<open>
  \<^verbatim>\<open>StateStore\<close>: reading and writing; a store that is also a \<^verbatim>\<open>BatchKVStore\<close> has \<^verbatim>\<open>SetBatch\<close>.  An operation that
  writes returns the store after it, whether it fails or not.
\<close>

record 's store_ops =
  op_Get :: "'s \<Rightarrow> ctx \<Rightarrow> string \<Rightarrow> bytes \<Rightarrow> store_error + bytes"
  op_Set :: "'s \<Rightarrow> ctx \<Rightarrow> string \<Rightarrow> bytes \<Rightarrow> bytes \<Rightarrow> 's \<times> store_error option"
  op_Delete :: "'s \<Rightarrow> ctx \<Rightarrow> string \<Rightarrow> bytes \<Rightarrow> 's \<times> store_error option"
  op_SetBatch :: "'s \<Rightarrow> (ctx \<Rightarrow> KVWrite list \<Rightarrow> 's \<times> store_error option) option"

text \<open>What is stored, and what a write makes of it.\<close>

type_synonym contents = "string \<Rightarrow> bytes \<Rightarrow> bytes option"

definition apply_write :: "contents \<Rightarrow> KVWrite \<Rightarrow> contents" where
  "apply_write c w = c(kw_Namespace w := (c (kw_Namespace w))
     (kw_Key w := if kw_Delete w then None else Some (kw_Value w)))"

definition apply_writes :: "contents \<Rightarrow> KVWrite list \<Rightarrow> contents" where
  "apply_writes = foldl apply_write"

lemma apply_writes_simps [simp]:
  "apply_writes c [] = c"
  "apply_writes c (w # ws) = apply_writes (apply_write c w) ws"
  "apply_writes c (ws @ ws') = apply_writes (apply_writes c ws) ws'"
  by (simp_all add: apply_writes_def)

definition lookup_result :: "bytes option \<Rightarrow> store_error + bytes" where
  "lookup_result v = (case v of None \<Rightarrow> Inl ErrStoreKeyNotFound | Some v \<Rightarrow> Inr v)"

text \<open>
  What clients of a store rely on while the context is live, for namespaces and keys that are not empty; the LevelDB
  store refuses the empty ones.
\<close>

locale state_store =
  fixes ops :: "'s store_ops"
    and ok :: "'s \<Rightarrow> bool"
    and contents :: "'s \<Rightarrow> contents"
  assumes get: "ok s \<Longrightarrow> ns \<noteq> [] \<Longrightarrow> k \<noteq> [] \<Longrightarrow> op_Get ops s None ns k = lookup_result (contents s ns k)"
    and set: "ok s \<Longrightarrow> ns \<noteq> [] \<Longrightarrow> k \<noteq> [] \<Longrightarrow> op_Set ops s None ns k v = (s', e) \<Longrightarrow>
       e = None \<and> ok s' \<and> contents s' = apply_write (contents s) \<lparr>kw_Namespace = ns, kw_Key = k, kw_Value = v, kw_Delete = False\<rparr>"
    and delete: "ok s \<Longrightarrow> ns \<noteq> [] \<Longrightarrow> k \<noteq> [] \<Longrightarrow> op_Delete ops s None ns k = (s', e) \<Longrightarrow>
       e = None \<and> ok s' \<and> contents s' = apply_write (contents s) \<lparr>kw_Namespace = ns, kw_Key = k, kw_Value = [], kw_Delete = True\<rparr>"
    and batch: "ok s \<Longrightarrow> op_SetBatch ops s = Some f \<Longrightarrow> list_all (\<lambda>w. kw_Namespace w \<noteq> [] \<and> kw_Key w \<noteq> []) ws \<Longrightarrow> f None ws = (s', e) \<Longrightarrow>
       e = None \<and> ok s' \<and> contents s' = apply_writes (contents s) ws"

section \<open>The staged store (staged_store.go)\<close>

text \<open>The base store, as far as the overlay uses it; the optional interfaces are options.\<close>

record base_store =
  bs_Get :: "ctx \<Rightarrow> string \<Rightarrow> bytes \<Rightarrow> store_error + bytes"
  bs_Root :: "(ctx \<Rightarrow> string \<Rightarrow> store_error + hash) option"
  bs_RootWithWrites :: "(ctx \<Rightarrow> string \<Rightarrow> KVWrite list \<Rightarrow> store_error + hash) option"
  bs_ExportPrefix :: "(ctx \<Rightarrow> string \<Rightarrow> bytes \<Rightarrow> store_error + KVPair list) option"
  bs_ExportNamespace :: "(ctx \<Rightarrow> string \<Rightarrow> store_error + KVPair list) option"

record StagedStore =
  sst_base :: "base_store option"
  sst_writes :: "KVWrite list"
  sst_overlay :: "(string, KVWrite) gomap"

definition NewStagedStore :: "base_store option \<Rightarrow> StagedStore" where
  "NewStagedStore base = \<lparr>sst_base = base, sst_writes = [], sst_overlay = []\<rparr>"

definition stagedKey :: "string \<Rightarrow> bytes \<Rightarrow> string" where
  "stagedKey namespace key = namespace @ '':'' @ hexEncode key"

definition ErrMissingBase :: store_error where
  "ErrMissingBase = StoreError ''missing staged base store''"

text \<open>Appending a write and entering it into the overlay, as \<^verbatim>\<open>Set\<close>, \<^verbatim>\<open>Delete\<close> and the loop of \<^verbatim>\<open>SetBatch\<close> do.\<close>

definition stage :: "StagedStore \<Rightarrow> KVWrite \<Rightarrow> StagedStore" where
  "stage store write = store\<lparr>sst_writes := sst_writes store @ [write],
     sst_overlay := AList.update (stagedKey (kw_Namespace write) (kw_Key write)) write (sst_overlay store)\<rparr>"

definition StagedStore_Set ::
    "StagedStore \<Rightarrow> ctx \<Rightarrow> string \<Rightarrow> bytes \<Rightarrow> bytes \<Rightarrow> StagedStore \<times> store_error option" where
  "StagedStore_Set store ctx namespace key val =
     (if sst_base store = None then (store, Some ErrMissingBase)
      else (stage store \<lparr>kw_Namespace = namespace, kw_Key = key, kw_Value = val, kw_Delete = False\<rparr>, None))"

definition StagedStore_Get :: "StagedStore \<Rightarrow> ctx \<Rightarrow> string \<Rightarrow> bytes \<Rightarrow> store_error + bytes" where
  "StagedStore_Get store ctx namespace key =
     (case sst_base store of
        None \<Rightarrow> Inl ErrMissingBase
      | Some base \<Rightarrow>
          (case map_of (sst_overlay store) (stagedKey namespace key) of
             Some write \<Rightarrow> if kw_Delete write then Inl ErrStoreKeyNotFound else Inr (kw_Value write)
           | None \<Rightarrow> bs_Get base ctx namespace key))"

definition StagedStore_Delete ::
    "StagedStore \<Rightarrow> ctx \<Rightarrow> string \<Rightarrow> bytes \<Rightarrow> StagedStore \<times> store_error option" where
  "StagedStore_Delete store ctx namespace key =
     (if sst_base store = None then (store, Some ErrMissingBase)
      else (stage store \<lparr>kw_Namespace = namespace, kw_Key = key, kw_Value = [], kw_Delete = True\<rparr>, None))"

fun stageLoop :: "StagedStore \<Rightarrow> ctx \<Rightarrow> KVWrite list \<Rightarrow> StagedStore \<times> store_error option" where
  "stageLoop store ctx [] = (store, None)"
| "stageLoop store ctx (write # writes) =
     (case ctx of
        Some e \<Rightarrow> (store, Some (StoreCtxError e))
      | None \<Rightarrow> stageLoop (stage store write) ctx writes)"

definition StagedStore_SetBatch ::
    "StagedStore \<Rightarrow> ctx \<Rightarrow> KVWrite list \<Rightarrow> StagedStore \<times> store_error option" where
  "StagedStore_SetBatch store ctx writes =
     (if sst_base store = None then (store, Some ErrMissingBase) else stageLoop store ctx writes)"

definition StagedStore_Root :: "StagedStore \<Rightarrow> ctx \<Rightarrow> string \<Rightarrow> store_error + hash" where
  "StagedStore_Root store ctx namespace =
     (case sst_base store of
        None \<Rightarrow> Inl ErrMissingBase
      | Some base \<Rightarrow>
          (case bs_RootWithWrites base of
             Some root \<Rightarrow> root ctx namespace (sst_writes store)
           | None \<Rightarrow>
               (case bs_Root base of
                  Some root \<Rightarrow> root ctx namespace
                | None \<Rightarrow> Inl (StoreError ''staged base store cannot compute roots''))))"

text \<open>
  The export of a namespace or of the keys with a prefix: the pairs of the base by key, the matching overlay
  entries entered or deleted, and the result sorted by key.
\<close>

definition mergeWrite :: "(bytes, KVPair) gomap \<Rightarrow> KVWrite \<Rightarrow> (bytes, KVPair) gomap" where
  "mergeWrite merged write =
     (if kw_Delete write then AList.delete (kw_Key write) merged
      else AList.update (kw_Key write)
             \<lparr>kv_Namespace = kw_Namespace write, kv_Key = kw_Key write, kv_Value = kw_Value write\<rparr> merged)"

definition exportMerged :: "KVPair list \<Rightarrow> KVWrite list \<Rightarrow> KVPair list" where
  "exportMerged pairs writes =
     (let merged = foldl (\<lambda>m pair. AList.update (kv_Key pair) pair m) [] pairs;
          merged = foldl mergeWrite merged writes
      in sort_key kv_Key (map snd merged))"

definition StagedStore_ExportPrefix ::
    "StagedStore \<Rightarrow> ctx \<Rightarrow> string \<Rightarrow> bytes \<Rightarrow> store_error + KVPair list" where
  "StagedStore_ExportPrefix store ctx namespace pre =
     (case sst_base store of
        None \<Rightarrow> Inl ErrMissingBase
      | Some base \<Rightarrow>
          (case bs_ExportPrefix base of
             None \<Rightarrow> Inl (StoreError ''staged base store cannot export prefixes'')
           | Some export \<Rightarrow>
               (case export ctx namespace pre of
                  Inl e \<Rightarrow> Inl e
                | Inr pairs \<Rightarrow> Inr (exportMerged pairs (filter (\<lambda>w. kw_Namespace w = namespace \<and> prefix pre (kw_Key w))
                                  (map snd (sst_overlay store)))))))"

definition StagedStore_ExportNamespace :: "StagedStore \<Rightarrow> ctx \<Rightarrow> string \<Rightarrow> store_error + KVPair list" where
  "StagedStore_ExportNamespace store ctx namespace =
     (case sst_base store of
        None \<Rightarrow> Inl ErrMissingBase
      | Some base \<Rightarrow>
          (case bs_ExportNamespace base of
             None \<Rightarrow> Inl (StoreError ''staged base store cannot export namespaces'')
           | Some export \<Rightarrow>
               (case export ctx namespace of
                  Inl e \<Rightarrow> Inl e
                | Inr pairs \<Rightarrow> Inr (exportMerged pairs (filter (\<lambda>w. kw_Namespace w = namespace)
                                  (map snd (sst_overlay store)))))))"

definition StagedStore_ImportNamespace ::
    "StagedStore \<Rightarrow> ctx \<Rightarrow> string \<Rightarrow> KVPair list \<Rightarrow> StagedStore \<times> store_error option" where
  "StagedStore_ImportNamespace store ctx namespace pairs =
     (if sst_base store = None then (store, Some ErrMissingBase)
      else
        case StagedStore_ExportNamespace store ctx namespace of
          Inl e \<Rightarrow> (store, Some e)
        | Inr existing \<Rightarrow>
            StagedStore_SetBatch store ctx
              (map (\<lambda>p. \<lparr>kw_Namespace = namespace, kw_Key = kv_Key p, kw_Value = [], kw_Delete = True\<rparr>) existing
               @ map (\<lambda>p. \<lparr>kw_Namespace = namespace, kw_Key = kv_Key p, kw_Value = kv_Value p, kw_Delete = False\<rparr>) pairs))"

definition StagedStore_Writes :: "StagedStore \<Rightarrow> KVWrite list" where
  "StagedStore_Writes store = sst_writes store"

definition staged_ops :: "StagedStore store_ops" where
  "staged_ops = \<lparr>op_Get = StagedStore_Get, op_Set = StagedStore_Set, op_Delete = StagedStore_Delete,
     op_SetBatch = (\<lambda>store. Some (StagedStore_SetBatch store))\<rparr>"

section \<open>The staged store is a store\<close>

lemma stagedKey_inj: "stagedKey ns k = stagedKey ns' k' \<longleftrightarrow> ns = ns' \<and> k = k'"
proof
  assume eq: "stagedKey ns k = stagedKey ns' k'"
  have "\<not> length ns < length ns'" if "ns @ CHR '':'' # a = ns' @ CHR '':'' # b" "CHR '':'' \<notin> set a" for ns ns' a b :: string
  proof
    assume l: "length ns < length ns'"
    from that(1) have "(ns @ CHR '':'' # a) ! length ns' = (ns' @ CHR '':'' # b) ! length ns'"
      by simp
    with l have "a ! (length ns' - Suc (length ns)) = CHR '':''"
      by (simp add: nth_append nth_Cons')
    moreover have "length ns' - Suc (length ns) < length a"
      using arg_cong [OF that(1), of length] l by simp
    ultimately show False
      using that(2) nth_mem by metis
  qed
  from this [of ns "hexEncode k" ns' "hexEncode k'"] this [of ns' "hexEncode k'" ns "hexEncode k"] eq
  have "length ns = length ns'"
    using hexEncode_no_colon by (fastforce simp: stagedKey_def)
  with eq show "ns = ns' \<and> k = k'"
    by (simp add: stagedKey_def hexEncode_inj)
qed simp

text \<open>The base answers every read of a key that is not empty while the context is live, and this is what it holds.\<close>

definition base_ok :: "base_store \<Rightarrow> bool" where
  "base_ok base \<longleftrightarrow> (\<forall>ns k. ns \<noteq> [] \<longrightarrow> k \<noteq> [] \<longrightarrow> (\<exists>v. bs_Get base None ns k = lookup_result v))"

definition base_contents :: "base_store \<Rightarrow> contents" where
  "base_contents base ns k = (case bs_Get base None ns k of Inl _ \<Rightarrow> None | Inr v \<Rightarrow> Some v)"

definition staged_ok :: "StagedStore \<Rightarrow> bool" where
  "staged_ok s \<longleftrightarrow> (\<exists>base. sst_base s = Some base \<and> base_ok base)"

definition staged_contents :: "StagedStore \<Rightarrow> contents" where
  "staged_contents s ns k =
     (case map_of (sst_overlay s) (stagedKey ns k) of
        Some write \<Rightarrow> if kw_Delete write then None else Some (kw_Value write)
      | None \<Rightarrow> base_contents (the (sst_base s)) ns k)"

lemma base_get:
  assumes "base_ok base" and "ns \<noteq> []" and "k \<noteq> []"
  shows "bs_Get base None ns k = lookup_result (base_contents base ns k)"
proof -
  obtain v where "bs_Get base None ns k = lookup_result v"
    using assms unfolding base_ok_def by blast
  then show ?thesis
    by (auto simp: base_contents_def lookup_result_def split: option.splits)
qed

lemma stage_simps [simp]:
  "sst_base (stage s w) = sst_base s" "sst_writes (stage s w) = sst_writes s @ [w]"
  "staged_ok (stage s w) = staged_ok s"
  by (simp_all add: stage_def staged_ok_def)

lemma stage_contents: "staged_contents (stage s w) = apply_write (staged_contents s) w"
  by (auto simp: fun_eq_iff staged_contents_def stage_def apply_write_def update_conv' stagedKey_inj
      cong: option.case_cong)

lemma stageLoop_live:
  "stageLoop s None ws = (s', e) \<Longrightarrow> e = None \<and> (staged_ok s \<longrightarrow> staged_ok s')
     \<and> staged_contents s' = apply_writes (staged_contents s) ws \<and> sst_base s' = sst_base s
     \<and> sst_writes s' = sst_writes s @ ws"
  by (induction ws arbitrary: s) (auto simp: stage_contents)

interpretation staged: state_store staged_ops staged_ok staged_contents
proof
  fix s and ns k :: string
  assume "staged_ok s" and "ns \<noteq> []" and "k \<noteq> []"
  then show "op_Get staged_ops s None ns k = lookup_result (staged_contents s ns k)"
    by (auto simp: staged_ops_def staged_ok_def StagedStore_Get_def staged_contents_def base_get lookup_result_def
        split: option.splits)
qed (auto simp: staged_ops_def staged_ok_def StagedStore_Set_def StagedStore_Delete_def StagedStore_SetBatch_def
      stage_contents dest!: stageLoop_live)

section \<open>The writes are the contents\<close>

text \<open>The operations of a block on its staged store, in any order and with any context.\<close>

datatype staged_op = OpSet ctx string bytes bytes | OpDelete ctx string bytes | OpBatch ctx "KVWrite list"
  | OpImport ctx string "KVPair list"

fun staged_exec :: "StagedStore \<Rightarrow> staged_op \<Rightarrow> StagedStore" where
  "staged_exec s (OpSet ctx ns k v) = fst (StagedStore_Set s ctx ns k v)"
| "staged_exec s (OpDelete ctx ns k) = fst (StagedStore_Delete s ctx ns k)"
| "staged_exec s (OpBatch ctx ws) = fst (StagedStore_SetBatch s ctx ws)"
| "staged_exec s (OpImport ctx ns ps) = fst (StagedStore_ImportNamespace s ctx ns ps)"

definition staged_run :: "StagedStore \<Rightarrow> staged_op list \<Rightarrow> StagedStore" where
  "staged_run = foldl staged_exec"

text \<open>What is staged is the writes applied to the base, one after the other.\<close>

definition staged_inv :: "base_store \<Rightarrow> StagedStore \<Rightarrow> bool" where
  "staged_inv base s \<longleftrightarrow> sst_base s = Some base
     \<and> staged_contents s = apply_writes (base_contents base) (sst_writes s)"

lemma staged_inv_New: "staged_inv base (NewStagedStore (Some base))"
  by (simp add: staged_inv_def NewStagedStore_def staged_contents_def fun_eq_iff)

lemma stage_inv: "staged_inv base s \<Longrightarrow> staged_inv base (stage s w)"
  by (simp add: staged_inv_def stage_contents)

lemma stageLoop_inv: "staged_inv base s \<Longrightarrow> staged_inv base (fst (stageLoop s ctx ws))"
  by (induction ws arbitrary: s) (auto simp: stage_inv split: option.splits)

lemma staged_exec_inv: "staged_inv base s \<Longrightarrow> staged_inv base (staged_exec s a)"
  by (cases a)
     (auto simp: StagedStore_Set_def StagedStore_Delete_def StagedStore_SetBatch_def StagedStore_ImportNamespace_def
        stage_inv stageLoop_inv split: sum.splits)

lemma staged_run_inv: "staged_inv base s \<Longrightarrow> staged_inv base (staged_run s as)"
  unfolding staged_run_def by (induction as arbitrary: s) (auto intro: staged_exec_inv)


text \<open>
  C38: whatever operations run on a staged store, and wherever they fail or are cancelled, applying the list of writes that
  it returns to the contents of the base gives exactly what the staged store reads.  Committing the writes is committing
  what the block saw.\<close>

theorem staged_writes_reproduce:
  assumes "base_ok base" and "ns \<noteq> []" and "k \<noteq> []"
  shows "StagedStore_Get (staged_run (NewStagedStore (Some base)) as) None ns k =
    lookup_result (apply_writes (base_contents base)
      (StagedStore_Writes (staged_run (NewStagedStore (Some base)) as)) ns k)"
proof -
  let ?s = "staged_run (NewStagedStore (Some base)) as"
  have inv: "staged_inv base ?s"
    by (rule staged_run_inv [OF staged_inv_New])
  with assms(1) have "staged_ok ?s"
    by (auto simp: staged_inv_def staged_ok_def)
  from staged.get [OF this assms(2,3)] inv show ?thesis
    by (simp add: staged_ops_def staged_inv_def StagedStore_Writes_def)
qed

definition ex_base :: base_store where
  "ex_base = \<lparr>bs_Get = (\<lambda>ctx ns k. if ns = ''bank'' \<and> k = ''a'' then Inr ''1'' else Inl ErrStoreKeyNotFound),
     bs_Root = None, bs_RootWithWrites = None, bs_ExportPrefix = None, bs_ExportNamespace = None\<rparr>"

lemma ex_base_ok: "base_ok ex_base"
  unfolding base_ok_def
proof (intro allI impI)
  fix ns k :: string
  show "\<exists>v. bs_Get ex_base None ns k = lookup_result v"
    by (rule exI [of _ "if ns = ''bank'' \<and> k = ''a'' then Some ''1'' else None"])
       (simp add: ex_base_def lookup_result_def)
qed

theorem staged_writes_reproduce_witness:
  "StagedStore_Get (staged_run (NewStagedStore (Some ex_base))
       [OpSet None ''bank'' ''b'' ''2'', OpBatch (Some ContextCanceled) [], OpDelete None ''bank'' ''a'']) None ''bank'' ''b'' =
     lookup_result (apply_writes (base_contents ex_base) (StagedStore_Writes (staged_run (NewStagedStore (Some ex_base))
       [OpSet None ''bank'' ''b'' ''2'', OpBatch (Some ContextCanceled) [], OpDelete None ''bank'' ''a''])) ''bank'' ''b'')"
  by (rule staged_writes_reproduce [OF ex_base_ok]) simp_all

end
