(* ===== verification/Address.thy ===== *)
theory Address
  imports Encoding GoStrings
begin

text \<open>
  Account and validator addresses: \<^verbatim>\<open>address/bech32.go\<close> and \<^verbatim>\<open>address/address.go\<close>.  The main result is that decoding
  undoes encoding, which needs the checksum to be a linear code and the regrouping of bits to lose nothing.
  Addresses are ASCII: for strings with other letters the lower and upper case of Go are not modelled.
\<close>

unbundle bit_operations_syntax

datatype address_error = ErrInvalidBech32 | ErrMixedCase | ErrEmptyPublicKey | ErrInvalidAddress | ErrInvalidPrefix
  | ErrAddressMismatch

section \<open>Bech32 (bech32.go)\<close>

definition bech32Charset :: string where
  "bech32Charset = ''qpzry9x8gf2tvdw0s3jn54khce6mua7l''"

definition toUpperChar :: "char \<Rightarrow> char" where
  "toUpperChar c = (if 97 \<le> (of_char c :: nat) \<and> of_char c \<le> (122 :: nat) then char_of (of_char c - 32 :: nat) else c)"

definition ToUpper :: "string \<Rightarrow> string" where
  "ToUpper s = map toUpperChar s"

definition validateHRP :: "string \<Rightarrow> address_error option" where
  "validateHRP hrp =
     (if hrp = [] \<or> ToLower hrp \<noteq> hrp then Some ErrInvalidPrefix
      else if list_ex (\<lambda>c. of_char c < (33 :: nat) \<or> (126 :: nat) < of_char c) hrp then Some ErrInvalidPrefix
      else None)"

text \<open>The inner loop of \<^verbatim>\<open>convertBits\<close>: groups of \<^verbatim>\<open>toBits\<close> bits leave the accumulator from the top.\<close>

function drainBits :: "nat \<Rightarrow> nat \<Rightarrow> nat \<Rightarrow> nat list \<Rightarrow> nat \<times> nat list" where
  "drainBits toBits accumulator bits converted =
     (if 0 < toBits \<and> toBits \<le> bits
      then drainBits toBits accumulator (bits - toBits)
             (converted @ [take_bit toBits (drop_bit (bits - toBits) accumulator)])
      else (bits, converted))"
  by auto

termination drainBits
  by (relation "measure (\<lambda>(_, _, bits, _). bits)") auto

declare drainBits.simps [simp del]

fun convertLoop :: "nat \<Rightarrow> nat \<Rightarrow> nat list \<Rightarrow> nat \<Rightarrow> nat \<Rightarrow> nat list \<Rightarrow> (nat \<times> nat \<times> nat list) option" where
  "convertLoop fromBits toBits [] accumulator bits converted = Some (accumulator, bits, converted)"
| "convertLoop fromBits toBits (val # data) accumulator bits converted =
     (if drop_bit fromBits val \<noteq> 0 then None
      else
        let accumulator = take_bit (fromBits + toBits - 1) (push_bit fromBits accumulator OR val) in
        case drainBits toBits accumulator (bits + fromBits) converted of
          (bits, converted) \<Rightarrow> convertLoop fromBits toBits data accumulator bits converted)"

definition convertBits :: "nat list \<Rightarrow> nat \<Rightarrow> nat \<Rightarrow> bool \<Rightarrow> address_error + nat list" where
  "convertBits data fromBits toBits pad =
     (case convertLoop fromBits toBits data 0 0 [] of
        None \<Rightarrow> Inl ErrInvalidBech32
      | Some (accumulator, bits, converted) \<Rightarrow>
          if pad then
            (if 0 < bits then Inr (converted @ [take_bit toBits (push_bit (toBits - bits) accumulator)])
             else Inr converted)
          else if fromBits \<le> bits \<or> take_bit toBits (push_bit (toBits - bits) accumulator) \<noteq> 0
          then Inl ErrInvalidBech32
          else Inr converted)"

definition hrpExpand :: "string \<Rightarrow> nat list" where
  "hrpExpand hrp = map (\<lambda>c. of_char c div 32) hrp @ [0] @ map (\<lambda>c. of_char c mod 32) hrp"

definition generators :: "u32 list" where
  "generators = [0x3b6a57b2, 0x26508e6d, 0x1ea119fa, 0x3d4233dd, 0x2a1462b3]"

fun addGenerators :: "u32 \<Rightarrow> nat \<Rightarrow> u32 list \<Rightarrow> u32 \<Rightarrow> u32" where
  "addGenerators hi index [] checksum = checksum"
| "addGenerators hi index (g # gs) checksum =
     addGenerators hi (Suc index) gs (if bit hi index then checksum XOR g else checksum)"

definition polymodStep :: "u32 \<Rightarrow> nat \<Rightarrow> u32" where
  "polymodStep checksum val =
     (let hi = drop_bit 25 checksum in
      addGenerators hi 0 generators (push_bit 5 (checksum AND 0x1ffffff) XOR of_nat val))"

definition bech32Polymod :: "nat list \<Rightarrow> u32" where
  "bech32Polymod values = foldl polymodStep 1 values"

definition createChecksum :: "string \<Rightarrow> nat list \<Rightarrow> nat list" where
  "createChecksum hrp data =
     (let polymod = bech32Polymod (hrpExpand hrp @ data @ [0, 0, 0, 0, 0, 0]) XOR 1 in
      map (\<lambda>index. unat (drop_bit (5 * (5 - index)) polymod AND 31)) [0..<6])"

definition verifyChecksum :: "string \<Rightarrow> nat list \<Rightarrow> bool" where
  "verifyChecksum hrp data \<longleftrightarrow> bech32Polymod (hrpExpand hrp @ data) = 1"

definition bech32Encode :: "string \<Rightarrow> bytes \<Rightarrow> address_error + string" where
  "bech32Encode hrp payload =
     (case convertBits (map of_char payload) 8 5 True of
        Inl e \<Rightarrow> Inl e
      | Inr data \<Rightarrow>
          let combined = data @ createChecksum hrp data in
          if list_ex (\<lambda>val. length bech32Charset \<le> val) combined then Inl ErrInvalidBech32
          else Inr (hrp @ ''1'' @ map ((!) bech32Charset) combined))"

text \<open>The position of a character, and of the last occurrence of one.\<close>

fun indexOf :: "char \<Rightarrow> string \<Rightarrow> nat option" where
  "indexOf c [] = None"
| "indexOf c (x # xs) = (if x = c then Some 0 else map_option Suc (indexOf c xs))"

definition lastIndex :: "char \<Rightarrow> string \<Rightarrow> nat option" where
  "lastIndex c s = map_option (\<lambda>n. length s - Suc n) (indexOf c (rev s))"

fun decodeSymbols :: "string \<Rightarrow> nat list option" where
  "decodeSymbols [] = Some []"
| "decodeSymbols (c # cs) =
     (case (indexOf c bech32Charset, decodeSymbols cs) of
        (Some position, Some data) \<Rightarrow> Some (position # data)
      | _ \<Rightarrow> None)"

definition bech32Decode :: "string \<Rightarrow> address_error + (string \<times> bytes)" where
  "bech32Decode val =
     (if val = [] \<or> (ToLower val \<noteq> val \<and> ToUpper val \<noteq> val) then Inl ErrMixedCase
      else
        let val = ToLower val in
        if length val < 8 then Inl ErrInvalidBech32
        else
          case lastIndex CHR ''1'' val of
            None \<Rightarrow> Inl ErrInvalidBech32
          | Some separator \<Rightarrow>
              if separator = 0 \<or> length val < separator + 7 then Inl ErrInvalidBech32
              else
                let hrp = take separator val in
                case validateHRP hrp of
                  Some e \<Rightarrow> Inl e
                | None \<Rightarrow>
                    (case decodeSymbols (drop (separator + 1) val) of
                       None \<Rightarrow> Inl ErrInvalidBech32
                     | Some data \<Rightarrow>
                         if \<not> verifyChecksum hrp data then Inl ErrInvalidBech32
                         else
                           case convertBits (take (length data - 6) data) 5 8 False of
                             Inl e \<Rightarrow> Inl e
                           | Inr payload \<Rightarrow> Inr (hrp, map char_of payload)))"

section \<open>Addresses (address.go)\<close>

definition AccountHRP :: string where
  "AccountHRP = ''vexo''"

definition ValidatorOperatorHRP :: string where
  "ValidatorOperatorHRP = ''vexovaloper''"

definition ValidatorConsensusHRP :: string where
  "ValidatorConsensusHRP = ''vexovalcons''"

definition addressLength :: nat where
  "addressLength = 20"

definition address_preimage :: "string \<Rightarrow> PublicKey \<Rightarrow> bytes" where
  "address_preimage hrp publicKey = ''vexo.address.v1'' @ '':'' @ hrp @ '':'' @ publicKey @ [CHR 0x0A]"

definition FromPublicKey :: "string \<Rightarrow> PublicKey \<Rightarrow> address_error + string" where
  "FromPublicKey hrp publicKey =
     (if publicKey = [] then Inl ErrEmptyPublicKey
      else
        case validateHRP hrp of
          Some e \<Rightarrow> Inl e
        | None \<Rightarrow> bech32Encode hrp (take addressLength (hash_bytes (sha256 (address_preimage hrp publicKey)))))"

definition AccountFromPublicKey :: "PublicKey \<Rightarrow> address_error + string" where
  "AccountFromPublicKey publicKey = FromPublicKey AccountHRP publicKey"

definition ValidatorOperatorFromPublicKey :: "PublicKey \<Rightarrow> address_error + string" where
  "ValidatorOperatorFromPublicKey publicKey = FromPublicKey ValidatorOperatorHRP publicKey"

definition ValidatorConsensusFromPublicKey :: "PublicKey \<Rightarrow> address_error + string" where
  "ValidatorConsensusFromPublicKey publicKey = FromPublicKey ValidatorConsensusHRP publicKey"

definition Address_Validate :: "string \<Rightarrow> string \<Rightarrow> address_error option" where
  "Address_Validate val expectedHRP =
     (case bech32Decode val of
        Inl e \<Rightarrow> Some e
      | Inr (hrp, data) \<Rightarrow>
          if expectedHRP \<noteq> [] \<and> hrp \<noteq> expectedHRP then Some ErrInvalidPrefix
          else if length data \<noteq> addressLength then Some ErrInvalidAddress
          else None)"

definition MatchesPublicKey :: "string \<Rightarrow> string \<Rightarrow> PublicKey \<Rightarrow> address_error option" where
  "MatchesPublicKey val hrp publicKey =
     (case FromPublicKey hrp publicKey of
        Inl e \<Rightarrow> Some e
      | Inr expected \<Rightarrow> if val \<noteq> expected then Some ErrAddressMismatch else None)"

definition HRP :: "string \<Rightarrow> address_error + string" where
  "HRP val = (case bech32Decode val of Inl e \<Rightarrow> Inl e | Inr (hrp, _) \<Rightarrow> Inr hrp)"

section \<open>Regrouping bits\<close>

text \<open>The lowest bits of a number, the highest of them first.\<close>

primrec to_bits :: "nat \<Rightarrow> nat \<Rightarrow> bool list" where
  "to_bits 0 v = []"
| "to_bits (Suc w) v = to_bits w (v div 2) @ [odd v]"

definition all_bits :: "nat \<Rightarrow> nat list \<Rightarrow> bool list" where
  "all_bits w vs = concat (map (to_bits w) vs)"

lemma length_to_bits [simp]: "length (to_bits w v) = w"
  by (induction w arbitrary: v) auto

lemma all_bits_simps [simp]:
  "all_bits w [] = []" "all_bits w (v # vs) = to_bits w v @ all_bits w vs"
  "all_bits w (vs @ vs') = all_bits w vs @ all_bits w vs'"
  by (simp_all add: all_bits_def)

lemma length_all_bits [simp]: "length (all_bits w vs) = w * length vs"
  by (induction vs) auto

lemma to_bits_append: "to_bits (a + b) v = to_bits a (v div 2 ^ b) @ to_bits b v"
proof (induction b arbitrary: v)
  case (Suc b)
  have "v div 2 ^ Suc b = v div 2 div 2 ^ b"
    by (simp add: div_mult2_eq)
  with Suc show ?case
    by simp
qed simp

lemma to_bits_mod:
  assumes "w \<le> k"
  shows "to_bits w (v mod 2 ^ k) = to_bits w v"
  using assms
proof (induction w arbitrary: v k)
  case (Suc w)
  then obtain k' where k: "k = Suc k'" "w \<le> k'"
    by (cases k) auto
  have "v mod 2 ^ Suc k' div 2 = v div 2 mod 2 ^ k'"
    by (metis div_exp_mod_exp_eq plus_1_eq_Suc power_one_right)
  moreover have "odd (v mod 2 ^ Suc k') = odd v"
    by (simp add: dvd_mod_iff)
  ultimately show ?case
    using Suc.IH [OF k(2)] by (simp add: k del: power_Suc)
qed simp

lemma to_bits_inj: "to_bits w v = to_bits w v' \<Longrightarrow> v mod 2 ^ w = v' mod 2 ^ w"
proof (induction w arbitrary: v v')
  case (Suc w)
  from Suc.prems have "to_bits w (v div 2) = to_bits w (v' div 2)" and o: "odd v = odd v'"
    by simp_all
  from Suc.IH [OF this(1)] have "v div 2 mod 2 ^ w = v' div 2 mod 2 ^ w" .
  then have "2 * (v div 2 mod 2 ^ w) + v mod 2 = 2 * (v' div 2 mod 2 ^ w) + v' mod 2"
    using o by (simp add: mod2_eq_if)
  then show ?case
    by (simp add: mod_mult2_eq)
qed simp

lemma to_bits_zero: "to_bits w 0 = replicate w False"
  by (induction w) (simp_all add: replicate_append_same)

lemma to_bits_shift: "to_bits k (v * 2 ^ k) = replicate k False"
  using to_bits_mod [of k k "v * 2 ^ k"] by (simp add: to_bits_zero)

lemma drainBits_spec:
  assumes "0 < toBits"
  shows "\<exists>new. drainBits toBits acc bits converted = (bits mod toBits, converted @ new)
    \<and> all_bits toBits new @ to_bits (bits mod toBits) acc = to_bits bits acc
    \<and> length new = bits div toBits \<and> list_all (\<lambda>v. v < 2 ^ toBits) new"
proof (induction bits arbitrary: converted rule: less_induct)
  case (less bits)
  show ?case
  proof (cases "toBits \<le> bits")
    case True
    let ?v = "take_bit toBits (drop_bit (bits - toBits) acc)"
    from less [of "bits - toBits" "converted @ [?v]"] True assms obtain new where
      new: "drainBits toBits acc (bits - toBits) (converted @ [?v]) = ((bits - toBits) mod toBits, (converted @ [?v]) @ new)"
      "all_bits toBits new @ to_bits ((bits - toBits) mod toBits) acc = to_bits (bits - toBits) acc"
      "length new = (bits - toBits) div toBits" "list_all (\<lambda>v. v < 2 ^ toBits) new"
      by auto
    have "to_bits toBits ?v = to_bits toBits (acc div 2 ^ (bits - toBits))"
      by (simp add: take_bit_eq_mod drop_bit_eq_div to_bits_mod)
    then have "to_bits toBits ?v @ to_bits (bits - toBits) acc = to_bits bits acc"
      using to_bits_append [of toBits "bits - toBits" acc] True by simp
    with new True assms show ?thesis
      by (intro exI [of _ "?v # new"])
         (simp add: drainBits.simps [of toBits acc bits] le_mod_geq le_div_geq take_bit_eq_mod)
  next
    case False
    with assms show ?thesis
      by (simp add: drainBits.simps [of toBits acc bits])
  qed
qed

lemma shift_in: "v < 2 ^ k \<Longrightarrow> push_bit k a OR v = a * 2 ^ k + (v :: nat)"
proof -
  assume "v < 2 ^ k"
  then have "take_bit k v = v"
    by (simp add: take_bit_nat_eq_self)
  then have "push_bit k a AND v = 0"
    by (metis (no_types) bit_eqI bit_and_iff bit_push_bit_iff bit_take_bit_iff bit_0_eq bot_apply bot_bool_def linorder_not_le)
  then have "push_bit k a + v = push_bit k a OR v"
    by (rule disjunctive_add_eq_or)
  then show ?thesis
    by (simp add: push_bit_eq_mult)
qed

lemma convertLoop_spec:
  assumes "0 < fromBits" "0 < toBits" and "list_all (\<lambda>v. v < 2 ^ fromBits) data" and "bits < toBits"
  shows "\<exists>acc' new. convertLoop fromBits toBits data acc bits converted
      = Some (acc', (bits + fromBits * length data) mod toBits, converted @ new)
    \<and> all_bits toBits new @ to_bits ((bits + fromBits * length data) mod toBits) acc'
        = to_bits bits acc @ all_bits fromBits data
    \<and> length new = (bits + fromBits * length data) div toBits \<and> list_all (\<lambda>v. v < 2 ^ toBits) new"
  using assms(3,4)
proof (induction data arbitrary: acc bits converted)
  case Nil
  then show ?case
    by simp
next
  case (Cons v data)
  let ?acc = "take_bit (fromBits + toBits - 1) (push_bit fromBits acc OR v)"
  let ?b = "bits + fromBits"
  have v: "v < 2 ^ fromBits" "drop_bit fromBits v = 0"
    using Cons.prems(1) by (simp_all add: drop_bit_eq_div)
  have "to_bits ?b ?acc = to_bits ?b (acc * 2 ^ fromBits + v)"
    using Cons.prems(2) by (simp add: take_bit_eq_mod shift_in [OF v(1)] to_bits_mod)
  also have "\<dots> = to_bits bits acc @ to_bits fromBits v"
    using v(1) to_bits_mod [of fromBits fromBits "acc * 2 ^ fromBits + v"] by (simp add: to_bits_append)
  finally have acc: "to_bits ?b ?acc = to_bits bits acc @ to_bits fromBits v" .
  from drainBits_spec [OF assms(2), of ?acc ?b converted] obtain new where
    new: "drainBits toBits ?acc ?b converted = (?b mod toBits, converted @ new)"
    "all_bits toBits new @ to_bits (?b mod toBits) ?acc = to_bits ?b ?acc"
    "length new = ?b div toBits" "list_all (\<lambda>v. v < 2 ^ toBits) new"
    by blast
  from Cons.IH [of "?b mod toBits" ?acc "converted @ new"] Cons.prems assms(2) obtain acc' new' where
    new': "convertLoop fromBits toBits data ?acc (?b mod toBits) (converted @ new)
      = Some (acc', (?b mod toBits + fromBits * length data) mod toBits, (converted @ new) @ new')"
    "all_bits toBits new' @ to_bits ((?b mod toBits + fromBits * length data) mod toBits) acc'
       = to_bits (?b mod toBits) ?acc @ all_bits fromBits data"
    "length new' = (?b mod toBits + fromBits * length data) div toBits" "list_all (\<lambda>v. v < 2 ^ toBits) new'"
    by auto
  have eq: "(?b mod toBits + fromBits * length data) mod toBits = (bits + fromBits * length (v # data)) mod toBits"
    by (simp add: mod_add_left_eq add.assoc)
  have "bits + fromBits * length (v # data) = ?b div toBits * toBits + (?b mod toBits + fromBits * length data)"
    by simp
  moreover from assms(2) have "toBits \<noteq> 0"
    by simp
  ultimately have len: "length (new @ new') = (bits + fromBits * length (v # data)) div toBits"
    by (simp only: div_mult_self3 [OF \<open>toBits \<noteq> 0\<close>] length_append new(3) new'(3))
  have "all_bits toBits (new @ new') @ to_bits ((bits + fromBits * length (v # data)) mod toBits) acc'
      = all_bits toBits new @ to_bits (?b mod toBits) ?acc @ all_bits fromBits data"
    using new'(2) by (simp only: eq all_bits_simps append_assoc)
  also have "\<dots> = to_bits bits acc @ all_bits fromBits (v # data)"
    using new(2) acc by (simp only: append_assoc [symmetric] all_bits_simps)
  finally have bits: "all_bits toBits (new @ new') @ to_bits ((bits + fromBits * length (v # data)) mod toBits) acc'
      = to_bits bits acc @ all_bits fromBits (v # data)" .
  have run: "convertLoop fromBits toBits (v # data) acc bits converted
      = Some (acc', (bits + fromBits * length (v # data)) mod toBits, converted @ (new @ new'))"
    using v(2) new(1) new'(1) by (simp only: convertLoop.simps Let_def eq append_assoc) simp
  show ?case
    using run bits len new(4) new'(4) by (intro exI [of _ acc'] exI [of _ "new @ new'"]) (simp only: list_all_append)
qed

lemma all_bits_inj:
  assumes "all_bits w vs = all_bits w vs'" and "length vs = length vs'"
    and "list_all (\<lambda>v. v < 2 ^ w) vs" "list_all (\<lambda>v. v < 2 ^ w) vs'"
  shows "vs = vs'"
  using assms(2,1,3,4)
proof (induction vs vs' rule: list_induct2)
  case (Cons v vs v' vs')
  then have "to_bits w v = to_bits w v'" "all_bits w vs = all_bits w vs'"
    by simp_all
  with Cons to_bits_inj [of w v v'] show ?case
    by simp
qed simp

text \<open>Bytes regrouped to five bits, with padding, and back.\<close>

lemma convertBits_roundtrip:
  assumes "list_all (\<lambda>v. v < 256) payload"
  shows "\<exists>data. convertBits payload 8 5 True = Inr data \<and> list_all (\<lambda>v. v < 32) data
    \<and> convertBits data 5 8 False = Inr payload"
proof -
  let ?n = "8 * length payload"
  have *: "list_all (\<lambda>v. v < 2 ^ 8) payload"
    using assms by simp
  from convertLoop_spec [OF _ _ *, of 5 0 0 "[]"] obtain acc out where
    out: "convertLoop 8 5 payload 0 0 [] = Some (acc, ?n mod 5, out)"
    "all_bits 5 out @ to_bits (?n mod 5) acc = all_bits 8 payload"
    "length out = ?n div 5" "list_all (\<lambda>v. v < 2 ^ 5) out"
    by auto
  define last where "last = take_bit 5 (push_bit (5 - ?n mod 5) acc)"
  define data where "data = (if ?n mod 5 = 0 then out else out @ [last])"
  define p where "p = (if ?n mod 5 = 0 then 0 else 5 - ?n mod 5)"
  have enc: "convertBits payload 8 5 True = Inr data"
    by (simp add: convertBits_def out(1) data_def last_def)
  have "to_bits 5 last = to_bits (?n mod 5) acc @ replicate (5 - ?n mod 5) False"
  proof -
    have "to_bits 5 last = to_bits 5 (acc * 2 ^ (5 - ?n mod 5))"
      using to_bits_mod [of 5 5 "acc * 2 ^ (5 - ?n mod 5)"] by (simp add: last_def take_bit_eq_mod push_bit_eq_mult)
    also have "\<dots> = to_bits (?n mod 5 + (5 - ?n mod 5)) (acc * 2 ^ (5 - ?n mod 5))"
      by simp
    also have "\<dots> = to_bits (?n mod 5) acc @ replicate (5 - ?n mod 5) False"
      unfolding to_bits_append by (simp add: to_bits_shift)
    finally show ?thesis .
  qed
  then have bits: "all_bits 5 data = all_bits 8 payload @ replicate p False"
    using out(2) by (auto simp: data_def p_def)
  have small: "list_all (\<lambda>v. v < 2 ^ 5) data"
    using out(4) by (simp add: data_def last_def take_bit_eq_mod)
  have len: "5 * length data = ?n + p"
    using arg_cong [OF bits, of length] by simp
  have p: "p < 5"
    by (simp add: p_def)
  have m: "(?n + p) mod 8 = p" and d: "(?n + p) div 8 = length payload"
    using p by simp_all
  from convertLoop_spec [OF _ _ small, of 8 0 0 "[]"] obtain acc' out' where
    out': "convertLoop 5 8 data 0 0 [] = Some (acc', p, out')"
    "all_bits 8 out' @ to_bits p acc' = all_bits 5 data"
    "length out' = length payload" "list_all (\<lambda>v. v < 2 ^ 8) out'"
    using p by (auto simp: len m d)
  have parts: "all_bits 8 out' = all_bits 8 payload" "to_bits p acc' = replicate p False"
    using out'(2,3) by (simp_all add: bits)
  have "out' = payload"
    by (rule all_bits_inj [OF parts(1) out'(3,4)]) (use assms in simp)
  have "acc' mod 2 ^ p = 0"
    using to_bits_inj [of p acc' 0] parts(2) by (simp add: to_bits_zero)
  then obtain k where "acc' = 2 ^ p * k"
    by (auto elim: dvdE)
  then have "acc' * 2 ^ (8 - p) = k * 2 ^ (p + (8 - p))"
    by (simp only: power_add mult_ac)
  then have "take_bit 8 (push_bit (8 - p) acc') = 0"
    using p by (simp add: take_bit_eq_mod push_bit_eq_mult)
  then have "convertBits data 5 8 False = Inr payload"
    using p \<open>out' = payload\<close> by (simp add: convertBits_def out'(1))
  with enc small show ?thesis
    by (intro exI [of _ data]) simp
qed

section \<open>The checksum\<close>

lemma addGenerators_xor: "addGenerators hi i gs (c XOR x) = addGenerators hi i gs c XOR x"
proof (induction gs arbitrary: i c)
  case (Cons g gs)
  have "(c XOR x) XOR g = (c XOR g) XOR x"
    by (simp only: xor.assoc xor.commute [of x g])
  then show ?case
    by (simp add: Cons.IH)
qed simp

text \<open>A difference in the low 25 bits is shifted by one symbol and does not reach the generators.\<close>

lemma polymodStep_low:
  assumes "take_bit 25 x = x"
  shows "polymodStep (c XOR x) v = polymodStep c 0 XOR (push_bit 5 x XOR of_nat v)"
proof -
  have hi: "drop_bit 25 (c XOR x) = drop_bit 25 c"
  proof -
    have "drop_bit 25 x = drop_bit 25 (take_bit 25 x)"
      by (simp only: assms)
    also have "\<dots> = 0"
      by (simp add: drop_bit_take_bit)
    finally show ?thesis
      by (simp add: drop_bit_xor)
  qed
  have m: "(0x1ffffff :: u32) = mask 25"
    by (simp add: mask_eq_exp_minus_1)
  have "(c XOR x) AND 0x1ffffff = (c AND 0x1ffffff) XOR x"
    unfolding m take_bit_eq_mask [symmetric] take_bit_xor assms ..
  then show ?thesis
    unfolding polymodStep_def Let_def hi
    by (simp add: push_bit_xor addGenerators_xor xor.assoc)
qed

lemma push_symbol_low:
  fixes x :: u32
  assumes "take_bit (5 * k) x = x" and "v < 32"
  shows "take_bit (5 * Suc k) (push_bit 5 x XOR of_nat v) = push_bit 5 x XOR of_nat v"
proof -
  have "take_bit (5 * Suc k) (push_bit 5 x) = push_bit 5 (take_bit (5 * k) x)"
    by (simp add: take_bit_push_bit)
  moreover have "take_bit (5 * Suc k) (of_nat v :: u32) = of_nat v"
  proof -
    have "v < 2 ^ (5 * Suc k)"
      using assms(2) power_increasing [of 5 "5 * Suc k" "2 :: nat"] by simp
    then show ?thesis
      by (simp add: take_bit_of_nat take_bit_nat_eq_self)
  qed
  ultimately show ?thesis
    by (simp add: take_bit_xor assms(1))
qed

lemma polymod_low:
  assumes "take_bit (5 * k) x = x" and "list_all (\<lambda>v. v < 32) ds" and "k + length ds \<le> 6"
  shows "foldl polymodStep (c XOR x) ds =
    foldl polymodStep c (replicate (length ds) 0) XOR foldl (\<lambda>x v. push_bit 5 x XOR of_nat v) x ds"
  using assms
proof (induction ds arbitrary: c x k)
  case (Cons v ds)
  from Cons.prems have v: "v < 32"
    by simp
  have "min 25 (5 * k) = 5 * k"
    using Cons.prems(3) by simp
  then have "take_bit 25 (take_bit (5 * k) x) = take_bit (5 * k) x"
    by (simp only: take_bit_take_bit)
  then have "take_bit 25 x = x"
    by (simp only: Cons.prems(1))
  then have "polymodStep (c XOR x) v = polymodStep c 0 XOR (push_bit 5 x XOR of_nat v)"
    by (rule polymodStep_low)
  then show ?case
    using Cons.IH [OF push_symbol_low [OF Cons.prems(1) v], of "polymodStep c 0"] Cons.prems(2,3) by simp
qed simp

lemma addGenerators_small:
  "take_bit 30 c = c \<Longrightarrow> list_all (\<lambda>g. take_bit 30 g = g) gs \<Longrightarrow>
     take_bit 30 (addGenerators hi i gs c) = addGenerators hi i gs c"
proof (induction gs arbitrary: i c)
  case (Cons g gs)
  from Cons.prems have "take_bit 30 (c XOR g) = c XOR g"
    by (simp add: take_bit_xor)
  with Cons show ?case
    by simp
qed simp

lemma polymodStep_small: "take_bit 30 (polymodStep c 0) = polymodStep c 0"
proof -
  have m: "(0x1ffffff :: u32) = mask 25"
    by (simp add: mask_eq_exp_minus_1)
  have "take_bit 30 (push_bit 5 (take_bit 25 c)) = push_bit 5 (take_bit 25 c)"
    by (simp add: take_bit_push_bit)
  moreover have "list_all (\<lambda>g. take_bit 30 g = g) generators"
    by (simp add: generators_def)
  ultimately show ?thesis
    unfolding polymodStep_def Let_def m take_bit_eq_mask [symmetric] by (simp add: addGenerators_small)
qed

lemma join_symbol: "push_bit 5 (drop_bit 5 q) XOR take_bit 5 q = (q :: u32)"
  by (rule bit_eqI) (auto simp: bit_simps not_le)

lemma symbols_join:
  assumes "take_bit 30 p = (p :: u32)"
  shows "foldl (\<lambda>x v. push_bit 5 x XOR of_nat v) 0
    (map (\<lambda>i. unat (drop_bit (5 * (5 - i)) p AND 31)) [0..<6]) = p"
proof -
  have m: "(31 :: u32) = mask 5"
    by (simp add: mask_eq_exp_minus_1)
  have step: "push_bit 5 (drop_bit (k + 5) p) XOR of_nat (unat (drop_bit k p AND 31)) = drop_bit k p" for k
    using join_symbol [of "drop_bit k p"]
    by (simp add: m take_bit_eq_mask [symmetric] add.commute)
  have hi: "drop_bit 30 p = 0"
  proof -
    have "drop_bit 30 p = drop_bit 30 (take_bit 30 p)"
      by (simp only: assms)
    then show ?thesis
      by (simp add: drop_bit_take_bit)
  qed
  have "[0..<6] = [0, 1, 2, 3, 4, 5]"
    by (simp add: upt_rec)
  with step [of 25] step [of 20] step [of 15] step [of 10] step [of 5] step [of 0] hi show ?thesis
    by simp
qed

lemma createChecksum_small: "list_all (\<lambda>v. v < 32) (createChecksum hrp data)"
proof -
  have m: "(31 :: u32) = mask 5"
    by (simp add: mask_eq_exp_minus_1)
  have "unat (x AND 31) < 32" for x :: u32
  proof -
    have "unat (take_bit 5 x) = take_bit 5 (unat x)"
      by (simp add: unsigned_take_bit_eq)
    then show ?thesis
      by (simp add: m take_bit_eq_mask [symmetric] take_bit_eq_mod)
  qed
  then show ?thesis
    by (simp add: createChecksum_def Let_def list_all_iff)
qed

text \<open>A created checksum is accepted.\<close>

lemma checksum_verifies: "verifyChecksum hrp (data @ createChecksum hrp data)"
proof -
  let ?c = "foldl polymodStep 1 (hrpExpand hrp @ data)"
  let ?z = "foldl polymodStep ?c (replicate 6 0)"
  let ?cs = "createChecksum hrp data"
  have "?z = polymodStep (foldl polymodStep ?c (replicate 5 0)) 0"
    by (simp add: numeral_eq_Suc)
  then have "take_bit 30 ?z = ?z"
    by (simp only: polymodStep_small)
  then have p: "take_bit 30 (?z XOR 1) = ?z XOR 1"
    by (simp add: take_bit_xor)
  have cs: "?cs = map (\<lambda>i. unat (drop_bit (5 * (5 - i)) (?z XOR 1) AND 31)) [0..<6]"
    by (simp add: createChecksum_def Let_def bech32Polymod_def numeral_eq_Suc)
  have "bech32Polymod (hrpExpand hrp @ data @ ?cs) = foldl polymodStep (?c XOR 0) ?cs"
    by (simp add: bech32Polymod_def)
  also have "\<dots> = ?z XOR foldl (\<lambda>x v. push_bit 5 x XOR of_nat v) 0 ?cs"
    using polymod_low [of 0 0 ?cs ?c] createChecksum_small [of hrp data] by (simp add: cs)
  also have "\<dots> = ?z XOR (?z XOR 1)"
    unfolding cs symbols_join [OF p] ..
  also have "\<dots> = 1"
    by (simp add: xor.assoc [symmetric])
  finally show ?thesis
    by (simp add: verifyChecksum_def)
qed

section \<open>Round trips\<close>

lemma indexOf_charset:
  assumes "v < 32"
  shows "indexOf (bech32Charset ! v) bech32Charset = Some v"
proof -
  have "list_all (\<lambda>v. indexOf (bech32Charset ! v) bech32Charset = Some v) [0..<32]"
    by code_simp
  with assms show ?thesis
    by (simp add: list_all_iff)
qed

lemma charset_chars: "v < 32 \<Longrightarrow> bech32Charset ! v \<noteq> CHR ''1'' \<and> toLowerChar (bech32Charset ! v) = bech32Charset ! v"
proof -
  have "list_all (\<lambda>v. bech32Charset ! v \<noteq> CHR ''1'' \<and> toLowerChar (bech32Charset ! v) = bech32Charset ! v) [0..<32]"
    by code_simp
  then show "v < 32 \<Longrightarrow> ?thesis"
    by (simp add: list_all_iff)
qed

lemma decodeSymbols_map: "list_all (\<lambda>v. v < 32) vs \<Longrightarrow> decodeSymbols (map ((!) bech32Charset) vs) = Some vs"
  by (induction vs) (simp_all add: indexOf_charset)

lemma indexOf_append:
  "c \<notin> set xs \<Longrightarrow> indexOf c (xs @ c # ys) = Some (length xs)"
  by (induction xs) auto

lemma lastIndex_append:
  assumes "c \<notin> set ys"
  shows "lastIndex c (xs @ c # ys) = Some (length xs)"
  using assms indexOf_append [of c "rev ys" "rev xs"] by (simp add: lastIndex_def)

lemma length_createChecksum [simp]: "length (createChecksum hrp data) = 6"
  by (simp add: createChecksum_def Let_def)

lemma bech32_roundtrip:
  assumes "validateHRP hrp = None"
  shows "\<exists>v. bech32Encode hrp payload = Inr v \<and> bech32Decode v = Inr (hrp, payload)"
proof -
  have "list_all (\<lambda>v. v < 256) (map of_char payload :: nat list)"
    by (simp add: list_all_iff)
  from convertBits_roundtrip [OF this] obtain data where data: "convertBits (map of_char payload) 8 5 True = Inr data"
    "list_all (\<lambda>v. v < 32) data" "convertBits data 5 8 False = Inr (map of_char payload)"
    by blast
  let ?all = "data @ createChecksum hrp data"
  let ?enc = "map ((!) bech32Charset) ?all"
  let ?v = "hrp @ CHR ''1'' # ?enc"
  have all: "list_all (\<lambda>v. v < 32) ?all"
    using data(2) createChecksum_small by simp
  have len: "length bech32Charset = 32"
    by (simp add: bech32Charset_def)
  have enc: "bech32Encode hrp payload = Inr ?v"
  proof -
    have "\<not> list_ex (\<lambda>val. length bech32Charset \<le> val) ?all"
      using all unfolding list_ex_iff list_all_iff len by (meson not_le)
    then show ?thesis
      by (simp only: bech32Encode_def data(1) Let_def sum.case if_False append_Cons append_Nil)
  qed
  have chars: "\<forall>c \<in> set ?enc. c \<noteq> CHR ''1'' \<and> toLowerChar c = c"
    using all charset_chars by (force simp: list_all_iff)
  have hrp: "hrp \<noteq> []" "ToLower hrp = hrp"
    using assms by (auto simp: validateHRP_def split: if_splits)
  have "map toLowerChar ?enc = ?enc"
    using chars by (intro map_idI) blast
  moreover have "toLowerChar CHR ''1'' = CHR ''1''"
    by (simp add: toLowerChar_def)
  ultimately have low: "ToLower ?v = ?v"
    using hrp(2) by (simp only: ToLower_def map_append list.map)
  have idx: "lastIndex CHR ''1'' ?v = Some (length hrp)"
    using chars by (intro lastIndex_append) blast
  have "0 < length hrp"
    using hrp(1) by simp
  then have "bech32Decode ?v = Inr (hrp, map char_of (map of_char payload :: nat list))"
    unfolding bech32Decode_def low Let_def idx
    using decodeSymbols_map [OF all] checksum_verifies [of hrp data] data(3) assms by simp
  also have "map char_of (map of_char payload :: nat list) = payload"
    by (simp add: comp_def)
  finally show ?thesis
    using enc by blast
qed

text \<open>
  C39: Addresses decode to what they were made of.  For every human-readable prefix that is allowed, encoding a
  payload succeeds and decoding the result gives the prefix and the payload back; so the address of a public key
  is accepted as an address with that prefix and with no other, and matches its key.
\<close>

theorem address_roundtrip:
  assumes "validateHRP hrp = None"
  shows "(\<exists>v. bech32Encode hrp payload = Inr v \<and> bech32Decode v = Inr (hrp, payload))
    \<and> (publicKey \<noteq> [] \<longrightarrow> (\<exists>a. FromPublicKey hrp publicKey = Inr a \<and> HRP a = Inr hrp
          \<and> MatchesPublicKey a hrp publicKey = None
          \<and> (Address_Validate a expected = None \<longleftrightarrow> expected = [] \<or> expected = hrp)))"
proof (intro conjI impI)
  show "\<exists>v. bech32Encode hrp payload = Inr v \<and> bech32Decode v = Inr (hrp, payload)"
    by (rule bech32_roundtrip [OF assms])
  let ?p = "take addressLength (hash_bytes (sha256 (address_preimage hrp publicKey)))"
  obtain a where a: "bech32Encode hrp ?p = Inr a" "bech32Decode a = Inr (hrp, ?p)"
    using bech32_roundtrip [OF assms] by blast
  assume "publicKey \<noteq> []"
  then have "FromPublicKey hrp publicKey = Inr a"
    by (simp add: FromPublicKey_def assms a(1))
  moreover have "length ?p = addressLength"
    by (simp add: addressLength_def)
  ultimately show "\<exists>a. FromPublicKey hrp publicKey = Inr a \<and> HRP a = Inr hrp
      \<and> MatchesPublicKey a hrp publicKey = None
      \<and> (Address_Validate a expected = None \<longleftrightarrow> expected = [] \<or> expected = hrp)"
    by (intro exI [of _ a]) (auto simp: Address_Validate_def HRP_def MatchesPublicKey_def a(2))
qed

theorem address_roundtrip_witness:
  "bech32Decode (projr (bech32Encode ''vexo'' ''ab'')) = Inr (''vexo'', ''ab'')
   \<and> (\<exists>a. AccountFromPublicKey ''key'' = Inr a \<and> Address_Validate a ''vexovaloper'' \<noteq> None)"
proof -
  have "validateHRP ''vexo'' = None"
    by code_simp
  from address_roundtrip [OF this, of "''ab''" "''key''" "''vexovaloper''"] show ?thesis
    by (auto simp: AccountFromPublicKey_def AccountHRP_def)
qed

end
