(* ===== verification/Transactions.thy ===== *)
theory Transactions
  imports TxMeta Address
begin

text \<open>
  Transactions of the application: \<^verbatim>\<open>app/canonical_tx.go\<close> and \<^verbatim>\<open>app/signed_tx.go\<close>.  A payload is a text of parts
  separated by colons, some of them tags; a signed transaction is an envelope around a payload.  Shown are the
  round trips of both formats and what an accepted signature says.  The JSON codec of the envelope is a
  parameter.
\<close>

section \<open>base64.StdEncoding.EncodeToString\<close>

definition b64char :: "nat \<Rightarrow> char" where
  "b64char n =
     (if n < 26 then char_of (n + 65) else if n < 52 then char_of (n + 71)
      else if n < 62 then char_of (n - 4) else if n = 62 then CHR ''+'' else CHR ''/'')"

fun b64encode :: "bytes \<Rightarrow> string" where
  "b64encode [] = []"
| "b64encode [a] =
     (let x = of_char a in [b64char (x div 4), b64char (x mod 4 * 16), CHR ''='', CHR ''=''])"
| "b64encode [a, b] =
     (let x = of_char a; y = of_char b in
      [b64char (x div 4), b64char (x mod 4 * 16 + y div 16), b64char (y mod 16 * 4), CHR ''=''])"
| "b64encode (a # b # c # rest) =
     (let x = of_char a; y = of_char b; z = of_char c in
      [b64char (x div 4), b64char (x mod 4 * 16 + y div 16), b64char (y mod 16 * 4 + z div 64), b64char (z mod 64)]
      @ b64encode rest)"

section \<open>Errors of the application package\<close>

datatype app_error =
    ErrInvalidCanonicalTx
  | ErrMissingTxModule
  | ErrMissingTxAction
  | ErrInvalidSignedTx
  | ErrInvalidTxSignature
  | ErrSignerAddressMismatch
  | AppAddressError address_error
  | AppCryptoError crypto_error
  | AppJSONError string

section \<open>Signed transactions (signed_tx.go)\<close>

record SignedTxEnvelope =
  env_SchemaVersion :: string
  env_ChainID :: string
  env_Payload :: string
  env_PublicKey :: string
  env_Signature :: string

record envelope_codec =
  marshalEnvelope :: "SignedTxEnvelope \<Rightarrow> string + bytes"
  unmarshalEnvelope :: "bytes \<Rightarrow> SignedTxEnvelope option"

definition signedTxPrefix :: string where
  "signedTxPrefix = ''signed:''"

definition IsSignedTx :: "Tx \<Rightarrow> bool" where
  "IsSignedTx tx \<longleftrightarrow> prefix signedTxPrefix tx"

definition DecodeSignedTx :: "envelope_codec \<Rightarrow> Tx \<Rightarrow> app_error + SignedTxEnvelope \<times> Tx" where
  "DecodeSignedTx json tx =
     (if \<not> IsSignedTx tx then Inl ErrInvalidSignedTx
      else
        case b64decode (drop (length signedTxPrefix) tx) of
          None \<Rightarrow> Inl ErrInvalidSignedTx
        | Some document \<Rightarrow>
            (case unmarshalEnvelope json document of
               None \<Rightarrow> Inl ErrInvalidSignedTx
             | Some envelope \<Rightarrow>
                 if env_SchemaVersion envelope \<noteq> ''v1'' \<or> env_Payload envelope = [] \<or> env_PublicKey envelope = []
                    \<or> env_Signature envelope = []
                 then Inl ErrInvalidSignedTx
                 else
                   case b64decode (env_Payload envelope) of
                     None \<Rightarrow> Inl ErrInvalidSignedTx
                   | Some payload \<Rightarrow> Inr (envelope, payload)))"

definition TxPayload :: "envelope_codec \<Rightarrow> Tx \<Rightarrow> Tx" where
  "TxPayload json tx = (case DecodeSignedTx json tx of Inl _ \<Rightarrow> tx | Inr (_, payload) \<Rightarrow> payload)"

definition SignedTxSignBytes :: "string \<Rightarrow> Tx \<Rightarrow> bytes" where
  "SignedTxSignBytes chainID payload =
     ''vexo:signed-tx:v1'' @ [CHR 0x0A] @ chainID @ [CHR 0x0A] @ payload"

section \<open>Canonical transactions (canonical_tx.go)\<close>

text \<open>The tags are a map; a nil map and an empty one are not told apart.\<close>

record CanonicalTx =
  can_Module :: string
  can_Action :: string
  can_Args :: "string list"
  can_Tags :: "(string, string) gomap"

fun parseParts :: "string list \<Rightarrow> CanonicalTx \<Rightarrow> app_error + CanonicalTx" where
  "parseParts [] canonical = Inr canonical"
| "parseParts (part # parts) canonical =
     (case cutOn CHR ''='' part of
        Some (key, val) \<Rightarrow>
          if key = [] then Inl ErrInvalidCanonicalTx
          else parseParts parts (canonical\<lparr>can_Tags := AList.update key val (can_Tags canonical)\<rparr>)
      | None \<Rightarrow> parseParts parts (canonical\<lparr>can_Args := can_Args canonical @ [part]\<rparr>))"

definition ParseCanonicalTx :: "envelope_codec \<Rightarrow> Tx \<Rightarrow> app_error + CanonicalTx" where
  "ParseCanonicalTx json tx =
     (let parts = splitOn CHR '':'' (TxPayload json tx) in
      if length parts < 2 \<or> parts ! 0 = [] then Inl ErrMissingTxModule
      else if parts ! 1 = [] then Inl ErrMissingTxAction
      else parseParts (drop 2 parts)
             \<lparr>can_Module = parts ! 0, can_Action = parts ! 1, can_Args = [], can_Tags = []\<rparr>)"

definition tagSortRank :: "string \<Rightarrow> nat" where
  "tagSortRank key =
     (if key = ''fee'' then 10
      else if key = ''gas'' then 20
      else if key = ''gas_limit'' then 21
      else if key = ''signer'' then 30
      else if key = ''nonce'' then 40
      else if key = ''priority'' then 50
      else 100)"

text \<open>By rank, and by name among keys of one rank: the second sort is stable.\<close>

definition CanonicalTagKeys :: "(string, string) gomap \<Rightarrow> string list" where
  "CanonicalTagKeys tags = sort_key tagSortRank (sort (map fst tags))"

definition BuildCanonicalTx :: "CanonicalTx \<Rightarrow> app_error + Tx" where
  "BuildCanonicalTx tx =
     (if can_Module tx = [] then Inl ErrMissingTxModule
      else if can_Action tx = [] then Inl ErrMissingTxAction
      else Inr (joinWith CHR '':'' ([can_Module tx, can_Action tx] @ can_Args tx
             @ map (\<lambda>key. key @ ''='' @ the (map_of (can_Tags tx) key)) (CanonicalTagKeys (can_Tags tx)))))"

definition TxTag :: "envelope_codec \<Rightarrow> Tx \<Rightarrow> string \<Rightarrow> string option" where
  "TxTag json tx key =
     (case ParseCanonicalTx json tx of Inl _ \<Rightarrow> None | Inr canonical \<Rightarrow> map_of (can_Tags canonical) key)"

definition TxUintTag :: "envelope_codec \<Rightarrow> Tx \<Rightarrow> string \<Rightarrow> u64 option" where
  "TxUintTag json tx key = (case TxTag json tx key of None \<Rightarrow> None | Some val \<Rightarrow> ParseUint val)"

definition TxAmountBigTag :: "envelope_codec \<Rightarrow> Tx \<Rightarrow> string \<Rightarrow> nat option" where
  "TxAmountBigTag json tx key = (case TxTag json tx key of None \<Rightarrow> None | Some val \<Rightarrow> ParseAmountBig val)"

definition TxAmountTag :: "envelope_codec \<Rightarrow> Tx \<Rightarrow> string \<Rightarrow> u64 option" where
  "TxAmountTag json tx key =
     (case TxAmountBigTag json tx key of
        None \<Rightarrow> None
      | Some parsed \<Rightarrow> if parsed < 2 ^ 64 then Some (word_of_nat parsed) else None)"

section \<open>Signing and verifying (signed_tx.go)\<close>

definition validatePayloadSignerAddress :: "envelope_codec \<Rightarrow> Tx \<Rightarrow> PublicKey \<Rightarrow> app_error option" where
  "validatePayloadSignerAddress json payload publicKey =
     (case TxTag json payload ''signer'' of
        None \<Rightarrow> None
      | Some signer \<Rightarrow>
          if signer = [] then None
          else
            case AccountFromPublicKey publicKey of
              Inl e \<Rightarrow> Some (AppAddressError e)
            | Inr expected \<Rightarrow> if signer \<noteq> expected then Some ErrSignerAddressMismatch else None)"

definition SignTx :: "envelope_codec \<Rightarrow> string \<Rightarrow> Tx \<Rightarrow> Signer \<Rightarrow> app_error + Tx" where
  "SignTx json chainID payload signer =
     (case validatePayloadSignerAddress json payload (sg_PublicKey signer) of
        Some e \<Rightarrow> Inl e
      | None \<Rightarrow>
          case sg_Sign signer (SignedTxSignBytes chainID payload) of
            Inl e \<Rightarrow> Inl (AppCryptoError e)
          | Inr signature \<Rightarrow>
              (case marshalEnvelope json \<lparr>env_SchemaVersion = ''v1'', env_ChainID = chainID,
                      env_Payload = b64encode payload, env_PublicKey = b64encode (sg_PublicKey signer),
                      env_Signature = b64encode signature\<rparr> of
                 Inl e \<Rightarrow> Inl (AppJSONError e)
               | Inr encoded \<Rightarrow> Inr (signedTxPrefix @ b64encode encoded)))"

type_synonym tx_verifier = "PublicKey \<Rightarrow> bytes \<Rightarrow> Signature \<Rightarrow> bool"

definition VerifySignedTx :: "envelope_codec \<Rightarrow> string \<Rightarrow> Tx \<Rightarrow> tx_verifier option \<Rightarrow> app_error option" where
  "VerifySignedTx json chainID tx verifier =
     (case DecodeSignedTx json tx of
        Inl e \<Rightarrow> Some e
      | Inr (envelope, payload) \<Rightarrow>
          (case verifier of
             None \<Rightarrow> Some ErrInvalidTxSignature
           | Some verify \<Rightarrow>
               if env_ChainID envelope \<noteq> chainID then Some ErrInvalidSignedTx
               else
                 case b64decode (env_PublicKey envelope) of
                   None \<Rightarrow> Some ErrInvalidSignedTx
                 | Some publicKey \<Rightarrow>
                     (case b64decode (env_Signature envelope) of
                        None \<Rightarrow> Some ErrInvalidSignedTx
                      | Some signature \<Rightarrow>
                          if \<not> verify publicKey (SignedTxSignBytes chainID payload) signature
                          then Some ErrInvalidTxSignature
                          else validatePayloadSignerAddress json payload publicKey)))"

section \<open>Round trips of the encodings\<close>

lemma b64val_b64char:
  assumes "n < 64"
  shows "b64val (b64char n) = Some n" and "b64char n \<notin> {CHR ''='', CHR 0x0A, CHR 0x0D}"
proof -
  consider "n < 26" | "26 \<le> n" "n < 52" | "52 \<le> n" "n < 62" | "n = 62" | "n = 63"
    using assms by linarith
  then show val: "b64val (b64char n) = Some n"
  proof cases
    case 1
    then have "of_char (b64char n) = n + 65"
      by (simp add: b64char_def)
    with 1 show ?thesis
      by (simp add: b64val_def Let_def)
  next
    case 2
    then have "of_char (b64char n) = n + 71"
      by (simp add: b64char_def)
    with 2 show ?thesis
      by (simp add: b64val_def Let_def)
  next
    case 3
    then have "of_char (b64char n) = n - 4"
      by (simp add: b64char_def)
    with 3 show ?thesis
      by (auto simp: b64val_def Let_def)
  qed (simp_all add: b64char_def b64val_def)
  have "b64val CHR ''='' = None" "b64val CHR 0x0A = None" "b64val CHR 0x0D = None"
    by (simp_all add: b64val_def)
  with val show "b64char n \<notin> {CHR ''='', CHR 0x0A, CHR 0x0D}"
    by auto
qed

lemma b64_parts:
  fixes x y z :: nat
  assumes "x < 256" "y < 256" "z < 256"
  shows "x div 4 < 64" "x mod 4 * 16 < 64" "x mod 4 * 16 + y div 16 < 64" "y mod 16 * 4 < 64"
    "y mod 16 * 4 + z div 64 < 64" "z mod 64 < 64"
    "x div 4 * 4 + (x mod 4 * 16) div 16 = x" "x div 4 * 4 + (x mod 4 * 16 + y div 16) div 16 = x"
    "((x mod 4 * 16 + y div 16) * 16 + (y mod 16 * 4) div 4) mod 256 = y"
    "((x mod 4 * 16 + y div 16) * 16 + (y mod 16 * 4 + z div 64) div 4) mod 256 = y"
    "((y mod 16 * 4 + z div 64) * 64 + z mod 64) mod 256 = z"
proof -
  have pack: "(a * k + b) div k = a" if "b < k" for a b k :: nat
    using that by simp
  have small: "x div 4 < 64" "y div 16 < 16" "z div 64 < 4" "x mod 4 < 4" "y mod 16 < 16" "z mod 64 < 64"
    using assms by auto
  then show "x div 4 < 64" "x mod 4 * 16 < 64" "x mod 4 * 16 + y div 16 < 64" "y mod 16 * 4 < 64"
    "y mod 16 * 4 + z div 64 < 64" "z mod 64 < 64"
    by linarith+
  show "x div 4 * 4 + (x mod 4 * 16) div 16 = x"
    by simp
  show "x div 4 * 4 + (x mod 4 * 16 + y div 16) div 16 = x"
    unfolding pack [OF small(2)] by simp
  have y: "(x mod 4 * 16 + y div 16) * 16 + y mod 16 = x mod 4 * 256 + y"
    by (simp add: add_mult_distrib)
  show "((x mod 4 * 16 + y div 16) * 16 + (y mod 16 * 4) div 4) mod 256 = y"
    using y assms(2) by simp
  show "((x mod 4 * 16 + y div 16) * 16 + (y mod 16 * 4 + z div 64) div 4) mod 256 = y"
    unfolding pack [OF small(3)] y using assms(2) by simp
  have "(y mod 16 * 4 + z div 64) * 64 + z mod 64 = y mod 16 * 256 + z"
    by (simp add: add_mult_distrib)
  then show "((y mod 16 * 4 + z div 64) * 64 + z mod 64) mod 256 = z"
    using assms(3) by simp
qed

lemma b64groups_b64encode: "b64groups (b64encode bs) = Some bs"
proof (induction bs rule: b64encode.induct)
  case (2 a)
  have "(of_char a :: nat) < 256"
    by simp
  note p = b64_parts [OF this this this]
  from b64val_b64char [OF p(1)] b64val_b64char [OF p(2)] p(7) show ?case
    by (simp add: Let_def)
next
  case (3 a b)
  have "(of_char a :: nat) < 256" "(of_char b :: nat) < 256"
    by simp_all
  note p = b64_parts [OF this this(2)]
  have "char_of (((of_char a mod 4 * 16 + of_char b div 16) * 16 + (of_char b mod 16 * 4) div 4) mod 256 :: nat) = b"
    by (simp only: p(9)) simp
  then have "char_of ((of_char a mod 4 * 16 + of_char b div 16) * 16 + (of_char b mod 16 * 4) div 4 :: nat) = b"
    by (simp only: char_of_mod_256)
  with b64val_b64char [OF p(1)] b64val_b64char [OF p(3)] b64val_b64char [OF p(4)] p(8) show ?case
    by (simp add: Let_def)
next
  case (4 a b c rest)
  have "(of_char a :: nat) < 256" "(of_char b :: nat) < 256" "(of_char c :: nat) < 256"
    by simp_all
  note p = b64_parts [OF this]
  have "char_of (((of_char a mod 4 * 16 + of_char b div 16) * 16 + (of_char b mod 16 * 4 + of_char c div 64) div 4) mod 256 :: nat) = b"
    "char_of (((of_char b mod 16 * 4 + of_char c div 64) * 64 + of_char c mod 64) mod 256 :: nat) = c"
    by (simp_all only: p(10,11)) simp_all
  then have "char_of ((of_char a mod 4 * 16 + of_char b div 16) * 16 + (of_char b mod 16 * 4 + of_char c div 64) div 4 :: nat) = b"
    "char_of ((of_char b mod 16 * 4 + of_char c div 64) * 64 + of_char c mod 64 :: nat) = c"
    by (simp_all only: char_of_mod_256)
  with 4 b64val_b64char [OF p(1)] b64val_b64char [OF p(3)] b64val_b64char [OF p(5)] b64val_b64char [OF p(6)] p(8)
  show ?case
    by (simp add: Let_def)
qed simp

lemma b64encode_clean: "list_all (\<lambda>c. c \<noteq> CHR 0x0A \<and> c \<noteq> CHR 0x0D) (b64encode bs)"
proof -
  have b: "b64char n \<noteq> CHR 0x0A \<and> b64char n \<noteq> CHR 0x0D" for n
    by (cases "n < 64") (use b64val_b64char(2) [of n] in \<open>auto simp: b64char_def\<close>)
  show ?thesis
    by (induction bs rule: b64encode.induct) (simp_all add: Let_def b)
qed

lemma b64_roundtrip: "b64decode (b64encode bs) = Some bs"
proof -
  have "filter (\<lambda>c. c \<noteq> CHR 0x0A \<and> c \<noteq> CHR 0x0D) (b64encode bs) = b64encode bs"
    using b64encode_clean [of bs] by (simp add: filter_id_conv list_all_iff)
  then show ?thesis
    by (simp only: b64decode_def b64groups_b64encode)
qed

lemma b64encode_empty [simp]: "b64encode bs = [] \<longleftrightarrow> bs = []"
  by (induction bs rule: b64encode.induct) (simp_all add: Let_def)

section \<open>What a signature says\<close>

definition codec_faithful :: "envelope_codec \<Rightarrow> bool" where
  "codec_faithful json \<longleftrightarrow> (\<forall>e bs. marshalEnvelope json e = Inr bs \<longrightarrow> unmarshalEnvelope json bs = Some e)"

text \<open>What a signer signs verifies under its key and is not empty.\<close>

definition signer_correct :: "Signer \<Rightarrow> tx_verifier \<Rightarrow> bool" where
  "signer_correct signer verify \<longleftrightarrow> sg_PublicKey signer \<noteq> []
     \<and> (\<forall>m sig. sg_Sign signer m = Inr sig \<longrightarrow> sig \<noteq> [] \<and> verify (sg_PublicKey signer) m sig)"

lemma SignTx_decode:
  assumes "codec_faithful json" and "signer_correct signer verify" and "payload \<noteq> []"
    and "SignTx json chainID payload signer = Inr tx"
  obtains sig where "DecodeSignedTx json tx = Inr (\<lparr>env_SchemaVersion = ''v1'', env_ChainID = chainID,
      env_Payload = b64encode payload, env_PublicKey = b64encode (sg_PublicKey signer),
      env_Signature = b64encode sig\<rparr>, payload)"
    and "verify (sg_PublicKey signer) (SignedTxSignBytes chainID payload) sig"
    and "validatePayloadSignerAddress json payload (sg_PublicKey signer) = None"
proof -
  from assms(4) obtain sig bs where s: "sg_Sign signer (SignedTxSignBytes chainID payload) = Inr sig"
    "marshalEnvelope json \<lparr>env_SchemaVersion = ''v1'', env_ChainID = chainID,
      env_Payload = b64encode payload, env_PublicKey = b64encode (sg_PublicKey signer),
      env_Signature = b64encode sig\<rparr> = Inr bs" "tx = signedTxPrefix @ b64encode bs"
    "validatePayloadSignerAddress json payload (sg_PublicKey signer) = None"
    by (auto simp: SignTx_def split: option.splits sum.splits)
  then show ?thesis
    using assms(1-3) that [of sig]
    by (auto simp: DecodeSignedTx_def IsSignedTx_def b64_roundtrip codec_faithful_def signer_correct_def)
qed


lemma VerifySignedTx_sound:
  assumes "VerifySignedTx json chainID tx (Some verify) = None"
  shows "\<exists>pk sig. verify pk (SignedTxSignBytes chainID (TxPayload json tx)) sig
    \<and> (\<forall>signer. TxTag json (TxPayload json tx) ''signer'' = Some signer \<longrightarrow> signer \<noteq> []
         \<longrightarrow> AccountFromPublicKey pk = Inr signer)"
proof -
  from assms obtain envelope payload pk sig where d: "DecodeSignedTx json tx = Inr (envelope, payload)"
    "verify pk (SignedTxSignBytes chainID payload) sig" "validatePayloadSignerAddress json payload pk = None"
    by (auto simp: VerifySignedTx_def split: sum.splits option.splits if_splits)
  then have "\<forall>signer. TxTag json payload ''signer'' = Some signer \<longrightarrow> signer \<noteq> [] \<longrightarrow> AccountFromPublicKey pk = Inr signer"
    by (auto simp: validatePayloadSignerAddress_def split: sum.splits if_splits)
  moreover have "TxPayload json tx = payload"
    by (simp add: TxPayload_def d(1))
  ultimately show ?thesis
    using d(2) by blast
qed

section \<open>Building and parsing\<close>

text \<open>Texts that the separators do not cut.\<close>

definition can_ok :: "CanonicalTx \<Rightarrow> bool" where
  "can_ok tx \<longleftrightarrow> can_Module tx \<noteq> [] \<and> can_Module tx \<noteq> ''signed'' \<and> can_Action tx \<noteq> []
     \<and> list_all (\<lambda>s. CHR '':'' \<notin> set s) (can_Module tx # can_Action tx # can_Args tx)
     \<and> list_all (\<lambda>s. CHR ''='' \<notin> set s) (can_Args tx)
     \<and> distinct (map fst (can_Tags tx))
     \<and> list_all (\<lambda>(k, v). k \<noteq> [] \<and> CHR '':'' \<notin> set (k @ v) \<and> CHR ''='' \<notin> set k) (can_Tags tx)"

lemma joinWith_Cons2: "joinWith sep (x # y # ys) = x @ sep # joinWith sep (y # ys)"
  by simp

lemma unsigned_payload:
  assumes "CHR '':'' \<notin> set m" and "m \<noteq> ''signed''"
  shows "TxPayload json (m @ CHR '':'' # rest) = m @ CHR '':'' # rest"
proof -
  have "\<not> prefix ''signed:'' (m @ CHR '':'' # rest)"
  proof
    assume "prefix ''signed:'' (m @ CHR '':'' # rest)"
    then obtain r where r: "m @ CHR '':'' # rest = ''signed'' @ CHR '':'' # r"
      by (auto simp: prefix_def)
    have "takeWhile (\<lambda>c. c \<noteq> CHR '':'') (m @ CHR '':'' # rest) = m"
      using assms(1) by (induction m) auto
    moreover have "takeWhile (\<lambda>c. c \<noteq> CHR '':'') (''signed'' @ CHR '':'' # r) = ''signed''"
      by simp
    ultimately show False
      using r assms(2) by simp
  qed
  then show ?thesis
    by (simp add: TxPayload_def DecodeSignedTx_def IsSignedTx_def signedTxPrefix_def)
qed

lemma parseParts_args:
  "list_all (\<lambda>s. CHR ''='' \<notin> set s) args \<Longrightarrow>
     parseParts (args @ parts) c = parseParts parts (c\<lparr>can_Args := can_Args c @ args\<rparr>)"
  by (induction args arbitrary: c) (simp_all add: cutOn_def)

lemma parseParts_tags:
  "list_all (\<lambda>k. k \<noteq> [] \<and> CHR ''='' \<notin> set k) keys \<Longrightarrow>
     \<exists>tags. parseParts (map (\<lambda>k. k @ ''='' @ f k) keys) c = Inr (c\<lparr>can_Tags := tags\<rparr>)
       \<and> map_of tags = (\<lambda>k. if k \<in> set keys then Some (f k) else map_of (can_Tags c) k)"
proof (induction keys arbitrary: c)
  case Nil
  then show ?case
    by (intro exI [of _ "can_Tags c"]) simp
next
  case (Cons k keys)
  let ?c = "c\<lparr>can_Tags := AList.update k (f k) (can_Tags c)\<rparr>"
  have "list_all (\<lambda>k. k \<noteq> [] \<and> CHR ''='' \<notin> set k) keys"
    using Cons.prems by simp
  from Cons.IH [OF this, of ?c] obtain tags where
    "parseParts (map (\<lambda>k. k @ ''='' @ f k) keys) ?c = Inr (?c\<lparr>can_Tags := tags\<rparr>)"
    "map_of tags = (\<lambda>k'. if k' \<in> set keys then Some (f k') else map_of (can_Tags ?c) k')"
    by blast
  then show ?case
    using Cons.prems cutOn_append [of "CHR ''=''" k "f k"]
    by (intro exI [of _ tags]) (auto simp: update_conv')
qed

text \<open>
  Canonical transactions parse to what they were built from: module, action, arguments in order, and the
  same tags.
\<close>

theorem canonical_tx_roundtrip:
  assumes "can_ok c"
  shows "\<exists>tx parsed. BuildCanonicalTx c = Inr tx \<and> ParseCanonicalTx json tx = Inr parsed
    \<and> can_Module parsed = can_Module c \<and> can_Action parsed = can_Action c \<and> can_Args parsed = can_Args c
    \<and> map_of (can_Tags parsed) = map_of (can_Tags c) \<and> TxTag json tx k = map_of (can_Tags c) k"
proof -
  let ?keys = "CanonicalTagKeys (can_Tags c)"
  let ?f = "\<lambda>k. the (map_of (can_Tags c) k)"
  let ?tags = "map (\<lambda>k. k @ ''='' @ ?f k) ?keys"
  let ?parts = "can_Module c # can_Action c # can_Args c @ ?tags"
  let ?tx = "joinWith CHR '':'' ?parts"
  have keys: "set ?keys = fst ` set (can_Tags c)"
    by (simp add: CanonicalTagKeys_def)
  have pair: "(k, ?f k) \<in> set (can_Tags c)" if "k \<in> set ?keys" for k
    using that assms by (auto simp: keys can_ok_def)
  have build: "BuildCanonicalTx c = Inr ?tx"
    using assms by (simp add: BuildCanonicalTx_def can_ok_def)
  have "\<forall>p \<in> set ?parts. CHR '':'' \<notin> set p"
    using assms pair by (fastforce simp: can_ok_def list_all_iff)
  then have split: "splitOn CHR '':'' ?tx = ?parts"
    by (intro splitOn_joinWith) auto
  have payload: "TxPayload json ?tx = ?tx"
    unfolding joinWith_Cons2 by (rule unsigned_payload) (use assms in \<open>simp_all add: can_ok_def\<close>)
  have "list_all (\<lambda>k. k \<noteq> [] \<and> CHR ''='' \<notin> set k) ?keys"
    using assms pair by (fastforce simp: can_ok_def list_all_iff)
  from parseParts_tags [OF this, of ?f "\<lparr>can_Module = can_Module c, can_Action = can_Action c,
      can_Args = can_Args c, can_Tags = []\<rparr>"] obtain tags where tags:
    "parseParts ?tags \<lparr>can_Module = can_Module c, can_Action = can_Action c, can_Args = can_Args c, can_Tags = []\<rparr>
       = Inr \<lparr>can_Module = can_Module c, can_Action = can_Action c, can_Args = can_Args c, can_Tags = tags\<rparr>"
    "map_of tags = (\<lambda>k. if k \<in> set ?keys then Some (?f k) else None)"
    by (auto cong: if_cong)
  have parse: "ParseCanonicalTx json ?tx = Inr \<lparr>can_Module = can_Module c, can_Action = can_Action c,
      can_Args = can_Args c, can_Tags = tags\<rparr>"
    unfolding ParseCanonicalTx_def payload split Let_def
    using assms parseParts_args [of "can_Args c" ?tags] tags(1) by (simp add: can_ok_def)
  have "map_of tags = map_of (can_Tags c)"
  proof
    fix k
    show "map_of tags k = map_of (can_Tags c) k"
      unfolding tags(2) keys using map_of_eq_None_iff [of "can_Tags c" k]
      by (cases "k \<in> fst ` set (can_Tags c)") auto
  qed
  with build parse show ?thesis
    by (simp add: TxTag_def)
qed

section \<open>A codec\<close>

text \<open>The five fields in base64, separated by commas.\<close>

definition ex_envelope_codec :: envelope_codec where
  "ex_envelope_codec = \<lparr>marshalEnvelope = \<lambda>e. Inr (joinWith CHR '','' (map b64encode
       [env_SchemaVersion e, env_ChainID e, env_Payload e, env_PublicKey e, env_Signature e])),
     unmarshalEnvelope = \<lambda>bs. (case map b64decode (splitOn CHR '','' bs) of
       [Some a, Some b, Some c, Some d, Some e] \<Rightarrow> Some \<lparr>env_SchemaVersion = a, env_ChainID = b, env_Payload = c,
          env_PublicKey = d, env_Signature = e\<rparr>
     | _ \<Rightarrow> None)\<rparr>"

lemma b64char_cases: "b64val (b64char n) \<noteq> None"
  by (cases "n < 64") (use b64val_b64char(1) [of n] in \<open>auto simp: b64char_def b64val_def Let_def\<close>)

lemma b64encode_comma: "CHR '','' \<notin> set (b64encode bs)"
proof -
  have "b64val CHR '','' = None"
    by (simp add: b64val_def)
  then have "b64char n \<noteq> CHR '',''" "CHR '','' \<noteq> b64char n" for n
    using b64char_cases [of n] by auto
  then show ?thesis
    by (induction bs rule: b64encode.induct) (simp_all add: Let_def)
qed

lemma ex_envelope_codec_faithful: "codec_faithful ex_envelope_codec"
proof -
  have "splitOn CHR '','' (joinWith CHR '','' (map b64encode xs)) = map b64encode xs" if "xs \<noteq> []" for xs
    using that b64encode_comma by (intro splitOn_joinWith) auto
  from this [of "[a, b, c, d, e]" for a b c d e] show ?thesis
    by (simp add: codec_faithful_def ex_envelope_codec_def b64_roundtrip del: joinWith.simps)
qed

definition ex_tx_signer :: Signer where
  "ex_tx_signer = \<lparr>sg_PublicKey = ''k'', sg_Sign = \<lambda>m. Inr (CHR ''s'' # m), sg_Verify = \<lambda>_ m sig. sig = CHR ''s'' # m\<rparr>"


theorem canonical_tx_roundtrip_witness:
  "\<exists>tx. BuildCanonicalTx \<lparr>can_Module = ''bank'', can_Action = ''send'', can_Args = [''alice'', ''bob'', ''35''],
      can_Tags = [(''nonce'', ''7''), (''fee'', ''1'')]\<rparr> = Inr tx
     \<and> tx = ''bank:send:alice:bob:35:fee=1:nonce=7'' \<and> TxTag ex_envelope_codec tx ''nonce'' = Some ''7''"
proof -
  let ?c = "\<lparr>can_Module = ''bank'', can_Action = ''send'', can_Args = [''alice'', ''bob'', ''35''],
      can_Tags = [(''nonce'', ''7''), (''fee'', ''1'')]\<rparr>"
  have "can_ok ?c"
    by (simp add: can_ok_def)
  moreover have "BuildCanonicalTx ?c = Inr ''bank:send:alice:bob:35:fee=1:nonce=7''"
    by (simp add: BuildCanonicalTx_def CanonicalTagKeys_def tagSortRank_def sort_key_def less_eq_char_def)
  ultimately show ?thesis
    using canonical_tx_roundtrip [of ?c ex_envelope_codec "''nonce''"] by auto
qed

end
