(* ===== verification/Accounts.thy ===== *)
theory Accounts
  imports Storage Transactions
begin

text \<open>
  The execution context of the application: gas (\<^verbatim>\<open>app/gas.go\<close>), the context of a call (\<^verbatim>\<open>app/app.go\<close>) and account
  sequences (\<^verbatim>\<open>app/account.go\<close>).  Operations on a store take its operations as an argument, so that they run on
  every store; lemmas about them are proved from the contract \<open>state_store\<close>.
\<close>

section \<open>Gas (gas.go)\<close>

record GasMeter =
  gm_limit :: u64
  gm_used :: u64

definition NewGasMeter :: "u64 \<Rightarrow> GasMeter" where
  "NewGasMeter limit = \<lparr>gm_limit = limit, gm_used = 0\<rparr>"

text \<open>A nil meter is \<open>None\<close>; the result says whether the gas was enough.\<close>

definition GasMeter_Consume :: "GasMeter option \<Rightarrow> u64 \<Rightarrow> GasMeter option \<times> bool" where
  "GasMeter_Consume meter amount =
     (case meter of
        None \<Rightarrow> (None, True)
      | Some m \<Rightarrow>
          if amount = 0 then (meter, True)
          else if max_u64 - amount < gm_used m then (meter, False)
          else
            let next = gm_used m + amount in
            if 0 < gm_limit m \<and> gm_limit m < next then (meter, False)
            else (Some (m\<lparr>gm_used := next\<rparr>), True))"

definition GasMeter_Used :: "GasMeter option \<Rightarrow> u64" where
  "GasMeter_Used meter = (case meter of None \<Rightarrow> 0 | Some m \<Rightarrow> gm_used m)"

definition GasMeter_Limit :: "GasMeter option \<Rightarrow> u64" where
  "GasMeter_Limit meter = (case meter of None \<Rightarrow> 0 | Some m \<Rightarrow> gm_limit m)"

text \<open>A meter never exceeds its limit and never wraps around.\<close>

definition meter_ok :: "GasMeter \<Rightarrow> bool" where
  "meter_ok m \<longleftrightarrow> gm_limit m = 0 \<or> gm_used m \<le> gm_limit m"

lemma Consume_exact:
  assumes "GasMeter_Consume (Some m) amount = (m', ok)" and "meter_ok m"
  shows "(ok \<longleftrightarrow> unat (gm_used m) + unat amount < 2 ^ 64
            \<and> (amount = 0 \<or> gm_limit m = 0 \<or> unat (gm_used m) + unat amount \<le> unat (gm_limit m)))
    \<and> (\<exists>m1. m' = Some m1 \<and> meter_ok m1 \<and> gm_limit m1 = gm_limit m
         \<and> unat (gm_used m1) = unat (gm_used m) + (if ok then unat amount else 0))"
proof -
  have max: "unat (max_u64 - amount) = 2 ^ 64 - 1 - unat amount"
    by (simp add: unat_sub_u64)
  show ?thesis
    using assms unat_u64_less [of amount] unat_u64_less [of "gm_used m"]
    by (auto simp: GasMeter_Consume_def meter_ok_def Let_def word_less_nat_alt word_le_nat_alt max unat_add_u64 unat_eq_0
        split: if_splits)
qed

section \<open>The execution state of a call\<close>

text \<open>
  What \<^verbatim>\<open>app.Context\<close> carries: the values that a call reads, and, apart from them, the store and the gas meter
  that it changes.
\<close>

record AppContext =
  ac_Ctx :: ctx
  ac_ChainID :: string
  ac_EVMChainID :: u64
  ac_BaseFee :: u64
  ac_BlobBaseFee :: u64
  ac_Height :: Height
  ac_Header :: Header
  ac_Block :: "Block option"
  ac_TxResults :: "Result list"

record 's exec_state =
  xs_Store :: "'s option"
  xs_Gas :: "GasMeter option"

definition ConsumeGas :: "'s exec_state \<Rightarrow> u64 \<Rightarrow> 's exec_state \<times> bool" where
  "ConsumeGas st amount =
     (case GasMeter_Consume (xs_Gas st) amount of (meter, ok) \<Rightarrow> (st\<lparr>xs_Gas := meter\<rparr>, ok))"

section \<open>Account sequences (account.go)\<close>

datatype account_error = ErrInvalidAccountSequence | AccountStoreError store_error

definition nonceKey :: "string \<Rightarrow> bytes" where
  "nonceKey signer = ''nonce/'' @ signer"

definition Sequence :: "'s store_ops \<Rightarrow> 's option \<Rightarrow> ctx \<Rightarrow> string \<Rightarrow> account_error + u64" where
  "Sequence ops store ctx signer =
     (case store of
        None \<Rightarrow> Inl ErrInvalidAccountSequence
      | Some s \<Rightarrow>
          if signer = [] then Inl ErrInvalidAccountSequence
          else
            case op_Get ops s ctx ''auth'' (nonceKey signer) of
              Inl ErrStoreKeyNotFound \<Rightarrow> Inr 0
            | Inl e \<Rightarrow> Inl (AccountStoreError e)
            | Inr val \<Rightarrow>
                if length val \<noteq> 8 then Inl ErrInvalidAccountSequence else Inr (word_of_nat (be_nat val)))"

definition NextSequence :: "'s store_ops \<Rightarrow> 's option \<Rightarrow> ctx \<Rightarrow> string \<Rightarrow> account_error + u64" where
  "NextSequence ops store ctx signer =
     (case Sequence ops store ctx signer of Inl e \<Rightarrow> Inl e | Inr sequence \<Rightarrow> Inr (sequence + 1))"

definition SetSequence ::
    "'s store_ops \<Rightarrow> 's option \<Rightarrow> ctx \<Rightarrow> string \<Rightarrow> u64 \<Rightarrow> 's option \<times> account_error option" where
  "SetSequence ops store ctx signer sequence =
     (case store of
        None \<Rightarrow> (store, Some ErrInvalidAccountSequence)
      | Some s \<Rightarrow>
          if signer = [] then (store, Some ErrInvalidAccountSequence)
          else
            case op_Set ops s ctx ''auth'' (nonceKey signer) (be64 sequence) of
              (s, e) \<Rightarrow> (Some s, map_option AccountStoreError e))"

text \<open>The sequence that a store holds for a signer, if its entry is well formed.\<close>

definition sequence_of :: "contents \<Rightarrow> string \<Rightarrow> u64 option" where
  "sequence_of c signer =
     (case c ''auth'' (nonceKey signer) of
        None \<Rightarrow> Some 0
      | Some v \<Rightarrow> if length v = 8 then Some (word_of_nat (be_nat v)) else None)"

lemma nonceKey_ne [simp]: "nonceKey a \<noteq> []"
  by (simp add: nonceKey_def)

lemma nonceKey_inj [simp]: "nonceKey a = nonceKey b \<longleftrightarrow> a = b"
  by (simp add: nonceKey_def)

lemma be_nat_be64: "(word_of_nat (be_nat (be64 v)) :: u64) = v"
  using unat_u64_less [of v] by (simp add: be64_def)

context state_store
begin

lemma Sequence_get:
  assumes "ok s" and "signer \<noteq> []"
  shows "Sequence ops (Some s) None signer =
    (case sequence_of (contents s) signer of None \<Rightarrow> Inl ErrInvalidAccountSequence | Some n \<Rightarrow> Inr n)"
  using assms by (auto simp: Sequence_def sequence_of_def get lookup_result_def split: option.splits)

lemma SetSequence_set:
  assumes "ok s" and "signer \<noteq> []" and "SetSequence ops (Some s) None signer n = (s', e)"
  shows "e = None \<and> (\<exists>t. s' = Some t \<and> ok t \<and> sequence_of (contents t) = (sequence_of (contents s))(signer \<mapsto> n)
    \<and> (\<forall>ns k. ns \<noteq> ''auth'' \<longrightarrow> contents t ns k = contents s ns k))"
proof -
  obtain t e' where run: "op_Set ops s None ''auth'' (nonceKey signer) (be64 n) = (t, e')"
    by (cases "op_Set ops s None ''auth'' (nonceKey signer) (be64 n)")
  from set [OF assms(1) _ _ run] have t: "e' = None" "ok t" "contents t = apply_write (contents s)
      \<lparr>kw_Namespace = ''auth'', kw_Key = nonceKey signer, kw_Value = be64 n, kw_Delete = False\<rparr>"
    by auto
  have "sequence_of (contents t) = (sequence_of (contents s))(signer \<mapsto> n)"
    by (auto simp: fun_eq_iff sequence_of_def t(3) apply_write_def be_nat_be64)
  with t assms(2,3) run show ?thesis
    by (auto simp: SetSequence_def apply_write_def)
qed

end

end
