(* ===== verification/Bank.thy ===== *)
theory Bank
  imports Accounts
begin

text \<open>
  The bank module (\<^verbatim>\<open>modules/bank/bank.go\<close>): balances in a key-value store, minting, transfers, the delivery of bank
  transactions, genesis and queries.  A balance is a \<^verbatim>\<open>big.Int\<close> that is never negative and never nil, a natural
  number here.  The abstract view of a store is a ledger; the operations are shown to act on it as stated.
\<close>

section \<open>Errors and encodings\<close>

datatype bank_error =
    ErrInvalidGenesisBalance
  | ErrGenesisBalanceOf string
  | ErrInvalidBankTx
  | ErrInsufficientFunds
  | ErrBalanceOverflow
  | ErrUnauthorizedMint
  | MissingBankStore
  | BankStoreError store_error

definition ctx_error_text :: "ctx_error \<Rightarrow> string" where
  "ctx_error_text e = (case e of ContextCanceled \<Rightarrow> ''context canceled'' | ContextDeadlineExceeded \<Rightarrow> ''context deadline exceeded'')"

definition store_error_text :: "store_error \<Rightarrow> string" where
  "store_error_text e =
     (case e of
        ErrStoreKeyNotFound \<Rightarrow> ''key not found''
      | StoreCtxError e \<Rightarrow> ctx_error_text e
      | StoreError m \<Rightarrow> m)"

definition bank_error_text :: "bank_error \<Rightarrow> string" where
  "bank_error_text e =
     (case e of
        ErrInvalidGenesisBalance \<Rightarrow> ''invalid genesis balance''
      | ErrGenesisBalanceOf a \<Rightarrow> ''invalid genesis balance: '' @ a
      | ErrInvalidBankTx \<Rightarrow> ''invalid bank transaction''
      | ErrInsufficientFunds \<Rightarrow> ''insufficient funds''
      | ErrBalanceOverflow \<Rightarrow> ''balance overflow''
      | ErrUnauthorizedMint \<Rightarrow> ''unauthorized mint''
      | MissingBankStore \<Rightarrow> ''missing bank store''
      | BankStoreError e \<Rightarrow> store_error_text e)"

text \<open>\<^verbatim>\<open>big.Int.Bytes\<close>: big-endian, no leading zero byte.  \<^verbatim>\<open>SetBytes\<close> is \<open>be_nat\<close>.\<close>

function big_Bytes :: "nat \<Rightarrow> bytes" where
  "big_Bytes n = (if n = 0 then [] else big_Bytes (n div 256) @ [char_of n])"
  by auto
termination by (relation "measure id") auto

declare big_Bytes.simps [simp del]

definition encodeBalanceBig :: "nat \<Rightarrow> bytes" where
  "encodeBalanceBig balance =
     (if balance = 0 then replicate 8 (char_of (0 :: nat))
      else if balance < 2 ^ 64 then be_bytes 8 balance
      else big_Bytes balance)"

definition balanceKey :: "string \<Rightarrow> bytes" where
  "balanceKey raw =
     (let clean = (if prefix ''0x'' raw then drop 2 raw else raw);
          clean = (if length clean mod 2 = 1 then CHR ''0'' # clean else clean)
      in case hexDecode clean of
           None \<Rightarrow> raw
         | Some decoded \<Rightarrow>
             if length decoded > 20 \<or> \<not> prefix ''0x'' raw then raw
             else ''0x'' @ hexEncode (replicate (20 - length decoded) (char_of (0 :: nat)) @ decoded))"

section \<open>Balances\<close>

definition BalanceBig :: "'s store_ops \<Rightarrow> 's option \<Rightarrow> ctx \<Rightarrow> string \<Rightarrow> bank_error + nat" where
  "BalanceBig ops store ctx address =
     (case store of
        None \<Rightarrow> Inl MissingBankStore
      | Some s \<Rightarrow>
          let canonical = op_Get ops s ctx ''bank'' (balanceKey address);
              got = (if canonical = Inl ErrStoreKeyNotFound then op_Get ops s ctx ''bank'' address else canonical)
          in case got of
               Inl ErrStoreKeyNotFound \<Rightarrow> Inr 0
             | Inl e \<Rightarrow> Inl (BankStoreError e)
             | Inr val \<Rightarrow>
                 if val = [] then Inr 0
                 else if length val > 32 then Inl ErrInvalidGenesisBalance
                 else Inr (be_nat val))"

definition Balance :: "'s store_ops \<Rightarrow> 's option \<Rightarrow> ctx \<Rightarrow> string \<Rightarrow> bank_error + u64" where
  "Balance ops store ctx address =
     (case BalanceBig ops store ctx address of
        Inl e \<Rightarrow> Inl e
      | Inr balance \<Rightarrow> if balance < 2 ^ 64 then Inr (word_of_nat balance) else Inl ErrBalanceOverflow)"

text \<open>The store is not nil here: the callers have read from it.\<close>

definition setBalanceBig :: "'s store_ops \<Rightarrow> 's \<Rightarrow> ctx \<Rightarrow> string \<Rightarrow> nat \<Rightarrow> 's \<times> bank_error option" where
  "setBalanceBig ops s ctx address balance =
     (if balance \<ge> 2 ^ 256 then (s, Some ErrBalanceOverflow)
      else
        case op_Set ops s ctx ''bank'' (balanceKey address) (encodeBalanceBig balance) of
          (s, e) \<Rightarrow> (s, map_option BankStoreError e))"

definition mint :: "'s store_ops \<Rightarrow> 's option \<Rightarrow> ctx \<Rightarrow> string \<Rightarrow> nat \<Rightarrow> 's option \<times> bank_error option" where
  "mint ops store ctx to amount =
     (if to = [] \<or> amount = 0 then (store, Some ErrInvalidBankTx)
      else
        case store of
          None \<Rightarrow> (store, Some MissingBankStore)
        | Some s \<Rightarrow>
            (case BalanceBig ops store ctx to of
               Inl e \<Rightarrow> (store, Some e)
             | Inr balance \<Rightarrow>
                 if balance + amount \<ge> 2 ^ 256 then (store, Some ErrBalanceOverflow)
                 else case setBalanceBig ops s ctx to (balance + amount) of (s, e) \<Rightarrow> (Some s, e)))"

text \<open>The two writes of a transfer, as a batch or one after the other.\<close>

definition writeBalances ::
    "'s store_ops \<Rightarrow> 's \<Rightarrow> ctx \<Rightarrow> string \<Rightarrow> nat \<Rightarrow> string \<Rightarrow> nat \<Rightarrow> 's \<times> bank_error option" where
  "writeBalances ops s ctx from nextFrom to nextTo =
     (case op_SetBatch ops s of
        Some setBatch \<Rightarrow>
          (case setBatch ctx
             [\<lparr>kw_Namespace = ''bank'', kw_Key = balanceKey from, kw_Value = encodeBalanceBig nextFrom, kw_Delete = False\<rparr>,
              \<lparr>kw_Namespace = ''bank'', kw_Key = balanceKey to, kw_Value = encodeBalanceBig nextTo, kw_Delete = False\<rparr>] of
             (s, e) \<Rightarrow> (s, map_option BankStoreError e))
      | None \<Rightarrow>
          (case setBalanceBig ops s ctx from nextFrom of
             (s, Some e) \<Rightarrow> (s, Some e)
           | (s, None) \<Rightarrow> setBalanceBig ops s ctx to nextTo))"

definition send :: "'s store_ops \<Rightarrow> 's option \<Rightarrow> ctx \<Rightarrow> string \<Rightarrow> string \<Rightarrow> nat \<Rightarrow> 's option \<times> bank_error option" where
  "send ops store ctx from to amount =
     (if from = [] \<or> to = [] \<or> amount = 0 then (store, Some ErrInvalidBankTx)
      else
        case store of
          None \<Rightarrow> (store, Some MissingBankStore)
        | Some s \<Rightarrow>
            (case BalanceBig ops store ctx from of
               Inl e \<Rightarrow> (store, Some e)
             | Inr fromBalance \<Rightarrow>
                 if fromBalance < amount then (store, Some ErrInsufficientFunds)
                 else
                   (case BalanceBig ops store ctx to of
                      Inl e \<Rightarrow> (store, Some e)
                    | Inr toBalance \<Rightarrow>
                        if toBalance + amount \<ge> 2 ^ 256 then (store, Some ErrBalanceOverflow)
                        else
                          case writeBalances ops s ctx from (fromBalance - amount) to (toBalance + amount) of
                            (s, e) \<Rightarrow> (Some s, e))))"

section \<open>The module\<close>

record BankModule =
  bm_mintAuthority :: string

definition parseAmountBig :: "string \<Rightarrow> nat option" where
  "parseAmountBig val =
     (case ParseAmountBig val of
        None \<Rightarrow> None
      | Some amount \<Rightarrow> if amount = 0 \<or> amount \<ge> 2 ^ 256 then None else Some amount)"

definition bankTxParts :: "Tx \<Rightarrow> string list" where
  "bankTxParts tx = filter (\<lambda>part. CHR ''='' \<notin> set part) (splitOn CHR '':'' tx)"

definition authorizeMint :: "envelope_codec \<Rightarrow> BankModule \<Rightarrow> Tx \<Rightarrow> bank_error option" where
  "authorizeMint json module tx =
     (if bm_mintAuthority module = [] then None
      else
        case TxTag json tx ''signer'' of
          None \<Rightarrow> Some ErrUnauthorizedMint
        | Some signer \<Rightarrow> if signer \<noteq> bm_mintAuthority module then Some ErrUnauthorizedMint else None)"

definition bank_result :: "u32 \<Rightarrow> string \<Rightarrow> Result" where
  "bank_result code log = \<lparr>res_Code = code, res_Log = log, res_Data = [], res_GasUsed = 0, res_FeePaid = 0\<rparr>"

definition bank_DeliverTx ::
    "envelope_codec \<Rightarrow> 's store_ops \<Rightarrow> BankModule \<Rightarrow> ctx \<Rightarrow> 's exec_state \<Rightarrow> Tx \<Rightarrow> 's exec_state \<times> Result" where
  "bank_DeliverTx json ops module ctx st tx =
     (if xs_Store st = None then (st, bank_result 1 ''missing bank store'')
      else
        let parts = bankTxParts tx in
        if parts = [] \<or> parts ! 0 \<noteq> ''bank'' then (st, bank_result 2 (bank_error_text ErrInvalidBankTx))
        else if length parts = 4 \<and> parts ! 1 = ''mint'' then
          (case ConsumeGas st 10 of
             (st, False) \<Rightarrow> (st, bank_result 5 ''out of gas'')
           | (st, True) \<Rightarrow>
               (case parseAmountBig (parts ! 3) of
                  None \<Rightarrow> (st, bank_result 3 (bank_error_text ErrInvalidBankTx))
                | Some amount \<Rightarrow>
                    (case authorizeMint json module tx of
                       Some e \<Rightarrow> (st, bank_result 4 (bank_error_text e))
                     | None \<Rightarrow>
                         (case mint ops (xs_Store st) ctx (parts ! 2) amount of
                            (store, Some e) \<Rightarrow> (st\<lparr>xs_Store := store\<rparr>, bank_result 4 (bank_error_text e))
                          | (store, None) \<Rightarrow> (st\<lparr>xs_Store := store\<rparr>, bank_result 0 [])))))
        else if length parts = 5 \<and> parts ! 1 = ''send'' then
          (case ConsumeGas st 10 of
             (st, False) \<Rightarrow> (st, bank_result 5 ''out of gas'')
           | (st, True) \<Rightarrow>
               (case parseAmountBig (parts ! 4) of
                  None \<Rightarrow> (st, bank_result 3 (bank_error_text ErrInvalidBankTx))
                | Some amount \<Rightarrow>
                    (case send ops (xs_Store st) ctx (parts ! 2) (parts ! 3) amount of
                       (store, Some e) \<Rightarrow> (st\<lparr>xs_Store := store\<rparr>, bank_result 4 (bank_error_text e))
                     | (store, None) \<Rightarrow> (st\<lparr>xs_Store := store\<rparr>, bank_result 0 []))))
        else (st, bank_result 2 (bank_error_text ErrInvalidBankTx)))"

definition bank_EstimateGas :: "Tx \<Rightarrow> bank_error + u64" where
  "bank_EstimateGas tx =
     (let parts = bankTxParts tx in
      if length parts = 4 \<and> parts ! 1 = ''mint'' then Inr 10
      else if length parts = 5 \<and> parts ! 1 = ''send'' then Inr 10
      else Inl ErrInvalidBankTx)"

text \<open>Genesis: the entries in the order in which the map is ranged over.\<close>

fun bank_InitGenesis ::
    "'s store_ops \<Rightarrow> ctx \<Rightarrow> 's option \<Rightarrow> (string, bytes) gomap \<Rightarrow> 's option \<times> bank_error option" where
  "bank_InitGenesis ops ctx None genesis = (None, None)"
| "bank_InitGenesis ops ctx (Some s) [] = (Some s, None)"
| "bank_InitGenesis ops ctx (Some s) ((rawAddress, rawBalance) # genesis) =
     (if \<not> prefix ''bank:'' rawAddress then bank_InitGenesis ops ctx (Some s) genesis
      else
        case parseAmountBig rawBalance of
          None \<Rightarrow> (Some s, Some (ErrGenesisBalanceOf rawAddress))
        | Some balance \<Rightarrow>
            (case setBalanceBig ops s ctx (drop 5 rawAddress) balance of
               (s, Some e) \<Rightarrow> (Some s, Some e)
             | (s, None) \<Rightarrow> bank_InitGenesis ops ctx (Some s) genesis))"

record QueryResponse =
  qr_Code :: u32
  qr_Value :: bytes
  qr_Log :: string

definition bank_Query :: "'s store_ops \<Rightarrow> ctx \<Rightarrow> 's option \<Rightarrow> string list \<Rightarrow> QueryResponse" where
  "bank_Query ops ctx store path =
     (if store = None then \<lparr>qr_Code = 1, qr_Value = [], qr_Log = ''missing bank store''\<rparr>
      else if length path \<noteq> 2 \<or> path ! 0 \<noteq> ''balance'' \<or> path ! 1 = []
      then \<lparr>qr_Code = 2, qr_Value = [], qr_Log = ''invalid bank query''\<rparr>
      else
        case BalanceBig ops store ctx (path ! 1) of
          Inl e \<Rightarrow> \<lparr>qr_Code = 3, qr_Value = [], qr_Log = bank_error_text e\<rparr>
        | Inr balance \<Rightarrow> \<lparr>qr_Code = 0, qr_Value = formatDec balance, qr_Log = []\<rparr>)"


section \<open>Encoding round trips\<close>

lemma be_nat_big_Bytes: "be_nat (big_Bytes n) = n"
proof (induction n rule: big_Bytes.induct)
  case (1 n)
  then show ?case
    by (subst big_Bytes.simps) (auto simp: be_nat_snoc)
qed

lemma length_big_Bytes: "n < 256 ^ k \<Longrightarrow> length (big_Bytes n) \<le> k"
proof (induction k arbitrary: n)
  case 0
  then show ?case
    by (simp add: big_Bytes.simps)
next
  case (Suc k)
  have "n div 256 < 256 ^ k"
    using Suc.prems by (simp add: less_mult_imp_div_less mult.commute)
  from Suc.IH [OF this] show ?case
    by (subst big_Bytes.simps) simp
qed

lemma be_nat_zeros: "be_nat (replicate n (char_of (0 :: nat))) = 0"
proof (induction n)
  case (Suc n)
  have "be_nat (replicate (Suc n) (char_of (0 :: nat))) = be_nat (replicate n (char_of (0 :: nat)) @ [char_of (0 :: nat)])"
    by (simp add: replicate_append_same)
  with Suc show ?case
    by (simp only: be_nat_snoc) simp
qed simp

lemma encodeBalanceBig_roundtrip: "be_nat (encodeBalanceBig n) = n"
  using be_nat_big_Bytes [of n] be_nat_zeros [of 8] unfolding encodeBalanceBig_def by auto

lemma length_encodeBalanceBig: "n < 2 ^ 256 \<Longrightarrow> length (encodeBalanceBig n) \<le> 32"
  using length_big_Bytes [of n 32] by (simp add: encodeBalanceBig_def)

lemma length_hexEncode [simp]: "length (hexEncode bs) = 2 * length bs"
  by (induction bs) simp_all

lemma balanceKey_padded:
  assumes "length p = 20"
  shows "balanceKey (''0x'' @ hexEncode p) = ''0x'' @ hexEncode p"
  using assms by (simp add: balanceKey_def hexDecode_hexEncode)

lemma balanceKey_cases: "balanceKey raw = raw \<or> (\<exists>p. length p = 20 \<and> balanceKey raw = ''0x'' @ hexEncode p)"
proof -
  let ?pad = "\<lambda>d. replicate (20 - length d) (char_of (0 :: nat)) @ d"
  let ?key = "\<lambda>h. case h of None \<Rightarrow> raw
      | Some d \<Rightarrow> if length d > 20 \<or> \<not> prefix ''0x'' raw then raw else ''0x'' @ hexEncode (?pad d)"
  have "?key h = raw \<or> (\<exists>p. length p = 20 \<and> ?key h = ''0x'' @ hexEncode p)" for h
  proof (cases h)
    case (Some d)
    then show ?thesis
      by (cases "length d > 20 \<or> \<not> prefix ''0x'' raw") (auto intro!: exI [of _ "?pad d"])
  qed simp
  then show ?thesis
    unfolding balanceKey_def Let_def by blast
qed

lemma balanceKey_idem [simp]: "balanceKey (balanceKey raw) = balanceKey raw"
  using balanceKey_cases [of raw] balanceKey_padded by auto

lemma balanceKey_ne: "raw \<noteq> [] \<Longrightarrow> balanceKey raw \<noteq> []"
  using balanceKey_cases [of raw] by auto

section \<open>The ledger\<close>

text \<open>
  The balance of each key; a store is in order when its keys are the ones that \<open>balanceKey\<close> gives, values have at most 32
  bytes, and finitely many keys are used.
\<close>

definition ledger :: "contents \<Rightarrow> bytes \<Rightarrow> nat" where
  "ledger c k = (case c ''bank'' k of None \<Rightarrow> 0 | Some v \<Rightarrow> be_nat v)"

definition bank_ok :: "contents \<Rightarrow> bool" where
  "bank_ok c \<longleftrightarrow> finite {k. c ''bank'' k \<noteq> None}
     \<and> (\<forall>k v. c ''bank'' k = Some v \<longrightarrow> balanceKey k = k \<and> length v \<le> 32)"

definition total_supply :: "(bytes \<Rightarrow> nat) \<Rightarrow> nat" where
  "total_supply L = (\<Sum>k | L k \<noteq> 0. L k)"

lemma ledger_finite: "bank_ok c \<Longrightarrow> finite {k. ledger c k \<noteq> 0}"
  unfolding bank_ok_def by (rule finite_subset [of _ "{k. c ''bank'' k \<noteq> None}"]) (auto simp: ledger_def split: option.splits)

lemma supply_on:
  assumes "finite S" and "{k. L k \<noteq> 0} \<subseteq> S"
  shows "total_supply L = sum L S"
  unfolding total_supply_def using assms by (intro sum.mono_neutral_left) auto

lemma supply_upd:
  assumes "finite {k. L k \<noteq> 0}"
  shows "total_supply (L(k := v)) + L k = total_supply L + v"
proof -
  let ?S = "insert k {k. L k \<noteq> 0}"
  have fin: "finite ?S" "k \<in> ?S"
    using assms by auto
  have "total_supply (L(k := v)) = sum (L(k := v)) ?S" "total_supply L = sum L ?S"
    by (rule supply_on; use fin in auto)+
  moreover have "sum (L(k := v)) (?S - {k}) = sum L (?S - {k})"
    by (rule sum.cong) auto
  ultimately show ?thesis
    using sum.remove [OF fin, of L] sum.remove [OF fin, of "L(k := v)"] by simp
qed

lemma finite_upd: "finite {k. L k \<noteq> (0 :: nat)} \<Longrightarrow> finite {k. (L(k' := v)) k \<noteq> 0}"
  by (rule finite_subset [of _ "insert k' {k. L k \<noteq> 0}"]) auto

lemma supply_transfer:
  assumes "finite {k. L k \<noteq> 0}" and "f \<noteq> t" and "x \<le> L f"
  shows "total_supply (L(f := L f - x, t := L t + x)) = total_supply L"
proof -
  let ?M = "L(f := L f - x)"
  have "total_supply ?M + L f = total_supply L + (L f - x)"
    by (rule supply_upd [OF assms(1)])
  moreover have "total_supply (?M(t := L t + x)) + ?M t = total_supply ?M + (L t + x)"
    by (rule supply_upd [OF finite_upd [OF assms(1)]])
  moreover have "?M t = L t"
    using assms(2) by simp
  ultimately show ?thesis
    using assms(3) by linarith
qed

text \<open>A write of a balance is an update of the ledger.\<close>

definition balance_write :: "string \<Rightarrow> nat \<Rightarrow> KVWrite" where
  "balance_write address n =
     \<lparr>kw_Namespace = ''bank'', kw_Key = balanceKey address, kw_Value = encodeBalanceBig n, kw_Delete = False\<rparr>"

lemma balance_write_ledger:
  assumes "bank_ok c" and "n < 2 ^ 256"
  shows "ledger (apply_write c (balance_write a n)) = (ledger c)(balanceKey a := n)"
    and "bank_ok (apply_write c (balance_write a n))"
    and "ns \<noteq> ''bank'' \<Longrightarrow> apply_write c (balance_write a n) ns = c ns"
proof -
  show "ledger (apply_write c (balance_write a n)) = (ledger c)(balanceKey a := n)"
    by (auto simp: ledger_def apply_write_def balance_write_def encodeBalanceBig_roundtrip fun_eq_iff)
  have "{k. apply_write c (balance_write a n) ''bank'' k \<noteq> None} \<subseteq> insert (balanceKey a) {k. c ''bank'' k \<noteq> None}"
    by (auto simp: apply_write_def balance_write_def)
  then have "finite {k. apply_write c (balance_write a n) ''bank'' k \<noteq> None}"
    using assms(1) unfolding bank_ok_def by (meson finite.insertI finite_subset)
  then show "bank_ok (apply_write c (balance_write a n))"
    using assms length_encodeBalanceBig [OF assms(2)]
    by (auto simp: bank_ok_def apply_write_def balance_write_def)
qed (simp add: apply_write_def balance_write_def)

lemma ledger_bound: "bank_ok c \<Longrightarrow> ledger c k < 2 ^ 256"
proof -
  assume ok: "bank_ok c"
  have "be_nat v < 2 ^ 256" if "length v \<le> 32" for v
  proof -
    have "be_nat v < 256 ^ length v"
      by (rule be_nat_less)
    also have "\<dots> \<le> 256 ^ 32"
      by (rule power_increasing [OF that]) simp
    finally show ?thesis by simp
  qed
  with ok show ?thesis
    by (auto simp: bank_ok_def ledger_def split: option.splits)
qed

section \<open>What the operations do to the ledger\<close>

text \<open>The outcome of a transfer, as the code computes it from the two balances.\<close>

definition transfer_error :: "(bytes \<Rightarrow> nat) \<Rightarrow> string \<Rightarrow> string \<Rightarrow> nat \<Rightarrow> bank_error option" where
  "transfer_error L from to amount =
     (if from = [] \<or> to = [] \<or> amount = 0 then Some ErrInvalidBankTx
      else if L (balanceKey from) < amount then Some ErrInsufficientFunds
      else if L (balanceKey to) + amount \<ge> 2 ^ 256 then Some ErrBalanceOverflow
      else None)"

definition transferred :: "(bytes \<Rightarrow> nat) \<Rightarrow> string \<Rightarrow> string \<Rightarrow> nat \<Rightarrow> bytes \<Rightarrow> nat" where
  "transferred L from to amount =
     (if transfer_error L from to amount = None
      then L(balanceKey from := L (balanceKey from) - amount, balanceKey to := L (balanceKey to) + amount)
      else L)"

context state_store
begin

lemma BalanceBig_get:
  assumes "ok s" and "bank_ok (contents s)" and "a \<noteq> []"
  shows "BalanceBig ops (Some s) None a = Inr (ledger (contents s) (balanceKey a))"
proof (cases "contents s ''bank'' (balanceKey a)")
  case None
  have "contents s ''bank'' a = None"
  proof (rule ccontr)
    assume "contents s ''bank'' a \<noteq> None"
    with assms(2) have "balanceKey a = a"
      by (auto simp: bank_ok_def)
    with None \<open>contents s ''bank'' a \<noteq> None\<close> show False
      by simp
  qed
  with None assms show ?thesis
    by (simp add: BalanceBig_def get balanceKey_ne lookup_result_def ledger_def)
next
  case (Some v)
  with assms(2) have "length v \<le> 32"
    by (auto simp: bank_ok_def)
  with Some assms show ?thesis
    by (simp add: BalanceBig_def get balanceKey_ne lookup_result_def ledger_def)
qed

lemma setBalanceBig_set:
  assumes "ok s" and "bank_ok (contents s)" and "a \<noteq> []" and "n < 2 ^ 256"
    and "setBalanceBig ops s None a n = (s', e)"
  shows "e = None \<and> ok s' \<and> contents s' = apply_write (contents s) (balance_write a n)"
proof -
  obtain t e' where run: "op_Set ops s None ''bank'' (balanceKey a) (encodeBalanceBig n) = (t, e')"
    by (cases "op_Set ops s None ''bank'' (balanceKey a) (encodeBalanceBig n)")
  from set [OF assms(1) _ balanceKey_ne [OF assms(3)] run] assms(4,5) run show ?thesis
    by (simp add: setBalanceBig_def balance_write_def)
qed

lemma writeBalances_ledger:
  assumes "ok s" and "bank_ok (contents s)" and "f \<noteq> []" and "t \<noteq> []" and "m < 2 ^ 256" and "n < 2 ^ 256"
    and "writeBalances ops s None f m t n = (s', e)"
  shows "e = None \<and> ok s' \<and> contents s' = apply_write (apply_write (contents s) (balance_write f m)) (balance_write t n)"
proof (cases "op_SetBatch ops s")
  case None
  obtain s1 e1 where one: "setBalanceBig ops s None f m = (s1, e1)"
    by (cases "setBalanceBig ops s None f m")
  from setBalanceBig_set [OF assms(1,2,3,5) one]
  have s1: "e1 = None" "ok s1" "contents s1 = apply_write (contents s) (balance_write f m)"
    by auto
  with assms(7) None one have two: "setBalanceBig ops s1 None t n = (s', e)"
    by (simp add: writeBalances_def)
  have "bank_ok (contents s1)"
    unfolding s1(3) by (rule balance_write_ledger(2) [OF assms(2,5)])
  from setBalanceBig_set [OF s1(2) this assms(4,6) two] s1(3) show ?thesis
    by simp
next
  case (Some batchf)
  obtain t1 e1 where run: "batchf None [balance_write f m, balance_write t n] = (t1, e1)"
    by (cases "batchf None [balance_write f m, balance_write t n]")
  have "e1 = None \<and> ok t1 \<and> contents t1 = apply_writes (contents s) [balance_write f m, balance_write t n]"
    by (rule batch [OF assms(1) Some _ run]) (simp add: balance_write_def balanceKey_ne assms(3,4))
  with run assms(7) Some show ?thesis
    by (simp add: writeBalances_def balance_write_def)
qed

lemma mint_ledger:
  assumes "ok s" and "bank_ok (contents s)" and "mint ops (Some s) None a x = (s', e)"
  shows "\<exists>t. s' = Some t \<and> ok t \<and> bank_ok (contents t)
    \<and> ledger (contents t) = (if e = None then (ledger (contents s))(balanceKey a := ledger (contents s) (balanceKey a) + x)
         else ledger (contents s))"
proof (cases "a \<noteq> [] \<and> x \<noteq> 0 \<and> ledger (contents s) (balanceKey a) + x < 2 ^ 256")
  case True
  obtain t e' where run: "setBalanceBig ops s None a (ledger (contents s) (balanceKey a) + x) = (t, e')"
    by (cases "setBalanceBig ops s None a (ledger (contents s) (balanceKey a) + x)")
  from setBalanceBig_set [OF assms(1,2) _ _ run] True
  have "e' = None" "ok t" "contents t = apply_write (contents s) (balance_write a (ledger (contents s) (balanceKey a) + x))"
    by auto
  moreover have "s' = Some t" "e = e'"
    using True run assms(3) by (auto simp: mint_def BalanceBig_get [OF assms(1,2)])
  moreover have lt: "ledger (contents s) (balanceKey a) + x < 2 ^ 256"
    using True by blast
  ultimately show ?thesis
    using balance_write_ledger(1,2) [OF assms(2) lt, of a] by simp
next
  case False
  with assms have "e \<noteq> None \<and> s' = Some s"
    by (cases "a = []"; cases "x = 0") (auto simp: mint_def BalanceBig_get [OF assms(1,2)] split: if_splits)
  with assms show ?thesis
    by auto
qed

lemma send_ledger:
  assumes "ok s" and "bank_ok (contents s)" and "send ops (Some s) None f t x = (s', e)"
  shows "e = transfer_error (ledger (contents s)) f t x
    \<and> (\<exists>u. s' = Some u \<and> ok u \<and> bank_ok (contents u) \<and> ledger (contents u) = transferred (ledger (contents s)) f t x)"
proof (cases "transfer_error (ledger (contents s)) f t x")
  case None
  let ?L = "ledger (contents s)"
  from None have g: "f \<noteq> []" "t \<noteq> []" "x \<noteq> 0" "\<not> ?L (balanceKey f) < x" "\<not> ?L (balanceKey t) + x \<ge> 2 ^ 256"
    by (auto simp: transfer_error_def split: if_splits)
  obtain u e' where run: "writeBalances ops s None f (?L (balanceKey f) - x) t (?L (balanceKey t) + x) = (u, e')"
    by (cases "writeBalances ops s None f (?L (balanceKey f) - x) t (?L (balanceKey t) + x)")
  have m: "?L (balanceKey f) - x < 2 ^ 256"
    using ledger_bound [OF assms(2), of "balanceKey f"] by linarith
  have n: "?L (balanceKey t) + x < 2 ^ 256"
    using g(5) by linarith
  note w = writeBalances_ledger [OF assms(1,2) g(1,2) m n run]
  from assms(3) g run have "s' = Some u" "e = e'"
    by (simp_all add: send_def BalanceBig_get [OF assms(1,2)])
  moreover have "ledger (contents u) = transferred ?L f t x"
    using w by (simp add: None transferred_def balance_write_ledger(1) [OF balance_write_ledger(2) [OF assms(2) m] n]
        balance_write_ledger(1) [OF assms(2) m])
  moreover have "bank_ok (contents u)"
    using w balance_write_ledger(2) [OF balance_write_ledger(2) [OF assms(2) m] n] by simp
  ultimately show ?thesis
    using w None by simp
next
  case (Some err)
  then have "send ops (Some s) None f t x = (Some s, Some err)"
    by (auto simp: transfer_error_def send_def BalanceBig_get [OF assms(1,2)] split: if_splits)
  with assms(3) have "s' = Some s" "e = Some err"
    by simp_all
  with assms(1,2) Some show ?thesis
    by (auto simp: transferred_def)
qed

text \<open>A delivered transfer: what is left of the gas, the ledger and the result code.\<close>

lemma DeliverTx_send:
  assumes "ok s" and "bank_ok (contents s)" and "xs_Store st = Some s"
    and "bankTxParts tx = [''bank'', ''send'', f, t, a]"
    and "bank_DeliverTx json ops module None st tx = (st', res)"
  shows "\<exists>u. xs_Store st' = Some u \<and> ok u \<and> bank_ok (contents u)
    \<and> (if snd (ConsumeGas st 10) \<and> (\<exists>x. parseAmountBig a = Some x \<and> transfer_error (ledger (contents s)) f t x = None)
       then res_Code res = 0 \<and> ledger (contents u) = transferred (ledger (contents s)) f t (the (parseAmountBig a))
       else res_Code res \<noteq> 0 \<and> ledger (contents u) = ledger (contents s))"
proof -
  obtain st1 gas where g: "ConsumeGas st 10 = (st1, gas)"
    by (cases "ConsumeGas st 10")
  then have st1: "xs_Store st1 = Some s"
    using assms(3) by (auto simp: ConsumeGas_def split: prod.splits)
  show ?thesis
  proof (cases "gas \<and> parseAmountBig a \<noteq> None")
    case False
    with assms g st1 show ?thesis
      by (cases gas) (auto simp: bank_DeliverTx_def bank_result_def)
  next
    case True
    then obtain x where x: "parseAmountBig a = Some x"
      by blast
    obtain s1 e where run: "send ops (Some s) None f t x = (s1, e)"
      by (cases "send ops (Some s) None f t x")
    from send_ledger [OF assms(1,2) run] obtain u where u: "e = transfer_error (ledger (contents s)) f t x" "s1 = Some u" "ok u"
        "bank_ok (contents u)" "ledger (contents u) = transferred (ledger (contents s)) f t x"
      by blast
    have "xs_Store st' = Some u \<and> (res_Code res = 0 \<longleftrightarrow> e = None)"
      using assms(3-5) g True x st1 run u(2)
      by (cases e) (auto simp: bank_DeliverTx_def bank_result_def)
    with u g True x show ?thesis
      by (auto simp: transferred_def)
  qed
qed

lemma DeliverTx_wf:
  assumes "ok s" and "bank_ok (contents s)" and "xs_Store st = Some s"
    and "bank_DeliverTx json ops module None st tx = (st', res)"
  shows "\<exists>t. xs_Store st' = Some t \<and> ok t \<and> bank_ok (contents t)"
proof -
  obtain st1 gas where g: "ConsumeGas st 10 = (st1, gas)"
    by (cases "ConsumeGas st 10")
  then have st1: "xs_Store st1 = Some s"
    using assms(3) by (auto simp: ConsumeGas_def split: prod.splits)
  consider "xs_Store st' = Some s"
    | a x e where "mint ops (Some s) None a x = (xs_Store st', e)"
    | a b x e where "send ops (Some s) None a b x = (xs_Store st', e)"
    using assms(3,4) g st1 unfolding bank_DeliverTx_def Let_def
    by (auto split: if_splits option.splits bool.splits prod.splits)
  then show ?thesis
  proof cases
    case 1
    with assms(1,2) show ?thesis
      by blast
  next
    case (2 a x e)
    from mint_ledger [OF assms(1,2) 2] show ?thesis
      by blast
  next
    case (3 a b x e)
    from send_ledger [OF assms(1,2) 3] show ?thesis
      by blast
  qed
qed

lemma InitGenesis_wf:
  assumes "ok s" and "bank_ok (contents s)" and "list_all (\<lambda>(a, v). a \<noteq> ''bank:'') genesis"
    and "bank_InitGenesis ops None (Some s) genesis = (s', e)"
  shows "\<exists>t. s' = Some t \<and> ok t \<and> bank_ok (contents t)"
  using assms
proof (induction genesis arbitrary: s)
  case (Cons entry genesis)
  obtain a v where entry: "entry = (a, v)"
    by (cases entry)
  show ?case
  proof (cases "prefix ''bank:'' a \<and> parseAmountBig v \<noteq> None")
    case True
    then obtain x rest where x: "parseAmountBig v = Some x" and rest: "a = ''bank:'' @ rest"
      by (auto simp: prefix_def)
    have lt: "x < 2 ^ 256"
      using x by (auto simp: parseAmountBig_def split: option.splits if_splits)
    have ne: "rest \<noteq> []"
      using Cons.prems(3) entry rest by auto
    obtain s1 e1 where run: "setBalanceBig ops s None rest x = (s1, e1)"
      by (cases "setBalanceBig ops s None rest x")
    from setBalanceBig_set [OF Cons.prems(1,2) ne lt run]
    have s1: "e1 = None" "ok s1" "bank_ok (contents s1)"
      using balance_write_ledger(2) [OF Cons.prems(2) lt] by auto
    have "bank_InitGenesis ops None (Some s1) genesis = (s', e)"
      using Cons.prems(4) entry rest x run s1(1) by simp
    with Cons.IH [OF s1(2,3)] Cons.prems(3) show ?thesis
      by simp
  next
    case False
    with Cons entry show ?thesis
      by (auto split: if_splits)
  qed
qed auto

end

section \<open>Properties\<close>

text \<open>
  C12: A transfer between two different accounts conserves the supply.  A transaction \<^verbatim>\<open>bank:send:from:to:amount\<close> delivered
  on a staged store either fails and leaves every balance as it was, or moves the amount from one account to the other; in
  both cases the sum of all balances is unchanged.
\<close>

theorem transfer_conserves_supply:
  assumes "staged_ok s" and "bank_ok (staged_contents s)" and "xs_Store st = Some s"
    and "bankTxParts tx = [''bank'', ''send'', f, t, a]" and "balanceKey f \<noteq> balanceKey t"
    and "bank_DeliverTx json staged_ops module None st tx = (st', res)"
  shows "\<exists>u. xs_Store st' = Some u \<and> bank_ok (staged_contents u)
    \<and> total_supply (ledger (staged_contents u)) = total_supply (ledger (staged_contents s))
    \<and> (res_Code res \<noteq> 0 \<longrightarrow> ledger (staged_contents u) = ledger (staged_contents s))
    \<and> (res_Code res = 0 \<longrightarrow> (\<exists>x. parseAmountBig a = Some x \<and> x \<le> ledger (staged_contents s) (balanceKey f)
         \<and> ledger (staged_contents u) = (ledger (staged_contents s))
             (balanceKey f := ledger (staged_contents s) (balanceKey f) - x,
              balanceKey t := ledger (staged_contents s) (balanceKey t) + x)))"
proof -
  let ?L = "ledger (staged_contents s)"
  from staged.DeliverTx_send [OF assms(1-4,6)] obtain u where u: "xs_Store st' = Some u" "bank_ok (staged_contents u)"
      "if snd (ConsumeGas st 10) \<and> (\<exists>x. parseAmountBig a = Some x \<and> transfer_error ?L f t x = None)
       then res_Code res = 0 \<and> ledger (staged_contents u) = transferred ?L f t (the (parseAmountBig a))
       else res_Code res \<noteq> 0 \<and> ledger (staged_contents u) = ?L"
    by blast
  show ?thesis
  proof (cases "snd (ConsumeGas st 10) \<and> (\<exists>x. parseAmountBig a = Some x \<and> transfer_error ?L f t x = None)")
    case True
    then obtain x where x: "parseAmountBig a = Some x" "transfer_error ?L f t x = None"
      by blast
    then have le: "x \<le> ?L (balanceKey f)"
      by (auto simp: transfer_error_def split: if_splits)
    from u(3) True x have "res_Code res = 0"
        "ledger (staged_contents u) = ?L(balanceKey f := ?L (balanceKey f) - x, balanceKey t := ?L (balanceKey t) + x)"
      by (auto simp: transferred_def)
    with u(1,2) x le supply_transfer [OF ledger_finite [OF assms(2)] assms(5) le] show ?thesis
      by auto
  next
    case False
    with u show ?thesis
      by auto
  qed
qed

text \<open>
  C31: A transfer to oneself creates money.  When the two addresses of a successful transfer have one balance key, the amount
  is added to the account and not taken from it, so the supply grows by the amount.
\<close>

theorem self_transfer_mints:
  assumes "staged_ok s" and "bank_ok (staged_contents s)" and "xs_Store st = Some s"
    and "bankTxParts tx = [''bank'', ''send'', f, t, a]" and "balanceKey f = balanceKey t"
    and "bank_DeliverTx json staged_ops module None st tx = (st', res)" and "res_Code res = 0"
  shows "\<exists>u x. xs_Store st' = Some u \<and> parseAmountBig a = Some x \<and> 0 < x
    \<and> total_supply (ledger (staged_contents u)) = total_supply (ledger (staged_contents s)) + x"
proof -
  let ?L = "ledger (staged_contents s)"
  from staged.DeliverTx_send [OF assms(1-4,6)] assms(7) obtain u x where u: "xs_Store st' = Some u"
      "parseAmountBig a = Some x" "transfer_error ?L f t x = None" "ledger (staged_contents u) = transferred ?L f t x"
    by (auto split: if_splits)
  then have "ledger (staged_contents u) = ?L(balanceKey t := ?L (balanceKey t) + x)" "0 < x"
    using assms(5) by (auto simp: transferred_def transfer_error_def split: if_splits)
  with supply_upd [OF ledger_finite [OF assms(2)], of "balanceKey t" "?L (balanceKey t) + x"] u(1,2) show ?thesis
    by auto
qed

text \<open>
  C13: The bank keeps its part of the store well formed.  Genesis with addresses that are not empty, and the delivery of any
  transaction whatsoever, leave balances under canonical keys only, each in at most 32 bytes and so below \<open>2 ^ 256\<close>.
\<close>

theorem bank_store_wellformed:
  assumes "staged_ok s" and "bank_ok (staged_contents s)" and "list_all (\<lambda>(a, v). a \<noteq> ''bank:'') genesis"
    and "bank_InitGenesis staged_ops None (Some s) genesis = (s1, e)"
    and "bank_DeliverTx json staged_ops module None \<lparr>xs_Store = s1, xs_Gas = gas\<rparr> tx = (st, res)"
  shows "\<exists>t. xs_Store st = Some t \<and> bank_ok (staged_contents t) \<and> ledger (staged_contents t) k < 2 ^ 256"
proof -
  obtain t1 where t1: "s1 = Some t1" "staged_ok t1" "bank_ok (staged_contents t1)"
    using staged.InitGenesis_wf [OF assms(1-4)] by blast
  have "xs_Store \<lparr>xs_Store = s1, xs_Gas = gas\<rparr> = Some t1"
    using t1(1) by simp
  from staged.DeliverTx_wf [OF t1(2,3) this assms(5)] ledger_bound show ?thesis
    by blast
qed

subsection \<open>A concrete delivery\<close>

definition ex_bank_store :: StagedStore where
  "ex_bank_store = NewStagedStore (Some ex_base)"

definition ex_bank_state :: "StagedStore exec_state" where
  "ex_bank_state = \<lparr>xs_Store = Some ex_bank_store, xs_Gas = None\<rparr>"

lemma ex_bank_contents: "staged_contents ex_bank_store ns k = (if ns = ''bank'' \<and> k = ''a'' then Some ''1'' else None)"
  by (simp add: ex_bank_store_def NewStagedStore_def staged_contents_def base_contents_def ex_base_def)

lemma ex_bank_ok: "staged_ok ex_bank_store" "bank_ok (staged_contents ex_bank_store)"
proof -
  show "staged_ok ex_bank_store"
    by (simp add: ex_bank_store_def NewStagedStore_def staged_ok_def ex_base_ok)
  have "{k. staged_contents ex_bank_store ''bank'' k \<noteq> None} = {''a''}"
    by (auto simp: ex_bank_contents)
  then show "bank_ok (staged_contents ex_bank_store)"
    by (auto simp: bank_ok_def ex_bank_contents balanceKey_def split: option.splits)
qed

lemma ex_bank_parts:
  "bankTxParts ''bank:send:a:b:7'' = [''bank'', ''send'', ''a'', ''b'', ''7'']"
  "bankTxParts ''bank:send:a:a:7'' = [''bank'', ''send'', ''a'', ''a'', ''7'']"
  by (simp_all add: bankTxParts_def)

lemma ex_bank_keys: "balanceKey ''a'' = ''a''" "balanceKey ''b'' = ''b''"
  by (simp_all add: balanceKey_def split: option.splits)

theorem transfer_conserves_supply_witness:
  "\<exists>u. xs_Store (fst (bank_DeliverTx ex_envelope_codec staged_ops \<lparr>bm_mintAuthority = []\<rparr> None ex_bank_state ''bank:send:a:b:7'')) = Some u
    \<and> total_supply (ledger (staged_contents u)) = total_supply (ledger (staged_contents ex_bank_store))"
  using transfer_conserves_supply [OF ex_bank_ok _ ex_bank_parts(1) _ prod.collapse [symmetric],
      of ex_bank_state ex_envelope_codec "\<lparr>bm_mintAuthority = []\<rparr>"]
  by (auto simp: ex_bank_state_def ex_bank_keys)

lemma ParseAmountBig_formatDec: "ParseAmountBig (formatDec n) = Some n"
  using TrimSpace_digits [of "[]" n] ToLower_digits [of n "[]"]
  by (simp add: ParseAmountBig_def decimalDigits_formatDec ToLower_def)

lemma ex_parse: "parseAmountBig ''7'' = Some 7"
proof -
  have "''7'' = formatDec 7"
    using digit_values by (simp add: formatDec.simps)
  then show ?thesis
    by (simp only: parseAmountBig_def ParseAmountBig_formatDec option.case) simp
qed

theorem self_transfer_mints_witness:
  "\<exists>u. xs_Store (fst (bank_DeliverTx ex_envelope_codec staged_ops \<lparr>bm_mintAuthority = []\<rparr> None ex_bank_state ''bank:send:a:a:7'')) = Some u
    \<and> total_supply (ledger (staged_contents u)) = total_supply (ledger (staged_contents ex_bank_store)) + 7"
proof -
  let ?run = "bank_DeliverTx ex_envelope_codec staged_ops \<lparr>bm_mintAuthority = []\<rparr> None ex_bank_state ''bank:send:a:a:7''"
  have st: "xs_Store ex_bank_state = Some ex_bank_store"
    by (simp add: ex_bank_state_def)
  have "transfer_error (ledger (staged_contents ex_bank_store)) ''a'' ''a'' 7 = None"
    by (simp add: transfer_error_def ex_bank_keys ledger_def ex_bank_contents be_nat_def)
  moreover have "snd (ConsumeGas ex_bank_state 10)"
    by (simp add: ConsumeGas_def GasMeter_Consume_def ex_bank_state_def)
  ultimately have "res_Code (snd ?run) = 0"
    using staged.DeliverTx_send [OF ex_bank_ok st ex_bank_parts(2) prod.collapse [symmetric],
        of ex_envelope_codec "\<lparr>bm_mintAuthority = []\<rparr>"]
    by (auto simp: ex_parse)
  from self_transfer_mints [OF ex_bank_ok st ex_bank_parts(2) refl prod.collapse [symmetric] this] show ?thesis
    by (auto simp: ex_parse)
qed

theorem bank_store_wellformed_witness:
  "\<exists>t. xs_Store (fst (bank_DeliverTx ex_envelope_codec staged_ops \<lparr>bm_mintAuthority = []\<rparr> None
       \<lparr>xs_Store = fst (bank_InitGenesis staged_ops None (Some ex_bank_store) [(''bank:b'', ''7'')]), xs_Gas = None\<rparr>
       ''bank:send:a:b:7'')) = Some t \<and> bank_ok (staged_contents t) \<and> ledger (staged_contents t) ''b'' < 2 ^ 256"
  using bank_store_wellformed [OF ex_bank_ok _ prod.collapse [symmetric] prod.collapse [symmetric],
      of "[(''bank:b'', ''7'')]" ex_envelope_codec "\<lparr>bm_mintAuthority = []\<rparr>" None "''bank:send:a:b:7''" "''b''"]
  by simp

end
