(* ===== verification/Ante.thy ===== *)
theory Ante
  imports Bank Signatures
begin

text \<open>
  The checks that run before and after a transaction (\<^verbatim>\<open>app/ante.go\<close>): signature, fee and gas limits, account
  sequences, fee collection.  The standard library's Ed25519 verification is a parameter.
\<close>

section \<open>Configuration and metadata\<close>

datatype ante_error =
    ErrInsufficientFee
  | ErrInsufficientFeeBalance
  | ErrInvalidGas
  | ErrMissingNonce
  | ErrInvalidNonce
  | ErrInvalidNonceOf string u64 u64
  | AnteAppError app_error
  | AnteAccountError account_error
  | AnteStoreError store_error

record AnteConfig =
  an_MinFee :: u64
  an_BaseFee :: u64
  an_MinGas :: u64
  an_MaxGas :: u64
  an_RequireNonce :: bool
  an_FeeCollector :: string
  an_RequireSigned :: bool
  an_SignatureVerifier :: "tx_verifier option"

record AnteMeta =
  am_Signer :: string
  am_Nonce :: u64
  am_Fee :: u64
  am_FeeBig :: "nat option"
  am_Gas :: u64
  am_HasNonce :: bool

definition ParseTxMeta :: "envelope_codec \<Rightarrow> Tx \<Rightarrow> AnteMeta" where
  "ParseTxMeta json tx =
     (let nonce = TxUintTag json tx ''nonce'';
          fee = TxAmountBigTag json tx ''fee''
      in \<lparr>am_Signer = (case TxTag json tx ''signer'' of None \<Rightarrow> [] | Some signer \<Rightarrow> signer),
          am_Nonce = (case nonce of None \<Rightarrow> 0 | Some n \<Rightarrow> n),
          am_Fee = (case fee of None \<Rightarrow> 0 | Some f \<Rightarrow> if f < 2 ^ 64 then word_of_nat f else max_u64),
          am_FeeBig = fee,
          am_Gas = (case TxUintTag json tx ''gas'' of
                      Some gas \<Rightarrow> gas
                    | None \<Rightarrow> (case TxUintTag json tx ''gas_limit'' of Some gasLimit \<Rightarrow> gasLimit | None \<Rightarrow> 0)),
          am_HasNonce = (nonce \<noteq> None)\<rparr>)"

definition isEthereumRawTx :: "envelope_codec \<Rightarrow> Tx \<Rightarrow> bool" where
  "isEthereumRawTx json tx \<longleftrightarrow> TxTag json tx ''eth_raw'' \<noteq> None"

definition metaFeeBig :: "AnteMeta \<Rightarrow> nat" where
  "metaFeeBig meta = (case am_FeeBig meta of None \<Rightarrow> unat (am_Fee meta) | Some fee \<Rightarrow> fee)"

definition GasLimit :: "envelope_codec \<Rightarrow> Tx \<Rightarrow> u64" where
  "GasLimit json tx =
     (let meta = ParseTxMeta json tx in if 0 < am_Gas meta then am_Gas meta else word_of_nat (length tx))"

definition FeePaid :: "envelope_codec \<Rightarrow> Tx \<Rightarrow> u64" where
  "FeePaid json tx =
     (let fee = metaFeeBig (ParseTxMeta json tx) in if fee < 2 ^ 64 then word_of_nat fee else max_u64)"

section \<open>Checks\<close>

definition validateMeta :: "AnteConfig \<Rightarrow> AnteMeta \<Rightarrow> ante_error option" where
  "validateMeta config meta =
     (let fee = metaFeeBig meta in
      if 0 < an_MinFee config \<and> fee < unat (an_MinFee config) then Some ErrInsufficientFee
      else if 0 < an_BaseFee config \<and> am_Gas meta = 0 then Some ErrInvalidGas
      else if 0 < an_BaseFee config \<and> fee < unat (am_Gas meta) * unat (an_BaseFee config) then Some ErrInsufficientFee
      else if 0 < an_MinGas config \<and> am_Gas meta < an_MinGas config then Some ErrInvalidGas
      else if 0 < an_MaxGas config \<and> am_Gas meta > an_MaxGas config then Some ErrInvalidGas
      else if an_RequireNonce config \<and> (am_Signer meta = [] \<or> \<not> am_HasNonce meta) then Some ErrMissingNonce
      else None)"

definition validateMetaForTx :: "envelope_codec \<Rightarrow> AnteConfig \<Rightarrow> Tx \<Rightarrow> AnteMeta \<Rightarrow> ante_error option" where
  "validateMetaForTx json config tx meta =
     (if \<not> isEthereumRawTx json tx then validateMeta config meta
      else if am_Gas meta = 0 then Some ErrInvalidGas
      else if 0 < an_MinGas config \<and> am_Gas meta < an_MinGas config then Some ErrInvalidGas
      else if 0 < an_MaxGas config \<and> am_Gas meta > an_MaxGas config then Some ErrInvalidGas
      else if an_RequireNonce config \<and> (am_Signer meta = [] \<or> \<not> am_HasNonce meta) then Some ErrMissingNonce
      else None)"

definition signatureVerifier :: "ed25519_lib \<Rightarrow> AnteConfig \<Rightarrow> tx_verifier" where
  "signatureVerifier lib config =
     (case an_SignatureVerifier config of Some verify \<Rightarrow> verify | None \<Rightarrow> Ed25519Signer_Verify lib)"

definition verifySignature ::
    "envelope_codec \<Rightarrow> ed25519_lib \<Rightarrow> AnteConfig \<Rightarrow> string \<Rightarrow> Tx \<Rightarrow> ante_error option" where
  "verifySignature json lib config chainID tx =
     (if \<not> IsSignedTx tx then
        if TxTag json tx ''eth_raw'' \<noteq> None \<and> TxTag json tx ''eth_hash'' \<noteq> None then None
        else if an_RequireSigned config then Some (AnteAppError ErrInvalidSignedTx)
        else None
      else map_option AnteAppError (VerifySignedTx json chainID tx (Some (signatureVerifier lib config))))"

definition expectedSequence ::
    "envelope_codec \<Rightarrow> 's store_ops \<Rightarrow> ctx \<Rightarrow> 's option \<Rightarrow> string \<Rightarrow> Tx \<Rightarrow> ante_error + u64" where
  "expectedSequence json ops ctx store signer tx =
     (case (if isEthereumRawTx json tx then Sequence ops store ctx signer else NextSequence ops store ctx signer) of
        Inl e \<Rightarrow> Inl (AnteAccountError e)
      | Inr n \<Rightarrow> Inr n)"

definition invalidNonceError :: "AnteMeta \<Rightarrow> u64 \<Rightarrow> ante_error" where
  "invalidNonceError meta expected =
     (if am_Signer meta = [] \<or> \<not> am_HasNonce meta then ErrInvalidNonce
      else ErrInvalidNonceOf (am_Signer meta) (am_Nonce meta) expected)"

definition CheckTx ::
    "envelope_codec \<Rightarrow> ed25519_lib \<Rightarrow> 's store_ops \<Rightarrow> AnteConfig \<Rightarrow> AppContext \<Rightarrow> 's option \<Rightarrow> Tx \<Rightarrow> ante_error option" where
  "CheckTx json lib ops config ctx store tx =
     (case verifySignature json lib config (ac_ChainID ctx) tx of
        Some e \<Rightarrow> Some e
      | None \<Rightarrow>
          let meta = ParseTxMeta json tx in
          case validateMetaForTx json config tx meta of
            Some e \<Rightarrow> Some e
          | None \<Rightarrow>
              if store = None \<or> am_Signer meta = [] \<or> \<not> am_HasNonce meta then None
              else
                case expectedSequence json ops (ac_Ctx ctx) store (am_Signer meta) tx of
                  Inl e \<Rightarrow> Some e
                | Inr expected \<Rightarrow>
                    if am_Nonce meta \<noteq> expected then Some (invalidNonceError meta expected) else None)"

text \<open>\<^verbatim>\<open>CheckBlock\<close>: the argument \<open>nextBySigner\<close> starts empty.\<close>

fun CheckBlock ::
    "envelope_codec \<Rightarrow> ed25519_lib \<Rightarrow> 's store_ops \<Rightarrow> AnteConfig \<Rightarrow> AppContext \<Rightarrow> 's option \<Rightarrow> (string, u64) gomap \<Rightarrow>
     Tx list \<Rightarrow> ante_error option" where
  "CheckBlock json lib ops config ctx store nextBySigner [] = None"
| "CheckBlock json lib ops config ctx store nextBySigner (tx # txs) =
     (case verifySignature json lib config (ac_ChainID ctx) tx of
        Some e \<Rightarrow> Some e
      | None \<Rightarrow>
          let meta = ParseTxMeta json tx in
          case validateMetaForTx json config tx meta of
            Some e \<Rightarrow> Some e
          | None \<Rightarrow>
              if store = None \<or> am_Signer meta = [] \<or> \<not> am_HasNonce meta
              then CheckBlock json lib ops config ctx store nextBySigner txs
              else
                case (case map_of nextBySigner (am_Signer meta) of
                        Some expected \<Rightarrow> Inr expected
                      | None \<Rightarrow> expectedSequence json ops (ac_Ctx ctx) store (am_Signer meta) tx) of
                  Inl e \<Rightarrow> Some e
                | Inr expected \<Rightarrow>
                    if am_Nonce meta \<noteq> expected then Some (invalidNonceError meta expected)
                    else CheckBlock json lib ops config ctx store
                           (AList.update (am_Signer meta) (expected + 1) nextBySigner) txs)"

section \<open>Fees\<close>

text \<open>The package has its own copies of the bank's key, encoding and balance.\<close>

definition bankBalanceKey :: "string \<Rightarrow> bytes" where
  "bankBalanceKey raw =
     (if \<not> prefix ''0x'' raw then raw
      else
        let clean = drop 2 raw;
            clean = (if length clean mod 2 = 1 then CHR ''0'' # clean else clean)
        in case hexDecode clean of
             None \<Rightarrow> raw
           | Some decoded \<Rightarrow>
               if length decoded > 20 then raw
               else ''0x'' @ hexEncode (replicate (20 - length decoded) (char_of (0 :: nat)) @ decoded))"

definition encodeBankBalanceBig :: "nat \<Rightarrow> bytes" where
  "encodeBankBalanceBig balance =
     (if balance = 0 then replicate 8 (char_of (0 :: nat))
      else if balance < 2 ^ 64 then be_bytes 8 balance
      else big_Bytes balance)"

definition bankBalanceBig :: "'s store_ops \<Rightarrow> ctx \<Rightarrow> 's \<Rightarrow> string \<Rightarrow> ante_error + nat" where
  "bankBalanceBig ops ctx s address =
     (let canonical = op_Get ops s ctx ''bank'' (bankBalanceKey address);
          got = (if canonical = Inl ErrStoreKeyNotFound then op_Get ops s ctx ''bank'' address else canonical)
      in case got of
           Inl ErrStoreKeyNotFound \<Rightarrow> Inr 0
         | Inl e \<Rightarrow> Inl (AnteStoreError e)
         | Inr val \<Rightarrow>
             if val = [] then Inr 0
             else if length val > 32 then Inl ErrInsufficientFeeBalance
             else Inr (be_nat val))"

definition collectFee :: "'s store_ops \<Rightarrow> AnteConfig \<Rightarrow> ctx \<Rightarrow> 's \<Rightarrow> AnteMeta \<Rightarrow> 's \<times> ante_error option" where
  "collectFee ops config ctx s meta =
     (let fee = metaFeeBig meta in
      if fee = 0 then (s, None)
      else if am_Signer meta = [] then (s, Some ErrMissingNonce)
      else
        let collector = (if an_FeeCollector config = [] then ''fee_collector'' else an_FeeCollector config) in
        case bankBalanceBig ops ctx s (am_Signer meta) of
          Inl e \<Rightarrow> (s, Some e)
        | Inr balance \<Rightarrow>
            if balance < fee then (s, Some ErrInsufficientFeeBalance)
            else
              (case bankBalanceBig ops ctx s collector of
                 Inl e \<Rightarrow> (s, Some e)
               | Inr collectorBalance \<Rightarrow>
                   if collectorBalance + fee \<ge> 2 ^ 256 then (s, Some ErrInsufficientFeeBalance)
                   else
                     let first = \<lparr>kw_Namespace = ''bank'', kw_Key = bankBalanceKey (am_Signer meta),
                                  kw_Value = encodeBankBalanceBig (balance - fee), kw_Delete = False\<rparr>;
                         second = \<lparr>kw_Namespace = ''bank'', kw_Key = bankBalanceKey collector,
                                   kw_Value = encodeBankBalanceBig (collectorBalance + fee), kw_Delete = False\<rparr>
                     in case op_SetBatch ops s of
                          Some setBatch \<Rightarrow>
                            (case setBatch ctx [first, second] of (s, e) \<Rightarrow> (s, map_option AnteStoreError e))
                        | None \<Rightarrow>
                            (case op_Set ops s ctx (kw_Namespace first) (kw_Key first) (kw_Value first) of
                               (s, Some e) \<Rightarrow> (s, Some (AnteStoreError e))
                             | (s, None) \<Rightarrow>
                                 (case op_Set ops s ctx (kw_Namespace second) (kw_Key second) (kw_Value second) of
                                    (s, e) \<Rightarrow> (s, map_option AnteStoreError e)))))"

definition AfterTx ::
    "envelope_codec \<Rightarrow> 's store_ops \<Rightarrow> AnteConfig \<Rightarrow> ctx \<Rightarrow> 's option \<Rightarrow> Tx \<Rightarrow> 's option \<times> ante_error option" where
  "AfterTx json ops config ctx store tx =
     (let meta = ParseTxMeta json tx in
      case store of
        None \<Rightarrow> (store, None)
      | Some s \<Rightarrow>
          (case (if isEthereumRawTx json tx then (s, None) else collectFee ops config ctx s meta) of
             (s, Some e) \<Rightarrow> (Some s, Some e)
           | (s, None) \<Rightarrow>
               if am_Signer meta = [] \<or> \<not> am_HasNonce meta then (Some s, None)
               else if isEthereumRawTx json tx \<and> am_Nonce meta = max_u64 then (Some s, Some ErrInvalidNonce)
               else
                 case SetSequence ops (Some s) ctx (am_Signer meta)
                        (if isEthereumRawTx json tx then am_Nonce meta + 1 else am_Nonce meta) of
                   (store, e) \<Rightarrow> (store, map_option AnteAccountError e)))"

section \<open>The copies agree with the bank\<close>

lemma bankBalanceKey_eq: "bankBalanceKey = balanceKey"
  by (rule ext) (auto simp: bankBalanceKey_def balanceKey_def Let_def split: option.splits)

lemma encodeBankBalanceBig_eq: "encodeBankBalanceBig = encodeBalanceBig"
  by (rule ext) (simp add: encodeBankBalanceBig_def encodeBalanceBig_def)

lemma bankBalanceBig_eq:
  "bankBalanceBig ops ctx s a = Inr n \<longleftrightarrow> BalanceBig ops (Some s) ctx a = Inr n"
  by (auto simp: bankBalanceBig_def BalanceBig_def bankBalanceKey_eq Let_def split: sum.splits store_error.splits if_splits)


section \<open>What the handlers do to a store\<close>

definition fee_collector :: "AnteConfig \<Rightarrow> string" where
  "fee_collector config = (if an_FeeCollector config = [] then ''fee_collector'' else an_FeeCollector config)"

lemma fee_collector_ne [simp]: "fee_collector config \<noteq> []"
  by (simp add: fee_collector_def)

definition fee_moved :: "AnteConfig \<Rightarrow> AnteMeta \<Rightarrow> (bytes \<Rightarrow> nat) \<Rightarrow> bytes \<Rightarrow> nat" where
  "fee_moved config meta L =
     (if metaFeeBig meta = 0 then L else transferred L (am_Signer meta) (fee_collector config) (metaFeeBig meta))"

context state_store
begin

lemma bankBalanceBig_get:
  assumes "ok s" and "bank_ok (contents s)" and "a \<noteq> []"
  shows "bankBalanceBig ops None s a = Inr (ledger (contents s) (balanceKey a))"
  by (simp add: bankBalanceBig_eq BalanceBig_get [OF assms])

text \<open>Fee collection is a transfer in the bank.\<close>

lemma collectFee_ledger:
  assumes "ok s" and "bank_ok (contents s)" and "collectFee ops config None s meta = (s', e)"
  shows "ok s' \<and> bank_ok (contents s') \<and> contents s' ''auth'' = contents s ''auth''
    \<and> (e = None \<longrightarrow> ledger (contents s') = fee_moved config meta (ledger (contents s))
         \<and> (metaFeeBig meta = 0
            \<or> transfer_error (ledger (contents s)) (am_Signer meta) (fee_collector config) (metaFeeBig meta) = None))
    \<and> (e \<noteq> None \<longrightarrow> s' = s)"
proof (cases "metaFeeBig meta = 0")
  case True
  with assms show ?thesis
    by (auto simp: collectFee_def fee_moved_def)
next
  case fee: False
  let ?L = "ledger (contents s)" and ?a = "am_Signer meta" and ?c = "fee_collector config" and ?x = "metaFeeBig meta"
  show ?thesis
  proof (cases "transfer_error ?L ?a ?c ?x")
    case (Some err)
    with assms fee have "e \<noteq> None \<and> s' = s"
      by (auto simp: transfer_error_def collectFee_def Let_def bankBalanceBig_get [OF assms(1,2)] fee_collector_def
          split: if_splits)
    with assms show ?thesis
      by auto
  next
    case None
    then have g: "?a \<noteq> []" "\<not> ?L (balanceKey ?a) < ?x" "\<not> ?L (balanceKey ?c) + ?x \<ge> 2 ^ 256"
      by (auto simp: transfer_error_def split: if_splits)
    have m: "?L (balanceKey ?a) - ?x < 2 ^ 256"
      using ledger_bound [OF assms(2), of "balanceKey ?a"] by linarith
    have n: "?L (balanceKey ?c) + ?x < 2 ^ 256"
      using g(3) by linarith
    obtain u e' where run: "writeBalances ops s None ?a (?L (balanceKey ?a) - ?x) ?c (?L (balanceKey ?c) + ?x) = (u, e')"
      by (cases "writeBalances ops s None ?a (?L (balanceKey ?a) - ?x) ?c (?L (balanceKey ?c) + ?x)")
    note w = writeBalances_ledger [OF assms(1,2) g(1) fee_collector_ne m n run]
    have bal: "bankBalanceBig ops None s ?a = Inr (?L (balanceKey ?a))" "bankBalanceBig ops None s ?c = Inr (?L (balanceKey ?c))"
      using bankBalanceBig_get [OF assms(1,2)] g(1) by simp_all
    have "s' = u \<and> e = None"
    proof (cases "op_SetBatch ops s")
      case (Some f)
      with run w have "f None [balance_write ?a (?L (balanceKey ?a) - ?x), balance_write ?c (?L (balanceKey ?c) + ?x)] = (u, None)"
        by (auto simp: writeBalances_def balance_write_def split: prod.splits)
      with assms(3) Some fee g bal show ?thesis
        by (simp add: collectFee_def fee_collector_def Let_def balance_write_def bankBalanceKey_eq encodeBankBalanceBig_eq)
    next
      case None
      obtain s1 e1 where one: "op_Set ops s None ''bank'' (balanceKey ?a) (encodeBalanceBig (?L (balanceKey ?a) - ?x)) = (s1, e1)"
        by (cases "op_Set ops s None ''bank'' (balanceKey ?a) (encodeBalanceBig (?L (balanceKey ?a) - ?x))")
      obtain s2 e2 where two: "op_Set ops s1 None ''bank'' (balanceKey ?c) (encodeBalanceBig (?L (balanceKey ?c) + ?x)) = (s2, e2)"
        by (cases "op_Set ops s1 None ''bank'' (balanceKey ?c) (encodeBalanceBig (?L (balanceKey ?c) + ?x))")
      have "e1 = None" "e2 = None" "s2 = u"
        using run w None one two m n by (auto simp: writeBalances_def setBalanceBig_def split: option.splits)
      with assms(3) None fee g bal one two show ?thesis
        by (simp add: collectFee_def fee_collector_def Let_def bankBalanceKey_eq encodeBankBalanceBig_eq)
    qed
    with w None fee show ?thesis
      by (simp add: fee_moved_def transferred_def balance_write_ledger [OF balance_write_ledger(2) [OF assms(2) m] n]
          balance_write_ledger [OF assms(2) m])
  qed
qed

end

section \<open>Sequences along a run\<close>

text \<open>Transactions checked and accounted for one after the other, as block execution does around their delivery.\<close>

fun ante_run ::
    "envelope_codec \<Rightarrow> ed25519_lib \<Rightarrow> 's store_ops \<Rightarrow> AnteConfig \<Rightarrow> AppContext \<Rightarrow> 's option \<Rightarrow> Tx list \<Rightarrow> ante_error + 's option" where
  "ante_run json lib ops config ctx store [] = Inr store"
| "ante_run json lib ops config ctx store (tx # txs) =
     (case CheckTx json lib ops config ctx store tx of
        Some e \<Rightarrow> Inl e
      | None \<Rightarrow>
          (case AfterTx json ops config (ac_Ctx ctx) store tx of
             (store, Some e) \<Rightarrow> Inl e
           | (store, None) \<Rightarrow> ante_run json lib ops config ctx store txs))"

text \<open>The sequence that a transaction leaves behind, and whether it counts for an account.\<close>

definition tx_sequence :: "envelope_codec \<Rightarrow> Tx \<Rightarrow> u64" where
  "tx_sequence json tx = (if isEthereumRawTx json tx then am_Nonce (ParseTxMeta json tx) + 1 else am_Nonce (ParseTxMeta json tx))"

definition counts_for :: "envelope_codec \<Rightarrow> string \<Rightarrow> Tx \<Rightarrow> bool" where
  "counts_for json a tx \<longleftrightarrow> am_Signer (ParseTxMeta json tx) = a \<and> am_HasNonce (ParseTxMeta json tx)"

context state_store
begin

lemma CheckTx_sequence:
  assumes "ok s" and "ac_Ctx ctx = None" and "CheckTx json lib ops config ctx (Some s) tx = None"
    and "a \<noteq> []" and "counts_for json a tx"
  shows "\<exists>n. sequence_of (contents s) a = Some n \<and> tx_sequence json tx = n + 1"
proof -
  from assms(3-5) have "expectedSequence json ops None (Some s) a tx = Inr (am_Nonce (ParseTxMeta json tx))"
    by (auto simp: CheckTx_def counts_for_def Let_def assms(2) split: option.splits sum.splits if_splits)
  then show ?thesis
    by (auto simp: expectedSequence_def NextSequence_def Sequence_get [OF assms(1,4)] tx_sequence_def
        split: option.splits if_splits)
qed

lemma AfterTx_ledger:
  assumes "ok s" and "bank_ok (contents s)" and "AfterTx json ops config None (Some s) tx = (s', None)"
  shows "\<exists>t. s' = Some t \<and> ok t \<and> bank_ok (contents t)
    \<and> ledger (contents t) = (if isEthereumRawTx json tx then ledger (contents s)
         else fee_moved config (ParseTxMeta json tx) (ledger (contents s)))
    \<and> (\<forall>a. a \<noteq> [] \<longrightarrow> sequence_of (contents t) a =
         (if counts_for json a tx then Some (tx_sequence json tx) else sequence_of (contents s) a))"
proof -
  let ?m = "ParseTxMeta json tx"
  obtain u e where u: "(if isEthereumRawTx json tx then (s, None) else collectFee ops config None s ?m) = (u, e)"
    by (cases "if isEthereumRawTx json tx then (s, None) else collectFee ops config None s ?m")
  with assms(3) have e: "e = None"
    by (auto simp: AfterTx_def Let_def split: option.splits)
  have u': "ok u" "bank_ok (contents u)" "contents u ''auth'' = contents s ''auth''"
      "ledger (contents u) = (if isEthereumRawTx json tx then ledger (contents s) else fee_moved config ?m (ledger (contents s)))"
    using u e assms(1,2) collectFee_ledger [OF assms(1,2), of config ?m u e] by (auto split: if_splits)
  have same: "sequence_of (contents u) = sequence_of (contents s)"
    by (simp add: sequence_of_def u'(3) fun_eq_iff)
  show ?thesis
  proof (cases "am_Signer ?m = [] \<or> \<not> am_HasNonce ?m")
    case True
    with assms(3) u e have "s' = Some u"
      by (auto simp: AfterTx_def Let_def)
    with True u' same show ?thesis
      by (auto simp: counts_for_def)
  next
    case False
    obtain v e2 where v: "SetSequence ops (Some u) None (am_Signer ?m) (tx_sequence json tx) = (v, e2)"
      by (cases "SetSequence ops (Some u) None (am_Signer ?m) (tx_sequence json tx)")
    with assms(3) u e False have s': "s' = v"
      by (auto simp: AfterTx_def Let_def tx_sequence_def split: if_splits)
    from SetSequence_set [OF u'(1) _ v] False obtain t where t: "v = Some t" "ok t"
        "sequence_of (contents t) = (sequence_of (contents u))(am_Signer ?m \<mapsto> tx_sequence json tx)"
        "\<forall>ns k. ns \<noteq> ''auth'' \<longrightarrow> contents t ns k = contents u ns k"
      by blast
    have b: "contents t ''bank'' = contents u ''bank''"
      using t(4) by (auto simp: fun_eq_iff)
    have "bank_ok (contents t)" "ledger (contents t) = ledger (contents u)"
      using u'(2) by (auto simp: bank_ok_def ledger_def b fun_eq_iff)
    with s' t u'(4) same False show ?thesis
      by (auto simp: counts_for_def)
  qed
qed

lemma run_sequences:
  assumes "ok s" and "bank_ok (contents s)" and "ac_Ctx ctx = None" and "a \<noteq> []"
    and "sequence_of (contents s) a = Some n"
    and "ante_run json lib ops config ctx (Some s) txs = Inr s'"
  shows "\<exists>t. s' = Some t \<and> ok t \<and> bank_ok (contents t)
    \<and> sequence_of (contents t) a = Some (n + word_of_nat (length (filter (counts_for json a) txs)))
    \<and> map (tx_sequence json) (filter (counts_for json a) txs) =
        map (\<lambda>i. n + word_of_nat i) [1..<Suc (length (filter (counts_for json a) txs))]"
  using assms(1,2,5,6)
proof (induction txs arbitrary: s n)
  case (Cons tx txs)
  from Cons.prems(4) have check: "CheckTx json lib ops config ctx (Some s) tx = None"
    by (auto split: option.splits)
  with Cons.prems(4) obtain s1 where after: "AfterTx json ops config None (Some s) tx = (s1, None)"
      and rest: "ante_run json lib ops config ctx s1 txs = Inr s'"
    by (auto simp: assms(3) split: option.splits prod.splits)
  from AfterTx_ledger [OF Cons.prems(1,2) after] obtain t where t: "s1 = Some t" "ok t" "bank_ok (contents t)"
      "sequence_of (contents t) a = (if counts_for json a tx then Some (tx_sequence json tx) else sequence_of (contents s) a)"
    using assms(4) by blast
  show ?case
  proof (cases "counts_for json a tx")
    case True
    from CheckTx_sequence [OF Cons.prems(1) assms(3) check assms(4) True] Cons.prems(3)
    have seq: "tx_sequence json tx = n + 1"
      by auto
    have upt: "(1 + n) # map (\<lambda>i. 1 + (n + word_of_nat i)) [Suc 0..<Suc k] = map (\<lambda>i. n + word_of_nat i) [Suc 0..<Suc (Suc k)]" for k
      by (rule nth_equalityI) (auto simp: nth_Cons algebra_simps simp del: upt_Suc split: nat.splits)
    from Cons.IH [of t "n + 1"] t rest True seq show ?thesis
      by (auto simp: upt algebra_simps simp del: upt_Suc)
  next
    case False
    with Cons.IH [of t n] t rest Cons.prems(3) show ?thesis
      by auto
  qed
qed auto

lemma replay_refused:
  assumes "ok s" and "bank_ok (contents s)" and "ac_Ctx ctx = None"
    and "am_Signer (ParseTxMeta json tx) \<noteq> []" and "am_HasNonce (ParseTxMeta json tx)"
    and "ante_run json lib ops config ctx (Some s) (tx # txs) = Inr s'" and "length txs < 2 ^ 64 - 1"
  shows "CheckTx json lib ops config ctx s' tx \<noteq> None"
proof
  let ?a = "am_Signer (ParseTxMeta json tx)"
  assume again: "CheckTx json lib ops config ctx s' tx = None"
  have cf: "counts_for json ?a tx"
    by (simp add: counts_for_def assms(5))
  from assms(6) have "CheckTx json lib ops config ctx (Some s) tx = None"
    by (auto split: option.splits)
  from CheckTx_sequence [OF assms(1,3) this assms(4) cf] obtain n where n: "sequence_of (contents s) ?a = Some n"
      "tx_sequence json tx = n + 1"
    by blast
  let ?k = "length (filter (counts_for json ?a) txs)"
  from run_sequences [OF assms(1-4) n(1) assms(6)] cf obtain t where t: "s' = Some t" "ok t"
      "sequence_of (contents t) ?a = Some (n + word_of_nat (Suc ?k))"
    by auto
  from CheckTx_sequence [OF t(2) assms(3) again [unfolded t(1)] assms(4) cf] t(3) n(2)
  have "(word_of_nat (Suc ?k) :: u64) = 0"
    by auto
  moreover have "Suc ?k < 2 ^ 64"
    using le_less_trans [OF length_filter_le assms(7)] by simp
  ultimately show False
    by (metis nat.distinct(1) unat_0 u64_of_nat)
qed

end

section \<open>Properties\<close>

text \<open>
  C11: No replay.  A transaction that names a signer and a nonce, once it has been checked and accounted for, is refused from
  then on, however many transactions follow it, up to the wrap-around of the 64-bit sequence; and along every run the
  nonces of an account are consecutive from its sequence.
\<close>

theorem transactions_not_replayed:
  assumes "staged_ok s" and "bank_ok (staged_contents s)" and "ac_Ctx ctx = None"
    and "am_Signer (ParseTxMeta json tx) \<noteq> []" and "am_HasNonce (ParseTxMeta json tx)"
    and "ante_run json lib staged_ops config ctx (Some s) (tx # txs) = Inr s'" and "length txs < 2 ^ 64 - 1"
  shows "CheckTx json lib staged_ops config ctx s' tx \<noteq> None
    \<and> (\<exists>n. map (tx_sequence json) (filter (counts_for json (am_Signer (ParseTxMeta json tx))) (tx # txs)) =
         map (\<lambda>i. n + word_of_nat i)
           [1..<Suc (length (filter (counts_for json (am_Signer (ParseTxMeta json tx))) (tx # txs)))])"
proof (rule conjI)
  show "CheckTx json lib staged_ops config ctx s' tx \<noteq> None"
    by (rule staged.replay_refused [OF assms])
  have check: "CheckTx json lib staged_ops config ctx (Some s) tx = None"
    using assms(6) by (auto split: option.splits)
  have cf: "counts_for json (am_Signer (ParseTxMeta json tx)) tx"
    by (simp add: counts_for_def assms(5))
  obtain n where "sequence_of (staged_contents s) (am_Signer (ParseTxMeta json tx)) = Some n"
    using staged.CheckTx_sequence [OF assms(1,3) check assms(4) cf] by blast
  from staged.run_sequences [OF assms(1-4) this assms(6)]
  show "\<exists>n. map (tx_sequence json) (filter (counts_for json (am_Signer (ParseTxMeta json tx))) (tx # txs)) =
      map (\<lambda>i. n + word_of_nat i) [1..<Suc (length (filter (counts_for json (am_Signer (ParseTxMeta json tx))) (tx # txs)))]"
    by blast
qed

text \<open>
  Fees are transfers.  Accounting for a native transaction takes exactly its fee from the signer, who has it, and gives
  it to the fee collector; when these are different accounts the sum of all balances is unchanged.
\<close>

theorem fee_collection_exact:
  assumes "staged_ok s" and "bank_ok (staged_contents s)" and "\<not> isEthereumRawTx json tx"
    and "balanceKey (am_Signer (ParseTxMeta json tx)) \<noteq> balanceKey (fee_collector config)"
    and "AfterTx json staged_ops config None (Some s) tx = (s', None)"
  shows "\<exists>t. s' = Some t \<and> bank_ok (staged_contents t)
    \<and> total_supply (ledger (staged_contents t)) = total_supply (ledger (staged_contents s))
    \<and> ledger (staged_contents t) (balanceKey (am_Signer (ParseTxMeta json tx))) + metaFeeBig (ParseTxMeta json tx) =
        ledger (staged_contents s) (balanceKey (am_Signer (ParseTxMeta json tx)))
    \<and> ledger (staged_contents t) (balanceKey (fee_collector config)) =
        ledger (staged_contents s) (balanceKey (fee_collector config)) + metaFeeBig (ParseTxMeta json tx)"
proof -
  let ?m = "ParseTxMeta json tx" and ?L = "ledger (staged_contents s)"
  from staged.AfterTx_ledger [OF assms(1,2,5)] assms(3) obtain t where t: "s' = Some t" "bank_ok (staged_contents t)"
      "ledger (staged_contents t) = fee_moved config ?m ?L"
    by auto
  obtain u e where u: "collectFee staged_ops config None s ?m = (u, e)"
    by (cases "collectFee staged_ops config None s ?m")
  with assms(3,5) have "e = None"
    by (auto simp: AfterTx_def Let_def split: option.splits)
  with staged.collectFee_ledger [OF assms(1,2) u]
  have ok: "metaFeeBig ?m = 0 \<or> transfer_error ?L (am_Signer ?m) (fee_collector config) (metaFeeBig ?m) = None"
    by simp
  show ?thesis
  proof (cases "metaFeeBig ?m = 0")
    case True
    with t show ?thesis
      by (simp add: fee_moved_def)
  next
    case False
    with ok have err: "transfer_error ?L (am_Signer ?m) (fee_collector config) (metaFeeBig ?m) = None"
      by simp
    then have le: "metaFeeBig ?m \<le> ?L (balanceKey (am_Signer ?m))"
      by (auto simp: transfer_error_def split: if_splits)
    from t False err supply_transfer [OF ledger_finite [OF assms(2)] assms(4) le] le assms(4) show ?thesis
      by (simp add: fee_moved_def transferred_def)
  qed
qed

subsection \<open>A concrete transaction\<close>

definition ex_ante_config :: AnteConfig where
  "ex_ante_config = \<lparr>an_MinFee = 0, an_BaseFee = 0, an_MinGas = 0, an_MaxGas = 0, an_RequireNonce = True, an_FeeCollector = [],
     an_RequireSigned = False, an_SignatureVerifier = None\<rparr>"

definition ex_app_header :: Header where
  "ex_app_header = \<lparr>hdr_ChainID = ''c'', hdr_Height = 1, hdr_TimeUnixNano = 0, hdr_PreviousBlockHash = 0, hdr_AppHash = 0,
     hdr_ValidatorSetHash = 0, hdr_ConsensusHash = 0, hdr_TxRoot = 0\<rparr>"

definition ex_context :: AppContext where
  "ex_context = \<lparr>ac_Ctx = None, ac_ChainID = ''c'', ac_EVMChainID = 0, ac_BaseFee = 0, ac_BlobBaseFee = 0, ac_Height = 1,
     ac_Header = ex_app_header, ac_Block = None, ac_TxResults = []\<rparr>"

definition ex_nonce_tx :: Tx where
  "ex_nonce_tx = ''bank:send:a:b:7:signer=a:nonce=1''"

definition ex_fee_tx :: Tx where
  "ex_fee_tx = ''bank:send:a:b:7:fee=2:signer=a''"

text \<open>A library that accepts no signature.\<close>

definition ex_ed_lib :: ed25519_lib where
  "ex_ed_lib = \<lparr>lib_Public = \<lambda>_. [], lib_Sign = \<lambda>_ _. [], lib_Verify = \<lambda>_ _ _. False\<rparr>"

lemma TxPayload_unsigned: "\<not> IsSignedTx tx \<Longrightarrow> TxPayload json tx = tx"
  by (simp add: TxPayload_def DecodeSignedTx_def)

lemma ex_unsigned: "\<not> IsSignedTx ex_nonce_tx" "\<not> IsSignedTx ex_fee_tx"
  by (simp_all add: IsSignedTx_def signedTxPrefix_def ex_nonce_tx_def ex_fee_tx_def)

lemma ex_nonce_tags: "TxTag json ex_nonce_tx k = map_of [(''signer'', ''a''), (''nonce'', ''1'')] k"
  unfolding TxTag_def ParseCanonicalTx_def TxPayload_unsigned [OF ex_unsigned(1)]
  by (simp add: ex_nonce_tx_def cutOn_def Let_def)

lemma ex_fee_tags: "TxTag json ex_fee_tx k = map_of [(''fee'', ''2''), (''signer'', ''a'')] k"
  unfolding TxTag_def ParseCanonicalTx_def TxPayload_unsigned [OF ex_unsigned(2)]
  by (simp add: ex_fee_tx_def cutOn_def Let_def)

lemma ex_digits: "ParseUint ''1'' = Some 1" "ParseAmountBig ''2'' = Some 2"
proof -
  have one: "''1'' = FormatUint 1" and two: "''2'' = formatDec 2"
    using digit_values by (simp_all add: FormatUint_def formatDec.simps)
  show "ParseUint ''1'' = Some 1"
    unfolding one by (rule ParseUint_FormatUint)
  show "ParseAmountBig ''2'' = Some 2"
    unfolding two by (rule ParseAmountBig_formatDec)
qed

lemma ex_nonce_meta: "ParseTxMeta json ex_nonce_tx =
    \<lparr>am_Signer = ''a'', am_Nonce = 1, am_Fee = 0, am_FeeBig = None, am_Gas = 0, am_HasNonce = True\<rparr>"
  "\<not> isEthereumRawTx json ex_nonce_tx"
  by (simp_all add: ParseTxMeta_def TxUintTag_def TxAmountBigTag_def ex_nonce_tags ex_digits isEthereumRawTx_def)

lemma ex_fee_meta: "ParseTxMeta json ex_fee_tx =
    \<lparr>am_Signer = ''a'', am_Nonce = 0, am_Fee = 2, am_FeeBig = Some 2, am_Gas = 0, am_HasNonce = False\<rparr>"
  "\<not> isEthereumRawTx json ex_fee_tx"
  by (simp_all add: ParseTxMeta_def TxUintTag_def TxAmountBigTag_def ex_fee_tags ex_digits isEthereumRawTx_def)

lemma ex_sequence: "Sequence staged_ops (Some ex_bank_store) None ''a'' = Inr 0"
  by (simp add: staged.Sequence_get [OF ex_bank_ok(1)] sequence_of_def ex_bank_contents)

lemma ex_ante_run: "\<exists>t. ante_run ex_envelope_codec ex_ed_lib staged_ops ex_ante_config ex_context (Some ex_bank_store) [ex_nonce_tx] = Inr t"
proof -
  have "CheckTx ex_envelope_codec ex_ed_lib staged_ops ex_ante_config ex_context (Some ex_bank_store) ex_nonce_tx = None"
    by (simp add: CheckTx_def verifySignature_def ex_unsigned ex_nonce_meta ex_nonce_tags ex_ante_config_def ex_context_def
        validateMetaForTx_def validateMeta_def expectedSequence_def NextSequence_def ex_sequence)
  moreover have "\<exists>t. AfterTx ex_envelope_codec staged_ops ex_ante_config None (Some ex_bank_store) ex_nonce_tx = (t, None)"
    by (simp add: AfterTx_def ex_nonce_meta collectFee_def metaFeeBig_def SetSequence_def staged_ops_def StagedStore_Set_def
        ex_bank_store_def NewStagedStore_def)
  ultimately show ?thesis
    by (auto simp: ex_context_def)
qed

theorem transactions_not_replayed_witness:
  "\<exists>t. ante_run ex_envelope_codec ex_ed_lib staged_ops ex_ante_config ex_context (Some ex_bank_store) [ex_nonce_tx] = Inr t
     \<and> CheckTx ex_envelope_codec ex_ed_lib staged_ops ex_ante_config ex_context t ex_nonce_tx \<noteq> None"
proof -
  obtain t where t: "ante_run ex_envelope_codec ex_ed_lib staged_ops ex_ante_config ex_context (Some ex_bank_store) [ex_nonce_tx] = Inr t"
    using ex_ante_run by blast
  have "CheckTx ex_envelope_codec ex_ed_lib staged_ops ex_ante_config ex_context t ex_nonce_tx \<noteq> None"
    by (rule transactions_not_replayed [OF ex_bank_ok _ _ _ t, THEN conjunct1]) (simp_all add: ex_context_def ex_nonce_meta)
  with t show ?thesis
    by blast
qed

lemma ex_fee_keys: "balanceKey ''fee_collector'' = ''fee_collector''" "fee_collector ex_ante_config = ''fee_collector''"
  by (simp_all add: balanceKey_def fee_collector_def ex_ante_config_def split: option.splits)

lemma ex_fee_after: "\<exists>t. AfterTx ex_envelope_codec staged_ops ex_ante_config None (Some ex_bank_store) ex_fee_tx = (Some t, None)"
proof -
  have "ledger (staged_contents ex_bank_store) ''a'' = 49" "ledger (staged_contents ex_bank_store) ''fee_collector'' = 0"
    by (simp_all add: ledger_def ex_bank_contents be_nat_def)
  then have "bankBalanceBig staged_ops None ex_bank_store ''a'' = Inr 49"
      "bankBalanceBig staged_ops None ex_bank_store ''fee_collector'' = Inr 0"
    by (simp_all add: staged.bankBalanceBig_get [OF ex_bank_ok] ex_fee_keys ex_bank_keys)
  then have "\<exists>u. collectFee staged_ops ex_ante_config None ex_bank_store (ParseTxMeta ex_envelope_codec ex_fee_tx) = (u, None)"
    by (simp add: collectFee_def ex_fee_meta metaFeeBig_def ex_ante_config_def Let_def staged_ops_def StagedStore_SetBatch_def
        ex_bank_store_def NewStagedStore_def)
  then show ?thesis
    by (auto simp: AfterTx_def ex_fee_meta)
qed

theorem fee_collection_exact_witness:
  "\<exists>t. AfterTx ex_envelope_codec staged_ops ex_ante_config None (Some ex_bank_store) ex_fee_tx = (Some t, None)
     \<and> total_supply (ledger (staged_contents t)) = total_supply (ledger (staged_contents ex_bank_store))
     \<and> ledger (staged_contents t) ''fee_collector'' = ledger (staged_contents ex_bank_store) ''fee_collector'' + 2"
proof -
  obtain t where t: "AfterTx ex_envelope_codec staged_ops ex_ante_config None (Some ex_bank_store) ex_fee_tx = (Some t, None)"
    using ex_fee_after by blast
  have keys: "balanceKey (am_Signer (ParseTxMeta ex_envelope_codec ex_fee_tx)) \<noteq> balanceKey (fee_collector ex_ante_config)"
    by (simp add: ex_fee_meta ex_bank_keys ex_fee_keys)
  from fee_collection_exact [OF ex_bank_ok ex_fee_meta(2) keys t] t show ?thesis
    by (auto simp: ex_fee_meta ex_fee_keys metaFeeBig_def)
qed

end
