(* ===== verification/AppRuntime.thy ===== *)
theory AppRuntime
  imports Ante FairOrdering
begin

text \<open>
  The application runtime (\<^verbatim>\<open>app/runtime.go\<close>, \<^verbatim>\<open>app/router.go\<close>) and the event index it writes
  (\<^verbatim>\<open>events/events.go\<close>): checking transactions, preparing and processing proposals, executing a block on a
  store or on a staged copy.  A module is a record of functions; the optional interfaces are options.  What the runtime calls
  outside of the application (the database, the standard library's JSON and Ed25519) is a record of parameters.
\<close>

section \<open>Stores behind the interface\<close>

text \<open>
  A \<^verbatim>\<open>StateStore\<close> value is a database or a staged store.  \<open>env_ops\<close> are the operations of the database type,
  \<open>env_view\<close> is how a staged store reads one.
\<close>

type_synonym 'b iface = "'b + StagedStore"

record Attribute =
  at_Key :: string
  at_Value :: string
  at_Index :: bool

record Event =
  ev_Type :: string
  ev_Attributes :: "Attribute list"

record 'b runtime_env =
  env_tagJSON :: envelope_json
  env_json :: envelope_codec
  env_lib :: ed25519_lib
  env_ops :: "'b store_ops"
  env_view :: "'b \<Rightarrow> base_store"
  env_marshalRecord :: "u64 \<Rightarrow> nat \<Rightarrow> Event \<Rightarrow> string + bytes"

definition lift_store :: "('s \<Rightarrow> 't) \<Rightarrow> 's \<times> store_error option \<Rightarrow> 't \<times> store_error option" where
  "lift_store wrap r = (case r of (s, e) \<Rightarrow> (wrap s, e))"

definition iface_ops :: "'b runtime_env \<Rightarrow> 'b iface store_ops" where
  "iface_ops env =
     \<lparr>op_Get = (\<lambda>s ctx ns k. case s of Inl b \<Rightarrow> op_Get (env_ops env) b ctx ns k | Inr st \<Rightarrow> StagedStore_Get st ctx ns k),
      op_Set = (\<lambda>s ctx ns k v. case s of Inl b \<Rightarrow> lift_store Inl (op_Set (env_ops env) b ctx ns k v)
                  | Inr st \<Rightarrow> lift_store Inr (StagedStore_Set st ctx ns k v)),
      op_Delete = (\<lambda>s ctx ns k. case s of Inl b \<Rightarrow> lift_store Inl (op_Delete (env_ops env) b ctx ns k)
                     | Inr st \<Rightarrow> lift_store Inr (StagedStore_Delete st ctx ns k)),
      op_SetBatch = (\<lambda>s. case s of
           Inl b \<Rightarrow> map_option (\<lambda>f ctx ws. lift_store Inl (f ctx ws)) (op_SetBatch (env_ops env) b)
         | Inr st \<Rightarrow> Some (\<lambda>ctx ws. lift_store Inr (StagedStore_SetBatch st ctx ws)))\<rparr>"

text \<open>The assertion to \<^verbatim>\<open>StateRootStore\<close> and \<^verbatim>\<open>KVStore\<close>, which ask for the same methods.\<close>

definition iface_Root :: "'b runtime_env \<Rightarrow> 'b iface \<Rightarrow> (ctx \<Rightarrow> string \<Rightarrow> store_error + hash) option" where
  "iface_Root env s = (case s of Inl b \<Rightarrow> bs_Root (env_view env b) | Inr st \<Rightarrow> Some (StagedStore_Root st))"

section \<open>The event index (events.go)\<close>

datatype runtime_error =
    ErrEmptyChainID
  | ErrOrderingMismatch
  | ErrInvalidTransaction
  | ErrOutOfGas
  | ErrProposalRejected runtime_error
  | ErrMalformedRoutedTx
  | ErrNoRouteForTx
  | ErrInvalidEvent
  | RtCtxError ctx_error
  | RtAnteError ante_error
  | RtModuleError string
  | RtDeliverFailed string
  | RtStoreError store_error

definition eventKey :: "Height \<Rightarrow> nat \<Rightarrow> string \<Rightarrow> nat \<Rightarrow> bytes" where
  "eventKey height txIndex eventType sequence =
     ''height/'' @ FormatUint height @ ''/'' @ formatDec txIndex @ ''/'' @ eventType @ ''/'' @ formatDec sequence"

definition attributeKey :: "string \<Rightarrow> string \<Rightarrow> Height \<Rightarrow> nat \<Rightarrow> string \<Rightarrow> bytes" where
  "attributeKey key val height txIndex eventType =
     ''attr2/'' @ hexEncode key @ ''/'' @ hexEncode val @ ''/'' @ FormatUint height @ ''/'' @ formatDec txIndex @ ''/''
     @ hexEncode eventType"

definition legacyAttributeKey :: "string \<Rightarrow> string \<Rightarrow> Height \<Rightarrow> nat \<Rightarrow> string \<Rightarrow> bytes" where
  "legacyAttributeKey key val height txIndex eventType =
     ''attr/'' @ key @ ''/'' @ val @ ''/'' @ FormatUint height @ ''/'' @ formatDec txIndex @ ''/'' @ eventType"

definition eventWrite :: "bytes \<Rightarrow> bytes \<Rightarrow> KVWrite" where
  "eventWrite key encoded = \<lparr>kw_Namespace = ''events'', kw_Key = key, kw_Value = encoded, kw_Delete = False\<rparr>"

fun indexEvents ::
    "'b runtime_env \<Rightarrow> Height \<Rightarrow> (nat \<times> Event) list \<Rightarrow> KVWrite list \<Rightarrow> runtime_error + KVWrite list" where
  "indexEvents env height [] writes = Inr writes"
| "indexEvents env height ((txIndex, event) # events) writes =
     (if ev_Type event = [] then Inl ErrInvalidEvent
      else
        case env_marshalRecord env height txIndex event of
          Inl e \<Rightarrow> Inl (RtModuleError e)
        | Inr encoded \<Rightarrow>
            indexEvents env height events
              (writes @ [eventWrite (eventKey height txIndex (ev_Type event) (length writes)) encoded]
               @ concat (map (\<lambda>a. [eventWrite (attributeKey (at_Key a) (at_Value a) height txIndex (ev_Type event)) encoded,
                                   eventWrite (legacyAttributeKey (at_Key a) (at_Value a) height txIndex (ev_Type event)) encoded])
                   (filter (\<lambda>a. at_Index a \<and> at_Key a \<noteq> []) (ev_Attributes event)))))"

fun setLoop :: "'s store_ops \<Rightarrow> ctx \<Rightarrow> 's \<Rightarrow> KVWrite list \<Rightarrow> 's \<times> store_error option" where
  "setLoop ops ctx s [] = (s, None)"
| "setLoop ops ctx s (w # ws) =
     (case op_Set ops s ctx (kw_Namespace w) (kw_Key w) (kw_Value w) of
        (s, Some e) \<Rightarrow> (s, Some e)
      | (s, None) \<Rightarrow> setLoop ops ctx s ws)"

definition IndexBlock ::
    "'b runtime_env \<Rightarrow> ctx \<Rightarrow> 'b iface \<Rightarrow> Height \<Rightarrow> Event list list \<Rightarrow> 'b iface \<times> runtime_error option" where
  "IndexBlock env ctx s height txEvents =
     (case indexEvents env height
             (concat (map (\<lambda>(txIndex, events). map (Pair txIndex) events) (enumerate 0 txEvents))) [] of
        Inl e \<Rightarrow> (s, Some e)
      | Inr writes \<Rightarrow>
          if writes = [] then (s, None)
          else
            case (case op_SetBatch (iface_ops env) s of
                    Some setBatch \<Rightarrow> setBatch ctx writes
                  | None \<Rightarrow> setLoop (iface_ops env) ctx s writes) of
              (s, e) \<Rightarrow> (s, map_option RtStoreError e))"

section \<open>Modules and routing\<close>

record 'b AppModule =
  mod_Name :: string
  mod_BeginBlock :: "AppContext \<Rightarrow> 'b iface exec_state \<Rightarrow> Header \<Rightarrow> 'b iface exec_state \<times> string option"
  mod_DeliverTx :: "AppContext \<Rightarrow> 'b iface exec_state \<Rightarrow> Tx \<Rightarrow> 'b iface exec_state \<times> Result"
  mod_EndBlock :: "AppContext \<Rightarrow> 'b iface exec_state \<Rightarrow> 'b iface exec_state \<times> string option"
  mod_EstimateGas :: "(AppContext \<Rightarrow> 'b iface exec_state \<Rightarrow> Tx \<Rightarrow> string + u64) option"
  mod_ValidateTx :: "(AppContext \<Rightarrow> 'b iface exec_state \<Rightarrow> Tx \<Rightarrow> string option) option"
  mod_ValidatorUpdates :: "(AppContext \<Rightarrow> 'b iface exec_state \<Rightarrow> ValidatorUpdate list) option"
  mod_Events :: "(AppContext \<Rightarrow> 'b iface exec_state \<Rightarrow> Tx \<Rightarrow> Result \<Rightarrow> Event list) option"

type_synonym 'b router = "AppContext \<Rightarrow> Tx \<Rightarrow> 'b AppModule list \<Rightarrow> runtime_error + 'b AppModule"

definition PrefixRouter :: "'b router" where
  "PrefixRouter ctx tx modules =
     (case cutOn CHR '':'' tx of
        None \<Rightarrow> Inl ErrMalformedRoutedTx
      | Some (name, rest) \<Rightarrow>
          if name = [] then Inl ErrMalformedRoutedTx
          else
            case find (\<lambda>m. mod_Name m = name) modules of
              Some m \<Rightarrow> Inr m
            | None \<Rightarrow> Inl ErrNoRouteForTx)"

section \<open>The runtime (runtime.go)\<close>

record 'b Runtime =
  rt_chainID :: string
  rt_evmChainID :: u64
  rt_modules :: "'b AppModule list"
  rt_router :: "'b router"
  rt_ante :: "AnteConfig option"
  rt_store :: "'b option"
  rt_height :: Height
  rt_appHash :: hash
  rt_baseFee :: u64
  rt_blobBaseFee :: u64

definition NewRuntime :: "string \<Rightarrow> 'b AppModule list \<Rightarrow> 'b router \<Rightarrow> runtime_error + 'b Runtime" where
  "NewRuntime chainID modules router =
     (if chainID = [] then Inl ErrEmptyChainID
      else Inr \<lparr>rt_chainID = chainID, rt_evmChainID = 0, rt_modules = modules, rt_router = router, rt_ante = None,
                rt_store = None, rt_height = 0, rt_appHash = zero_hash, rt_baseFee = 0, rt_blobBaseFee = 0\<rparr>)"

definition newContext :: "'b Runtime \<Rightarrow> ctx \<Rightarrow> Height \<Rightarrow> Header \<Rightarrow> AppContext" where
  "newContext rt ctx height header =
     \<lparr>ac_Ctx = ctx, ac_ChainID = rt_chainID rt, ac_EVMChainID = rt_evmChainID rt, ac_BaseFee = rt_baseFee rt,
      ac_BlobBaseFee = rt_blobBaseFee rt, ac_Height = height, ac_Header = header, ac_Block = None, ac_TxResults = []\<rparr>"

definition checkState :: "'b Runtime \<Rightarrow> 'b iface exec_state" where
  "checkState rt = \<lparr>xs_Store = map_option Inl (rt_store rt), xs_Gas = None\<rparr>"

definition checkEstimatedGas ::
    "'b runtime_env \<Rightarrow> 'b Runtime \<Rightarrow> AppContext \<Rightarrow> Tx \<Rightarrow> Tx \<Rightarrow> 'b AppModule \<Rightarrow> runtime_error option" where
  "checkEstimatedGas env rt ctx tx payload module =
     (case (rt_ante rt, mod_EstimateGas module) of
        (Some config, Some estimate) \<Rightarrow>
          (case estimate ctx (checkState rt) payload of
             Inl e \<Rightarrow> Some (RtModuleError e)
           | Inr required \<Rightarrow>
               let limit = GasLimit (env_json env) tx in
               if 0 < limit \<and> limit < required then Some ErrOutOfGas else None)
      | _ \<Rightarrow> None)"

definition validateModuleTx :: "'b Runtime \<Rightarrow> AppContext \<Rightarrow> Tx \<Rightarrow> 'b AppModule \<Rightarrow> runtime_error option" where
  "validateModuleTx rt ctx payload module =
     (case mod_ValidateTx module of
        None \<Rightarrow> None
      | Some validate \<Rightarrow> map_option RtModuleError (validate ctx (checkState rt) payload))"

definition zero_header :: Header where
  "zero_header = \<lparr>hdr_ChainID = [], hdr_Height = 0, hdr_TimeUnixNano = 0, hdr_PreviousBlockHash = 0, hdr_AppHash = 0,
     hdr_ValidatorSetHash = 0, hdr_ConsensusHash = 0, hdr_TxRoot = 0\<rparr>"

text \<open>The response code is 0 exactly when the result is \<open>None\<close>; otherwise the log is the text of the error.\<close>

definition CheckTxContext :: "'b runtime_env \<Rightarrow> 'b Runtime \<Rightarrow> ctx \<Rightarrow> Tx \<Rightarrow> runtime_error option" where
  "CheckTxContext env rt goCtx tx =
     (let ctx = newContext rt goCtx (rt_height rt) zero_header in
      case goCtx of
        Some e \<Rightarrow> Some (RtCtxError e)
      | None \<Rightarrow>
          case (case rt_ante rt of
                  None \<Rightarrow> None
                | Some config \<Rightarrow>
                    CheckTx (env_json env) (env_lib env) (iface_ops env) config ctx (xs_Store (checkState rt)) tx) of
            Some e \<Rightarrow> Some (RtAnteError e)
          | None \<Rightarrow>
              let payload = TxPayload (env_json env) tx in
              case rt_router rt ctx payload (rt_modules rt) of
                Inl e \<Rightarrow> Some e
              | Inr module \<Rightarrow>
                  (case validateModuleTx rt ctx payload module of
                     Some e \<Rightarrow> Some e
                   | None \<Rightarrow> checkEstimatedGas env rt ctx tx payload module))"

fun validateTxLoop :: "'b runtime_env \<Rightarrow> 'b Runtime \<Rightarrow> AppContext \<Rightarrow> Tx list \<Rightarrow> runtime_error option" where
  "validateTxLoop env rt ctx [] = None"
| "validateTxLoop env rt ctx (tx # txs) =
     (let payload = TxPayload (env_json env) tx in
      case rt_router rt ctx payload (rt_modules rt) of
        Inl _ \<Rightarrow> Some ErrInvalidTransaction
      | Inr module \<Rightarrow>
          (case validateModuleTx rt ctx payload module of
             Some e \<Rightarrow> Some e
           | None \<Rightarrow>
               (case checkEstimatedGas env rt ctx tx payload module of
                  Some e \<Rightarrow> Some e
                | None \<Rightarrow> validateTxLoop env rt ctx txs)))"

definition validateTxsContext ::
    "'b runtime_env \<Rightarrow> 'b Runtime \<Rightarrow> ctx \<Rightarrow> Height \<Rightarrow> Header \<Rightarrow> Tx list \<Rightarrow> runtime_error option" where
  "validateTxsContext env rt goCtx height header txs =
     (case goCtx of
        Some e \<Rightarrow> Some (RtCtxError e)
      | None \<Rightarrow>
          let ctx = newContext rt goCtx height header in
          case (case rt_ante rt of
                  None \<Rightarrow> None
                | Some config \<Rightarrow>
                    CheckBlock (env_json env) (env_lib env) (iface_ops env) config ctx (xs_Store (checkState rt)) [] txs) of
            Some e \<Rightarrow> Some (RtAnteError e)
          | None \<Rightarrow> validateTxLoop env rt ctx txs)"

definition runtime_orderingSalt :: "'b Runtime \<Rightarrow> Height \<Rightarrow> bytes" where
  "runtime_orderingSalt rt height = HeightSalt (rt_chainID rt) height"

definition PrepareProposalContext ::
    "'b runtime_env \<Rightarrow> 'b Runtime \<Rightarrow> ctx \<Rightarrow> Height \<Rightarrow> Tx list \<Rightarrow> runtime_error + Tx list" where
  "PrepareProposalContext env rt goCtx height txs =
     (case goCtx of
        Some e \<Rightarrow> Inl (RtCtxError e)
      | None \<Rightarrow>
          let ordered = SortTxsWithSalt (env_tagJSON env) txs (runtime_orderingSalt rt height) in
          if ordered \<noteq> [] \<and> validateTxsContext env rt goCtx (rt_height rt) zero_header ordered = None then Inr ordered
          else
            Inr (SortTxsWithSalt (env_tagJSON env) (filter (\<lambda>tx. CheckTxContext env rt goCtx tx = None) ordered)
                  (runtime_orderingSalt rt height)))"

text \<open>Accepted is \<open>None\<close>; otherwise the reason.\<close>

definition ProcessProposalContext :: "'b runtime_env \<Rightarrow> 'b Runtime \<Rightarrow> ctx \<Rightarrow> Block \<Rightarrow> runtime_error option" where
  "ProcessProposalContext env rt goCtx block =
     (case goCtx of
        Some e \<Rightarrow> Some (RtCtxError e)
      | None \<Rightarrow>
          if \<not> IsOrderedWithSalt (env_tagJSON env) (blk_Txs block) (runtime_orderingSalt rt (hdr_Height (blk_Header block)))
          then Some ErrOrderingMismatch
          else validateTxsContext env rt goCtx (hdr_Height (blk_Header block)) (blk_Header block) (blk_Txs block))"

section \<open>Executing a block\<close>

definition collectTxEvents ::
    "AppContext \<Rightarrow> 'b iface exec_state \<Rightarrow> 'b AppModule \<Rightarrow> Tx \<Rightarrow> Result \<Rightarrow> Event list" where
  "collectTxEvents ctx st module tx result =
     (case mod_Events module of None \<Rightarrow> [] | Some emit \<Rightarrow> emit ctx st tx result)"

text \<open>What follows a successful delivery: the account of the transaction, gas and fee in the result.\<close>

definition afterDelivery ::
    "'b runtime_env \<Rightarrow> 'b Runtime \<Rightarrow> AppContext \<Rightarrow> 'b iface exec_state \<Rightarrow> Tx \<Rightarrow> Result \<Rightarrow>
     'b iface exec_state \<times> (runtime_error + Result)" where
  "afterDelivery env rt ctx st tx result =
     (case rt_ante rt of
        None \<Rightarrow> (st, Inr result)
      | Some config \<Rightarrow>
          (case AfterTx (env_json env) (iface_ops env) config (ac_Ctx ctx) (xs_Store st) tx of
             (store, Some e) \<Rightarrow> (st\<lparr>xs_Store := store\<rparr>, Inl (RtAnteError e))
           | (store, None) \<Rightarrow>
               let used = GasMeter_Used (xs_Gas st);
                   gasUsed = (if used = 0 then GasLimit (env_json env) tx else used);
                   feePaid = FeePaid (env_json env) tx;
                   data = (if res_Data result = []
                           then ''gas_used='' @ FormatUint gasUsed @ '' fee_paid='' @ FormatUint feePaid
                           else res_Data result)
               in (st\<lparr>xs_Store := store\<rparr>, Inr (result\<lparr>res_GasUsed := gasUsed, res_FeePaid := feePaid, res_Data := data\<rparr>))))"

fun deliverTxs ::
    "'b runtime_env \<Rightarrow> 'b Runtime \<Rightarrow> AppContext \<Rightarrow> 'b iface option \<Rightarrow> Tx list \<Rightarrow>
     'b iface option \<times> (runtime_error + (Result \<times> Event list) list)" where
  "deliverTxs env rt ctx store [] = (store, Inr [])"
| "deliverTxs env rt ctx store (tx # txs) =
     (case (case rt_ante rt of
              None \<Rightarrow> None
            | Some config \<Rightarrow> CheckTx (env_json env) (env_lib env) (iface_ops env) config ctx store tx) of
        Some e \<Rightarrow> (store, Inl (RtAnteError e))
      | None \<Rightarrow>
          let st = \<lparr>xs_Store = store,
                    xs_Gas = (case rt_ante rt of None \<Rightarrow> None | Some _ \<Rightarrow> Some (NewGasMeter (GasLimit (env_json env) tx)))\<rparr>;
              payload = TxPayload (env_json env) tx
          in case rt_router rt ctx payload (rt_modules rt) of
               Inl e \<Rightarrow> (store, Inl e)
             | Inr module \<Rightarrow>
                 (case mod_DeliverTx module ctx st payload of
                    (st, result) \<Rightarrow>
                      if res_Code result \<noteq> 0 then (xs_Store st, Inl (RtDeliverFailed (res_Log result)))
                      else
                        case afterDelivery env rt ctx st tx result of
                          (st, Inl e) \<Rightarrow> (xs_Store st, Inl e)
                        | (st, Inr result) \<Rightarrow>
                            (case deliverTxs env rt ctx (xs_Store st) txs of
                               (store, Inl e) \<Rightarrow> (store, Inl e)
                             | (store, Inr rest) \<Rightarrow>
                                 (store, Inr ((result, collectTxEvents ctx st module payload result) # rest)))))"

fun moduleLoop ::
    "('b AppModule \<Rightarrow> 'b iface exec_state \<Rightarrow> 'b iface exec_state \<times> string option) \<Rightarrow> 'b AppModule list \<Rightarrow>
     'b iface exec_state \<Rightarrow> 'b iface exec_state \<times> runtime_error option" where
  "moduleLoop f [] st = (st, None)"
| "moduleLoop f (m # ms) st =
     (case f m st of
        (st, Some e) \<Rightarrow> (st, Some (RtModuleError e))
      | (st, None) \<Rightarrow> moduleLoop f ms st)"

definition computeAppHashAtHeight ::
    "'b runtime_env \<Rightarrow> 'b Runtime \<Rightarrow> ctx \<Rightarrow> Height \<Rightarrow> 'b iface option \<Rightarrow> hash" where
  "computeAppHashAtHeight env rt ctx height store =
     sha256 (rt_chainID rt @ be64 height
       @ (case (case store of None \<Rightarrow> None | Some s \<Rightarrow> iface_Root env s) of
            None \<Rightarrow> []
          | Some root \<Rightarrow>
              concat (map (\<lambda>m. case root ctx (mod_Name m) of Inl _ \<Rightarrow> [] | Inr r \<Rightarrow> mod_Name m @ hash_bytes r)
                (rt_modules rt))))"

record FinalizeBlockResponse =
  fr_Results :: "Result list"
  fr_TxEvents :: "Event list list"
  fr_AppHash :: hash
  fr_ValidatorUpdates :: "ValidatorUpdate list"

definition finalizeBlockWithStore ::
    "'b runtime_env \<Rightarrow> 'b Runtime \<Rightarrow> ctx \<Rightarrow> Block \<Rightarrow> 'b iface option \<Rightarrow> bool \<Rightarrow>
     'b Runtime \<times> 'b iface option \<times> (runtime_error + FinalizeBlockResponse)" where
  "finalizeBlockWithStore env rt goCtx block store updateRuntime =
     (case goCtx of
        Some e \<Rightarrow> (rt, store, Inl (RtCtxError e))
      | None \<Rightarrow>
          case ProcessProposalContext env rt goCtx block of
            Some e \<Rightarrow> (rt, store, Inl (ErrProposalRejected e))
          | None \<Rightarrow>
              let header = blk_Header block;
                  ctx = newContext rt goCtx (hdr_Height header) header
              in case moduleLoop (\<lambda>m st. mod_BeginBlock m ctx st header) (rt_modules rt) \<lparr>xs_Store = store, xs_Gas = None\<rparr> of
                   (st, Some e) \<Rightarrow> (rt, xs_Store st, Inl e)
                 | (st, None) \<Rightarrow>
                     (case deliverTxs env rt ctx (xs_Store st) (blk_Txs block) of
                        (store, Inl e) \<Rightarrow> (rt, store, Inl e)
                      | (store, Inr delivered) \<Rightarrow>
                          let ctx = ctx\<lparr>ac_Block := Some block, ac_TxResults := map fst delivered\<rparr> in
                          (case moduleLoop (\<lambda>m st. mod_EndBlock m ctx st) (rt_modules rt) \<lparr>xs_Store = store, xs_Gas = None\<rparr> of
                             (st, Some e) \<Rightarrow> (rt, xs_Store st, Inl e)
                           | (st, None) \<Rightarrow>
                               (case (case xs_Store st of
                                        Some s \<Rightarrow>
                                          if iface_Root env s = None then (Some s, None)
                                          else (case IndexBlock env goCtx s (hdr_Height header) (map snd delivered) of
                                                  (s, e) \<Rightarrow> (Some s, e))
                                      | None \<Rightarrow> (None, None)) of
                                  (store, Some e) \<Rightarrow> (rt, store, Inl e)
                                | (store, None) \<Rightarrow>
                                    let appHash = computeAppHashAtHeight env rt goCtx (hdr_Height header) store;
                                        st = \<lparr>xs_Store = store, xs_Gas = None\<rparr>
                                    in (if updateRuntime then rt\<lparr>rt_height := hdr_Height header, rt_appHash := appHash\<rparr> else rt,
                                        store,
                                        Inr \<lparr>fr_Results = map fst delivered, fr_TxEvents = map snd delivered, fr_AppHash = appHash,
                                             fr_ValidatorUpdates =
                                               concat (map (\<lambda>m. case mod_ValidatorUpdates m of None \<Rightarrow> [] | Some f \<Rightarrow> f ctx st)
                                                 (rt_modules rt))\<rparr>)))))"

text \<open>Execution on the store of the runtime itself; the store is the same object.\<close>

definition FinalizeBlockContext ::
    "'b runtime_env \<Rightarrow> 'b Runtime \<Rightarrow> ctx \<Rightarrow> Block \<Rightarrow> 'b Runtime \<times> (runtime_error + FinalizeBlockResponse)" where
  "FinalizeBlockContext env rt goCtx block =
     (case finalizeBlockWithStore env rt goCtx block (map_option Inl (rt_store rt)) True of
        (rt, store, result) \<Rightarrow>
          (case store of Some (Inl b) \<Rightarrow> rt\<lparr>rt_store := Some b\<rparr> | _ \<Rightarrow> rt, result))"

definition FinalizeBlockStagedContext ::
    "'b runtime_env \<Rightarrow> 'b Runtime \<Rightarrow> ctx \<Rightarrow> Block \<Rightarrow>
     'b Runtime \<times> (runtime_error + FinalizeBlockResponse \<times> KVWrite list)" where
  "FinalizeBlockStagedContext env rt goCtx block =
     (case rt_store rt of
        None \<Rightarrow>
          (case finalizeBlockWithStore env rt goCtx block None True of
             (rt, _, Inl e) \<Rightarrow> (rt, Inl e)
           | (rt, _, Inr response) \<Rightarrow> (rt, Inr (response, [])))
      | Some b \<Rightarrow>
          (case finalizeBlockWithStore env rt goCtx block (Some (Inr (NewStagedStore (Some (env_view env b))))) False of
             (rt, _, Inl e) \<Rightarrow> (rt, Inl e)
           | (rt, store, Inr response) \<Rightarrow>
               (rt, Inr (response, case store of Some (Inr staged) \<Rightarrow> StagedStore_Writes staged | _ \<Rightarrow> []))))"

definition CommitStagedBlock :: "'b Runtime \<Rightarrow> Height \<Rightarrow> hash \<Rightarrow> 'b Runtime" where
  "CommitStagedBlock rt height appHash = rt\<lparr>rt_height := height, rt_appHash := appHash\<rparr>"

section \<open>The bank as a module\<close>

definition bank_module :: "'b runtime_env \<Rightarrow> BankModule \<Rightarrow> 'b AppModule" where
  "bank_module env module =
     \<lparr>mod_Name = ''bank'',
      mod_BeginBlock = (\<lambda>ctx st header. (st, None)),
      mod_DeliverTx = (\<lambda>ctx st tx. bank_DeliverTx (env_json env) (iface_ops env) module (ac_Ctx ctx) st tx),
      mod_EndBlock = (\<lambda>ctx st. (st, None)),
      mod_EstimateGas = Some (\<lambda>ctx st tx. case bank_EstimateGas tx of Inl e \<Rightarrow> Inl (bank_error_text e) | Inr g \<Rightarrow> Inr g),
      mod_ValidateTx = None,
      mod_ValidatorUpdates = None,
      mod_Events = None\<rparr>"


section \<open>A staged store behind the interface is a store\<close>

definition iface_ok :: "base_store \<Rightarrow> 'b iface \<Rightarrow> bool" where
  "iface_ok base s \<longleftrightarrow> base_ok base \<and> (\<exists>st. s = Inr st \<and> staged_inv base st)"

definition iface_contents :: "'b iface \<Rightarrow> contents" where
  "iface_contents s = (case s of Inl _ \<Rightarrow> (\<lambda>_ _. None) | Inr st \<Rightarrow> staged_contents st)"

lemma staged_inv_ok: "base_ok base \<Longrightarrow> staged_inv base st \<Longrightarrow> staged_ok st"
  by (auto simp: staged_inv_def staged_ok_def)

lemma stageLoop_live_inv:
  assumes "staged_inv base st" and "stageLoop st None ws = (st', e)"
  shows "e = None \<and> staged_inv base st' \<and> staged_contents st' = apply_writes (staged_contents st) ws"
  using stageLoop_inv [OF assms(1), of None ws] stageLoop_live [OF assms(2)] assms(2) by simp

interpretation iface: state_store "iface_ops env" "iface_ok base" iface_contents for env base
proof
  fix s :: "'a iface" and ns k :: string
  assume "iface_ok base s" and "ns \<noteq> []" and "k \<noteq> []"
  then show "op_Get (iface_ops env) s None ns k = lookup_result (iface_contents s ns k)"
    using staged.get by (fastforce simp: iface_ok_def iface_ops_def iface_contents_def staged_ops_def staged_inv_ok)
next
  fix s s' :: "'a iface" and ns k v :: string and e
  assume "iface_ok base s" and "op_Set (iface_ops env) s None ns k v = (s', e)"
  then show "e = None \<and> iface_ok base s' \<and> iface_contents s' =
      apply_write (iface_contents s) \<lparr>kw_Namespace = ns, kw_Key = k, kw_Value = v, kw_Delete = False\<rparr>"
    by (auto simp: iface_ok_def iface_ops_def iface_contents_def lift_store_def StagedStore_Set_def stage_contents stage_inv
        split: prod.splits if_splits) (simp_all add: staged_inv_def)
next
  fix s s' :: "'a iface" and ns k :: string and e
  assume "iface_ok base s" and "op_Delete (iface_ops env) s None ns k = (s', e)"
  then show "e = None \<and> iface_ok base s' \<and> iface_contents s' =
      apply_write (iface_contents s) \<lparr>kw_Namespace = ns, kw_Key = k, kw_Value = [], kw_Delete = True\<rparr>"
    by (auto simp: iface_ok_def iface_ops_def iface_contents_def lift_store_def StagedStore_Delete_def stage_contents stage_inv
        split: prod.splits if_splits) (simp_all add: staged_inv_def)
next
  fix s s' :: "'a iface" and f ws e
  assume s: "iface_ok base s" and f: "op_SetBatch (iface_ops env) s = Some f" and run: "f None ws = (s', e)"
  from s obtain st where st: "s = Inr st" "staged_inv base st" "base_ok base"
    by (auto simp: iface_ok_def)
  then have "sst_base st \<noteq> None"
    by (simp add: staged_inv_def)
  with st f run obtain st' where "stageLoop st None ws = (st', e)" "s' = Inr st'"
    by (auto simp: iface_ops_def lift_store_def StagedStore_SetBatch_def split: prod.splits)
  with stageLoop_live_inv [OF st(2)] st show "e = None \<and> iface_ok base s' \<and> iface_contents s' = apply_writes (iface_contents s) ws"
    by (auto simp: iface_ok_def iface_contents_def)
qed

section \<open>A block of transfers\<close>

text \<open>
  A transaction that is a transfer between two accounts and whose fee, if any, goes to a third party: it moves money and
  makes none.
\<close>

definition moves_only :: "envelope_codec \<Rightarrow> AnteConfig option \<Rightarrow> Tx \<Rightarrow> bool" where
  "moves_only json ante tx \<longleftrightarrow>
     (case bankTxParts (TxPayload json tx) of
        [m, a, f, t, x] \<Rightarrow> m = ''bank'' \<and> a = ''send'' \<and> balanceKey f \<noteq> balanceKey t
      | _ \<Rightarrow> False)
     \<and> (case ante of
          None \<Rightarrow> True
        | Some config \<Rightarrow> metaFeeBig (ParseTxMeta json tx) = 0
            \<or> balanceKey (am_Signer (ParseTxMeta json tx)) \<noteq> balanceKey (fee_collector config))"

lemma moves_only_parts:
  assumes "moves_only json ante tx"
  obtains f t x where "bankTxParts (TxPayload json tx) = [''bank'', ''send'', f, t, x]" "balanceKey f \<noteq> balanceKey t"
  using assms unfolding moves_only_def by (auto split: list.splits)

lemma supply_transferred:
  assumes "finite {k. L k \<noteq> 0}" and "balanceKey f \<noteq> balanceKey t"
  shows "total_supply (transferred L f t x) = total_supply L"
  using supply_transfer [OF assms] by (auto simp: transferred_def transfer_error_def split: if_splits)

context state_store
begin

lemma delivery_supply:
  assumes "ok s" and "bank_ok (contents s)" and "xs_Store st = Some s"
    and "moves_only json ante tx"
    and "bank_DeliverTx json ops module None st (TxPayload json tx) = (st', res)"
  shows "\<exists>u. xs_Store st' = Some u \<and> ok u \<and> bank_ok (contents u)
    \<and> total_supply (ledger (contents u)) = total_supply (ledger (contents s))"
proof -
  obtain f t x where p: "bankTxParts (TxPayload json tx) = [''bank'', ''send'', f, t, x]" "balanceKey f \<noteq> balanceKey t"
    using assms(4) by (rule moves_only_parts)
  note tr = supply_transferred [OF ledger_finite [OF assms(2)] p(2)]
  from DeliverTx_send [OF assms(1-3) p(1) assms(5)] show ?thesis
    using tr by (auto split: if_splits)
qed

lemma after_supply:
  assumes "ok s" and "bank_ok (contents s)" and "moves_only json (Some config) tx"
    and "AfterTx json ops config None (Some s) tx = (s', None)"
  shows "\<exists>u. s' = Some u \<and> ok u \<and> bank_ok (contents u)
    \<and> total_supply (ledger (contents u)) = total_supply (ledger (contents s))"
proof -
  have "total_supply (fee_moved config (ParseTxMeta json tx) (ledger (contents s))) = total_supply (ledger (contents s))"
    using assms(3) supply_transferred [OF ledger_finite [OF assms(2)]]
    by (auto simp: fee_moved_def moves_only_def)
  with AfterTx_ledger [OF assms(1,2,4)] show ?thesis
    by auto
qed

end

lemma PrefixRouter_one: "PrefixRouter ctx tx [m] = Inr m' \<Longrightarrow> m' = m"
  by (auto simp: PrefixRouter_def split: option.splits prod.splits if_splits)

lemma deliverTxs_supply:
  assumes "rt_modules rt = [bank_module env bm]" and "rt_router rt = PrefixRouter" and "ac_Ctx ctx = None"
    and "list_all (moves_only (env_json env) (rt_ante rt)) txs"
    and "iface_ok base s" and "bank_ok (iface_contents s)"
    and "deliverTxs env rt ctx (Some s) txs = (store, Inr delivered)"
  shows "\<exists>u. store = Some u \<and> iface_ok base u \<and> bank_ok (iface_contents u)
    \<and> total_supply (ledger (iface_contents u)) = total_supply (ledger (iface_contents s))
    \<and> length delivered = length txs \<and> list_all (\<lambda>d. snd d = []) delivered"
  using assms(4-7)
proof (induction txs arbitrary: s delivered)
  case (Cons tx txs)
  let ?st = "\<lparr>xs_Store = Some s,
      xs_Gas = (case rt_ante rt of None \<Rightarrow> None | Some _ \<Rightarrow> Some (NewGasMeter (GasLimit (env_json env) tx)))\<rparr>"
  let ?p = "TxPayload (env_json env) tx"
  have mv: "moves_only (env_json env) (rt_ante rt) tx"
    using Cons.prems(1) by simp
  obtain m where m: "rt_router rt ctx ?p (rt_modules rt) = Inr m"
    using Cons.prems(4) by (auto simp: Let_def split: option.splits sum.splits)
  then have mb: "m = bank_module env bm"
    using assms(1,2) PrefixRouter_one by metis
  obtain st1 res where d: "bank_DeliverTx (env_json env) (iface_ops env) bm None ?st ?p = (st1, res)"
    by (cases "bank_DeliverTx (env_json env) (iface_ops env) bm None ?st ?p")
  then have dm: "mod_DeliverTx m ctx ?st ?p = (st1, res)"
    by (simp add: mb bank_module_def assms(3))
  from iface.delivery_supply [OF Cons.prems(2,3) _ mv d] obtain u where u: "xs_Store st1 = Some u" "iface_ok base u"
      "bank_ok (iface_contents u)" "total_supply (ledger (iface_contents u)) = total_supply (ledger (iface_contents s))"
    by auto
  obtain st2 r where a: "afterDelivery env rt ctx st1 tx res = (st2, r)"
    by (cases "afterDelivery env rt ctx st1 tx res")
  with Cons.prems(4) m dm obtain res' rest where r: "r = Inr res'"
      "deliverTxs env rt ctx (xs_Store st2) txs = (store, Inr rest)" "delivered = (res', collectTxEvents ctx st2 m ?p res') # rest"
    by (auto simp: Let_def split: option.splits sum.splits if_splits prod.splits)
  have "\<exists>v. xs_Store st2 = Some v \<and> iface_ok base v \<and> bank_ok (iface_contents v)
      \<and> total_supply (ledger (iface_contents v)) = total_supply (ledger (iface_contents s))"
  proof (cases "rt_ante rt")
    case None
    with a r u show ?thesis
      by (auto simp: afterDelivery_def)
  next
    case (Some config)
    obtain s2 e where af: "AfterTx (env_json env) (iface_ops env) config None (Some u) tx = (s2, e)"
      by (cases "AfterTx (env_json env) (iface_ops env) config None (Some u) tx")
    with a r u(1) Some have "e = None" "xs_Store st2 = s2"
      by (auto simp: afterDelivery_def assms(3) Let_def split: option.splits)
    with iface.after_supply [OF u(2,3) mv [unfolded Some]] af u(4) show ?thesis
      by auto
  qed
  then obtain v where v: "xs_Store st2 = Some v" "iface_ok base v" "bank_ok (iface_contents v)"
      "total_supply (ledger (iface_contents v)) = total_supply (ledger (iface_contents s))"
    by blast
  have "list_all (moves_only (env_json env) (rt_ante rt)) txs"
    using Cons.prems(1) by simp
  from Cons.IH [OF this v(2,3) r(2) [unfolded v(1)]] v(4) r(3) show ?case
    by (auto simp: collectTxEvents_def mb bank_module_def)
qed auto

section \<open>Finalizing with the bank as the only module\<close>

lemma IndexBlock_none:
  assumes "list_all (\<lambda>evs. evs = []) txEvents"
  shows "IndexBlock env ctx s height txEvents = (s, None)"
proof -
  have "evs = []" if "(i, evs) \<in> set (enumerate 0 txEvents)" for i evs
    using assms that by (auto simp: in_set_enumerate_eq list_all_length)
  then have "concat (map (\<lambda>(txIndex, events). map (Pair txIndex) events) (enumerate 0 txEvents)) = []"
    by auto
  then show ?thesis
    by (simp only: IndexBlock_def indexEvents.simps sum.case if_True simp_thms)
qed

abbreviation block_context :: "'b Runtime \<Rightarrow> Block \<Rightarrow> AppContext" where
  "block_context rt block \<equiv> newContext rt None (hdr_Height (blk_Header block)) (blk_Header block)"

lemma bank_module_simps [simp]:
  "mod_Name (bank_module env bm) = ''bank''"
  "mod_BeginBlock (bank_module env bm) ctx st header = (st, None)"
  "mod_EndBlock (bank_module env bm) ctx st = (st, None)"
  "mod_ValidateTx (bank_module env bm) = None"
  "mod_ValidatorUpdates (bank_module env bm) = None"
  "mod_Events (bank_module env bm) = None"
  "mod_DeliverTx (bank_module env bm) ctx st tx = bank_DeliverTx (env_json env) (iface_ops env) bm (ac_Ctx ctx) st tx"
  "mod_EstimateGas (bank_module env bm) =
     Some (\<lambda>ctx st tx. case bank_EstimateGas tx of Inl e \<Rightarrow> Inl (bank_error_text e) | Inr g \<Rightarrow> Inr g)"
  by (simp_all add: bank_module_def)

lemma finalize_success:
  assumes "rt_modules rt = [bank_module env bm]" and "rt_store rt = Some b"
    and "ProcessProposalContext env rt None block = None"
    and "deliverTxs env rt (block_context rt block) (Some (Inr (NewStagedStore (Some (env_view env b))))) (blk_Txs block) =
         (Some (Inr st), Inr delivered)"
    and "list_all (\<lambda>d. snd d = []) delivered"
  shows "\<exists>response. FinalizeBlockStagedContext env rt None block = (rt, Inr (response, StagedStore_Writes st))
    \<and> fr_Results response = map fst delivered"
proof -
  have "list_all (\<lambda>evs. evs = []) (map snd delivered)"
    using assms(5) by (simp add: list_all_iff)
  note ix = IndexBlock_none [OF this, of env None "Inr st" "hdr_Height (blk_Header block)"]
  show ?thesis
    unfolding FinalizeBlockStagedContext_def finalizeBlockWithStore_def Let_def
    by (simp add: assms iface_Root_def ix)
qed

lemma finalize_failure:
  assumes "rt_modules rt = [bank_module env bm]" and "rt_store rt = Some b"
    and "ProcessProposalContext env rt None block = None"
    and "deliverTxs env rt (block_context rt block) (Some (Inr (NewStagedStore (Some (env_view env b))))) (blk_Txs block) =
         (store, Inl e)"
  shows "FinalizeBlockStagedContext env rt None block = (rt, Inl e)"
  unfolding FinalizeBlockStagedContext_def finalizeBlockWithStore_def Let_def by (simp add: assms)

lemma finalize_delivered:
  assumes "rt_modules rt = [bank_module env bm]" and "rt_store rt = Some b"
    and "FinalizeBlockStagedContext env rt None block = (rt', Inr out)"
  obtains store delivered where
    "deliverTxs env rt (block_context rt block) (Some (Inr (NewStagedStore (Some (env_view env b))))) (blk_Txs block) =
       (store, Inr delivered)"
    and "ProcessProposalContext env rt None block = None"
proof (cases "ProcessProposalContext env rt None block")
  case None
  obtain store r where d: "deliverTxs env rt (block_context rt block) (Some (Inr (NewStagedStore (Some (env_view env b)))))
      (blk_Txs block) = (store, r)"
    by (cases "deliverTxs env rt (block_context rt block) (Some (Inr (NewStagedStore (Some (env_view env b))))) (blk_Txs block)")
  show ?thesis
  proof (cases r)
    case (Inl e)
    with finalize_failure [OF assms(1,2) None] d assms(3) show ?thesis
      by simp
  next
    case (Inr delivered)
    with d None show ?thesis
      using that by simp
  qed
next
  case (Some e)
  with assms(2,3) show ?thesis
    by (simp add: FinalizeBlockStagedContext_def finalizeBlockWithStore_def)
qed


section \<open>Concrete blocks\<close>

text \<open>A database that holds one balance, 49 for account \<open>a\<close>, and is not written to.\<close>

definition ex_db_ops :: "base_store store_ops" where
  "ex_db_ops = \<lparr>op_Get = bs_Get, op_Set = (\<lambda>s _ _ _ _. (s, Some (StoreError ''read only''))),
     op_Delete = (\<lambda>s _ _ _. (s, Some (StoreError ''read only''))), op_SetBatch = (\<lambda>_. None)\<rparr>"

definition ex_app_env :: "ed25519_lib \<Rightarrow> base_store runtime_env" where
  "ex_app_env lib = \<lparr>env_tagJSON = (\<lambda>_. None), env_json = ex_envelope_codec, env_lib = lib, env_ops = ex_db_ops, env_view = id,
     env_marshalRecord = (\<lambda>_ _ _. Inr [])\<rparr>"

definition ex_strict_config :: AnteConfig where
  "ex_strict_config = \<lparr>an_MinFee = 0, an_BaseFee = 0, an_MinGas = 0, an_MaxGas = 0, an_RequireNonce = False, an_FeeCollector = [],
     an_RequireSigned = True, an_SignatureVerifier = None\<rparr>"

definition ex_runtime :: "ed25519_lib \<Rightarrow> AnteConfig \<Rightarrow> base_store Runtime" where
  "ex_runtime lib config = \<lparr>rt_chainID = ''c'', rt_evmChainID = 0, rt_modules = [bank_module (ex_app_env lib) \<lparr>bm_mintAuthority = []\<rparr>],
     rt_router = PrefixRouter, rt_ante = Some config, rt_store = Some ex_base, rt_height = 0, rt_appHash = zero_hash,
     rt_baseFee = 0, rt_blobBaseFee = 0\<rparr>"

definition ex_tx_block :: "Tx \<Rightarrow> Block" where
  "ex_tx_block tx = \<lparr>blk_Header = ex_app_header, blk_Txs = [tx]\<rparr>"

definition ex_forged_tx :: Tx where
  "ex_forged_tx = ''bank:send:a:b:7:eth_raw=1:eth_hash=1:gas=10''"

lemma ex_app_env_simps [simp]:
  "env_json (ex_app_env lib) = ex_envelope_codec" "env_lib (ex_app_env lib) = lib" "env_view (ex_app_env lib) = id"
  by (simp_all add: ex_app_env_def)

lemma ex_runtime_simps [simp]:
  "rt_modules (ex_runtime lib config) = [bank_module (ex_app_env lib) \<lparr>bm_mintAuthority = []\<rparr>]"
  "rt_router (ex_runtime lib config) = PrefixRouter" "rt_ante (ex_runtime lib config) = Some config"
  "rt_store (ex_runtime lib config) = Some ex_base"
  by (simp_all add: ex_runtime_def)

lemma ordered_one: "IsOrderedWithSalt json [tx] salt"
proof -
  have "mset (SortTxsWithSalt json [tx] salt) = {#tx#}"
    by (simp add: SortTxsWithSalt_mset)
  then show ?thesis
    by (simp add: IsOrderedWithSalt_iff)
qed

lemma ex_staged_ok:
  "iface_ok ex_base (Inr (NewStagedStore (Some ex_base)))"
  "iface_contents (Inr (NewStagedStore (Some ex_base))) = staged_contents ex_bank_store"
  by (auto simp: iface_ok_def ex_base_ok staged_inv_New iface_contents_def ex_bank_store_def)

lemma ex_ten: "ParseUint ''10'' = Some 10"
proof -
  have "''10'' = FormatUint 10"
    using digit_values by (simp add: FormatUint_def formatDec.simps [of 10] formatDec.simps [of "Suc 0"])
  then show ?thesis
    by (simp only: ParseUint_FormatUint)
qed

lemma ex_forged_unsigned: "\<not> IsSignedTx ex_forged_tx"
  by (simp add: IsSignedTx_def signedTxPrefix_def ex_forged_tx_def)

lemma ex_forged_tags: "TxTag json ex_forged_tx k = map_of [(''eth_raw'', ''1''), (''eth_hash'', ''1''), (''gas'', ''10'')] k"
  unfolding TxTag_def ParseCanonicalTx_def TxPayload_unsigned [OF ex_forged_unsigned]
  by (simp add: ex_forged_tx_def cutOn_def Let_def)

lemma ex_forged_meta:
  "ParseTxMeta json ex_forged_tx = \<lparr>am_Signer = [], am_Nonce = 0, am_Fee = 0, am_FeeBig = None, am_Gas = 10, am_HasNonce = False\<rparr>"
  "isEthereumRawTx json ex_forged_tx"
  by (simp_all add: ParseTxMeta_def TxUintTag_def TxAmountBigTag_def ex_forged_tags ex_ten isEthereumRawTx_def)

lemma ex_forged_parts: "bankTxParts ex_forged_tx = [''bank'', ''send'', ''a'', ''b'', ''7'']"
  by (simp add: bankTxParts_def ex_forged_tx_def)

lemma ex_forged_check: "CheckTx json lib ops ex_strict_config ctx store ex_forged_tx = None"
  by (simp add: CheckTx_def verifySignature_def ex_forged_unsigned ex_forged_tags validateMetaForTx_def ex_forged_meta
      ex_strict_config_def)

lemma ex_forged_route: "mod_Name m = ''bank'' \<Longrightarrow> PrefixRouter ctx ex_forged_tx [m] = Inr m"
  by (simp add: PrefixRouter_def cutOn_def ex_forged_tx_def)

lemma ex_accepted:
  assumes "\<And>ctx. CheckBlock ex_envelope_codec lib (iface_ops (ex_app_env lib)) config ctx (Some (Inl ex_base)) [] [tx] = None"
    and "\<not> IsSignedTx tx" and "\<And>ctx (m :: base_store AppModule). mod_Name m = ''bank'' \<Longrightarrow> PrefixRouter ctx tx [m] = Inr m"
    and "bank_EstimateGas tx = Inr 10" and "10 \<le> GasLimit ex_envelope_codec tx"
  shows "validateTxsContext (ex_app_env lib) (ex_runtime lib config) None height header [tx] = None"
    and "ProcessProposalContext (ex_app_env lib) (ex_runtime lib config) None (ex_tx_block tx) = None"
    and "PrepareProposalContext (ex_app_env lib) (ex_runtime lib config) None height [tx] = Inr [tx]"
proof -
  have "validateTxLoop (ex_app_env lib) (ex_runtime lib config) ctx [tx] = None" for ctx
    using assms(5) by (simp add: TxPayload_unsigned [OF assms(2)] assms(3,4) validateModuleTx_def checkEstimatedGas_def
        Let_def not_less)
  then show v: "validateTxsContext (ex_app_env lib) (ex_runtime lib config) None height header [tx] = None" for height header
    using assms(1) by (simp add: validateTxsContext_def checkState_def Let_def del: CheckBlock.simps validateTxLoop.simps)
  then show "ProcessProposalContext (ex_app_env lib) (ex_runtime lib config) None (ex_tx_block tx) = None"
    by (simp add: ProcessProposalContext_def ordered_one ex_tx_block_def)
  have "SortTxsWithSalt json [tx] salt = [tx]" for json salt
    using ordered_one by (simp add: IsOrderedWithSalt_iff)
  with v show "PrepareProposalContext (ex_app_env lib) (ex_runtime lib config) None height [tx] = Inr [tx]"
    by (simp add: PrepareProposalContext_def)
qed

lemma ex_forged_gas: "GasLimit json ex_forged_tx = 10" "bank_EstimateGas ex_forged_tx = Inr 10"
  by (simp_all add: GasLimit_def ex_forged_meta bank_EstimateGas_def ex_forged_parts)

lemma ex_forged_process: "ProcessProposalContext (ex_app_env lib) (ex_runtime lib ex_strict_config) None (ex_tx_block ex_forged_tx) = None"
proof (rule ex_accepted(2))
  fix ctx
  show "CheckBlock ex_envelope_codec lib (iface_ops (ex_app_env lib)) ex_strict_config ctx (Some (Inl ex_base)) []
      [ex_forged_tx] = None"
    by (simp add: verifySignature_def ex_forged_unsigned ex_forged_tags validateMetaForTx_def ex_forged_meta ex_strict_config_def)
qed (simp_all add: ex_forged_unsigned ex_forged_gas ex_forged_route)

lemma ex_ledger: "ledger (staged_contents ex_bank_store) = (\<lambda>k. if k = ''a'' then 49 else 0)"
  by (auto simp: ledger_def ex_bank_contents be_nat_def fun_eq_iff)

lemma ex_forged_delivery:
  "\<exists>st res. deliverTxs (ex_app_env lib) (ex_runtime lib ex_strict_config) ctx (Some (Inr (NewStagedStore (Some ex_base)))) [ex_forged_tx] =
      (Some (Inr st), Inr [(res, [])]) \<and> staged_inv ex_base st
      \<and> ledger (staged_contents st) = (\<lambda>k. 0)(''a'' := 42, ''b'' := 7)"
  if "ac_Ctx ctx = None"
proof -
  let ?s = "Inr (NewStagedStore (Some ex_base)) :: base_store iface"
  let ?st = "\<lparr>xs_Store = Some ?s, xs_Gas = Some (NewGasMeter 10)\<rparr>"
  let ?run = "bank_DeliverTx ex_envelope_codec (iface_ops (ex_app_env lib)) \<lparr>bm_mintAuthority = []\<rparr> None ?st ex_forged_tx"
  obtain st1 res where run: "?run = (st1, res)"
    by (cases ?run)
  have gas: "snd (ConsumeGas ?st 10)"
    by (simp add: ConsumeGas_def GasMeter_Consume_def NewGasMeter_def)
  have ok: "transfer_error (ledger (iface_contents ?s)) ''a'' ''b'' 7 = None"
    by (simp add: transfer_error_def ex_staged_ok ex_ledger ex_bank_keys)
  obtain u where u: "xs_Store st1 = Some u" "iface_ok ex_base u" "res_Code res = 0"
      "ledger (iface_contents u) = transferred (ledger (iface_contents ?s)) ''a'' ''b'' 7"
    using iface.DeliverTx_send [OF ex_staged_ok(1) _ _ ex_forged_parts run] ex_bank_ok(2) gas ok
    by (auto simp: ex_staged_ok ex_parse)
  then obtain st where st: "u = Inr st" "staged_inv ex_base st"
    by (auto simp: iface_ok_def)
  have after: "AfterTx ex_envelope_codec (iface_ops (ex_app_env lib)) ex_strict_config None (Some u) ex_forged_tx = (Some u, None)"
    by (simp add: AfterTx_def ex_forged_meta)
  have "\<exists>st2 res2. afterDelivery (ex_app_env lib) (ex_runtime lib ex_strict_config) ctx st1 ex_forged_tx res = (st2, Inr res2)
      \<and> xs_Store st2 = Some u"
    by (simp add: afterDelivery_def that u(1) after Let_def)
  then obtain st2 res2 where a:
      "afterDelivery (ex_app_env lib) (ex_runtime lib ex_strict_config) ctx st1 ex_forged_tx res = (st2, Inr res2)" "xs_Store st2 = Some u"
    by blast
  have "deliverTxs (ex_app_env lib) (ex_runtime lib ex_strict_config) ctx (Some ?s) [ex_forged_tx] = (Some (Inr st), Inr [(res2, [])])"
    using run by (simp add: ex_forged_check TxPayload_unsigned [OF ex_forged_unsigned] ex_forged_route ex_forged_gas u(3) a st(1)
        collectTxEvents_def that)
  moreover have "ledger (staged_contents st) = (\<lambda>k. 0)(''a'' := 42, ''b'' := 7)"
    using u(4) st(1) ok by (auto simp: iface_contents_def transferred_def ex_bank_store_def [symmetric] ex_ledger ex_bank_keys fun_eq_iff)
  ultimately show ?thesis
    using st(2) by blast
qed

text \<open>
  C29: The signature requirement can be skipped.  Although the configuration requires signed transactions, and whatever
  signatures the library accepts, an unsigned transfer of somebody else's money that carries the two tags \<^verbatim>\<open>eth_raw\<close>
  and \<^verbatim>\<open>eth_hash\<close> is admitted and executed: it moves the money.
\<close>

theorem forged_transfer_executed:
  "CheckTxContext (ex_app_env lib) (ex_runtime lib ex_strict_config) None ex_forged_tx = None
   \<and> an_RequireSigned ex_strict_config \<and> \<not> IsSignedTx ex_forged_tx
   \<and> ledger (base_contents ex_base) = (\<lambda>k. 0)(''a'' := 49)
   \<and> (\<exists>response writes. FinalizeBlockStagedContext (ex_app_env lib) (ex_runtime lib ex_strict_config) None (ex_tx_block ex_forged_tx) =
         (ex_runtime lib ex_strict_config, Inr (response, writes))
       \<and> ledger (apply_writes (base_contents ex_base) writes) = (\<lambda>k. 0)(''a'' := 42, ''b'' := 7))"
proof (intro conjI)
  show "CheckTxContext (ex_app_env lib) (ex_runtime lib ex_strict_config) None ex_forged_tx = None"
    by (simp add: CheckTxContext_def ex_forged_check TxPayload_unsigned [OF ex_forged_unsigned] ex_forged_route validateModuleTx_def
        checkEstimatedGas_def ex_forged_gas Let_def)
  show "ledger (base_contents ex_base) = (\<lambda>k. 0)(''a'' := 49)"
    by (auto simp: ledger_def base_contents_def ex_base_def be_nat_def fun_eq_iff)
  let ?rt = "ex_runtime lib ex_strict_config" and ?b = "ex_tx_block ex_forged_tx"
  obtain st res where d: "deliverTxs (ex_app_env lib) ?rt (block_context ?rt ?b) (Some (Inr (NewStagedStore (Some ex_base)))) [ex_forged_tx] =
        (Some (Inr st), Inr [(res, [])])" and st: "staged_inv ex_base st"
      "ledger (staged_contents st) = (\<lambda>k. 0)(''a'' := 42, ''b'' := 7)"
    using ex_forged_delivery [of "block_context ?rt ?b" lib] by (auto simp: newContext_def)
  obtain response where "FinalizeBlockStagedContext (ex_app_env lib) ?rt None ?b = (?rt, Inr (response, sst_writes st))"
    using finalize_success [OF ex_runtime_simps(1) ex_runtime_simps(4) ex_forged_process, of lib st "[(res, [])]"] d
    by (auto simp: ex_tx_block_def StagedStore_Writes_def)
  with st show "\<exists>response writes. FinalizeBlockStagedContext (ex_app_env lib) ?rt None ?b = (?rt, Inr (response, writes))
      \<and> ledger (apply_writes (base_contents ex_base) writes) = (\<lambda>k. 0)(''a'' := 42, ''b'' := 7)"
    by (auto simp: staged_inv_def)
qed (simp_all add: ex_strict_config_def ex_forged_unsigned)


text \<open>A transfer from an account without money.\<close>

definition ex_poor_tx :: Tx where
  "ex_poor_tx = ''bank:send:b:a:7''"

definition ex_open_config :: AnteConfig where
  "ex_open_config = ex_strict_config\<lparr>an_RequireSigned := False\<rparr>"

lemma ex_poor_unsigned: "\<not> IsSignedTx ex_poor_tx"
  by (simp add: IsSignedTx_def signedTxPrefix_def ex_poor_tx_def)

lemma ex_poor_tags: "TxTag json ex_poor_tx k = None"
  unfolding TxTag_def ParseCanonicalTx_def TxPayload_unsigned [OF ex_poor_unsigned]
  by (simp add: ex_poor_tx_def cutOn_def Let_def)

lemma ex_poor_meta:
  "ParseTxMeta json ex_poor_tx = \<lparr>am_Signer = [], am_Nonce = 0, am_Fee = 0, am_FeeBig = None, am_Gas = 0, am_HasNonce = False\<rparr>"
  "\<not> isEthereumRawTx json ex_poor_tx"
  by (simp_all add: ParseTxMeta_def TxUintTag_def TxAmountBigTag_def ex_poor_tags isEthereumRawTx_def)

lemma ex_poor_parts: "bankTxParts ex_poor_tx = [''bank'', ''send'', ''b'', ''a'', ''7'']"
  by (simp add: bankTxParts_def ex_poor_tx_def)

lemma ex_poor_gas: "GasLimit json ex_poor_tx = 15" "bank_EstimateGas ex_poor_tx = Inr 10"
proof -
  have "length ex_poor_tx = 15"
    by (simp add: ex_poor_tx_def)
  then show "GasLimit json ex_poor_tx = 15"
    by (simp add: GasLimit_def ex_poor_meta)
qed (simp add: bank_EstimateGas_def ex_poor_parts)

lemma ex_poor_check:
  "CheckTx json lib ops ex_open_config ctx store ex_poor_tx = None"
  "CheckBlock json lib ops ex_open_config ctx store [] [ex_poor_tx] = None"
  by (simp_all add: CheckTx_def verifySignature_def ex_poor_unsigned ex_poor_tags validateMetaForTx_def validateMeta_def ex_poor_meta
      ex_open_config_def ex_strict_config_def)

lemma ex_poor_route: "mod_Name m = ''bank'' \<Longrightarrow> PrefixRouter ctx ex_poor_tx [m] = Inr m"
  by (simp add: PrefixRouter_def cutOn_def ex_poor_tx_def)

lemma ex_poor_delivery:
  assumes "ac_Ctx ctx = None"
  shows "\<exists>store. deliverTxs (ex_app_env lib) (ex_runtime lib ex_open_config) ctx (Some (Inr (NewStagedStore (Some ex_base)))) [ex_poor_tx] =
    (store, Inl (RtDeliverFailed ''insufficient funds''))"
proof -
  let ?s = "Inr (NewStagedStore (Some ex_base)) :: base_store iface"
  obtain s1 e where run: "send (iface_ops (ex_app_env lib)) (Some ?s) None ''b'' ''a'' 7 = (s1, e)"
    by (cases "send (iface_ops (ex_app_env lib)) (Some ?s) None ''b'' ''a'' 7")
  have "e = Some ErrInsufficientFunds"
    using iface.send_ledger [OF ex_staged_ok(1) _ run] ex_bank_ok(2)
    by (simp add: ex_staged_ok transfer_error_def ex_ledger ex_bank_keys)
  with run show ?thesis
    by (simp add: ex_poor_check TxPayload_unsigned [OF ex_poor_unsigned] ex_poor_route ex_poor_gas assms bank_DeliverTx_def
        ex_poor_parts ex_parse bank_result_def ConsumeGas_def GasMeter_Consume_def NewGasMeter_def bank_error_text_def)
qed

text \<open>
  C30: A block that every check accepts may not execute.  A transfer from an account without money passes the transaction
  check, is proposed, and its proposal is accepted; executing the block then fails as a whole, because the delivery of the
  transaction does.
\<close>

theorem accepted_block_cannot_execute:
  "CheckTxContext (ex_app_env lib) (ex_runtime lib ex_open_config) None ex_poor_tx = None
   \<and> PrepareProposalContext (ex_app_env lib) (ex_runtime lib ex_open_config) None 1 [ex_poor_tx] = Inr [ex_poor_tx]
   \<and> ProcessProposalContext (ex_app_env lib) (ex_runtime lib ex_open_config) None (ex_tx_block ex_poor_tx) = None
   \<and> FinalizeBlockStagedContext (ex_app_env lib) (ex_runtime lib ex_open_config) None (ex_tx_block ex_poor_tx) =
        (ex_runtime lib ex_open_config, Inl (RtDeliverFailed ''insufficient funds''))"
proof -
  let ?rt = "ex_runtime lib ex_open_config" and ?b = "ex_tx_block ex_poor_tx"
  have "10 \<le> GasLimit ex_envelope_codec ex_poor_tx"
    by (simp add: ex_poor_gas)
  note v = ex_accepted [OF ex_poor_check(2) ex_poor_unsigned ex_poor_route ex_poor_gas(2) this, of lib]
  obtain store where d: "deliverTxs (ex_app_env lib) ?rt (block_context ?rt ?b) (Some (Inr (NewStagedStore (Some ex_base)))) [ex_poor_tx] =
      (store, Inl (RtDeliverFailed ''insufficient funds''))"
    using ex_poor_delivery [of "block_context ?rt ?b" lib] by (auto simp: newContext_def)
  have "FinalizeBlockStagedContext (ex_app_env lib) ?rt None ?b = (?rt, Inl (RtDeliverFailed ''insufficient funds''))"
    using finalize_failure [OF ex_runtime_simps(1) ex_runtime_simps(4) v(2)] d by (simp add: ex_tx_block_def)
  moreover have "CheckTxContext (ex_app_env lib) ?rt None ex_poor_tx = None"
    by (simp add: CheckTxContext_def ex_poor_check TxPayload_unsigned [OF ex_poor_unsigned] ex_poor_route validateModuleTx_def
        checkEstimatedGas_def ex_poor_gas Let_def)
  ultimately show ?thesis
    using v by blast
qed

end
