(* ===== verification/Spec2Isabelle.thy ===== *)
theory Spec2Isabelle
  imports EvidenceSlashing Economics ConsensusSafety Certificates AppRuntime
begin

text \<open>
  A verification development of the Vexo consensus node (Go).  The program is a BFT blockchain node: validators propose
  blocks, vote, collect votes into quorum certificates and commit by a three-chain rule; evidence of faults leads to
  penalties; light clients verify finality proofs; an application with modules executes the committed blocks on a
  key-value store.  The definitions are translations of the Go code, the theorems are about them.

  \<^bold>\<open>How code is represented.\<close>  An unsigned 64-bit integer is a 64-bit word, so that wrap-around is the code's; byte slices
  and strings are strings; a hash is a 256-bit word and \<^verbatim>\<open>crypto/sha256\<close> is defined, not assumed.  A struct is a
  record with a prefix per field, a Go map an association list, a nil-able value an option, an interface a record of functions
  or a function.  Code that changes its receiver takes and returns the state; code that changes state and then fails returns
  both the state and the error.  A context is \<^verbatim>\<open>None\<close> while it is live and the error once it is done.
  Parameters stand for what is not in the repository: JSON encoders, the order in which a map is ranged over, the Ed25519
  primitives, the database, floating-point slash fractions.  Mutexes are not represented: every handler is one step.

  \<^bold>\<open>Foundations.\<close>
  \<^item> \<^verbatim>\<open>Prelude\<close>: types, byte encodings, maps, word lemmas.  \<^verbatim>\<open>GoStrings\<close>: the string functions the code uses.
    \<^verbatim>\<open>Sha256\<close>: the hash function.
  \<^item> \<^verbatim>\<open>VexoTypes\<close> (\<^verbatim>\<open>types/types.go\<close>): headers, blocks, checked addition, the quorum test, shown to be the exact comparison
    with two thirds without overflow.
  \<^item> \<^verbatim>\<open>Encoding\<close> (\<^verbatim>\<open>signbytes\<close>, \<^verbatim>\<open>consensus/hash.go\<close>, \<^verbatim>\<open>consensus/signbytes.go\<close>, \<^verbatim>\<open>crypto/domain.go\<close>, \<^verbatim>\<open>finality/proof.go\<close>):
    what is hashed and signed, and when it is unambiguous.
  \<^item> \<^verbatim>\<open>Signatures\<close> (\<^verbatim>\<open>crypto/ed25519.go\<close>, \<^verbatim>\<open>crypto/deterministic.go\<close>): the locale \<^verbatim>\<open>signature_scheme\<close> states what certificates
    need of a scheme; both schemes of the code are instances.

  \<^bold>\<open>Validators and penalties.\<close>
  \<^item> \<^verbatim>\<open>Validator\<close>, \<^verbatim>\<open>Registry\<close> (\<^verbatim>\<open>validator/*.go\<close>): sets, proposer selection, the versioned registry.  The registry refines an
    abstract one, and a change never alters the past.
  \<^item> \<^verbatim>\<open>Slashing\<close> (\<^verbatim>\<open>slashing/keeper.go\<close>): evidence, penalties, jail; evidence is charged once.
  \<^item> \<^verbatim>\<open>EvidenceProofs\<close> (\<^verbatim>\<open>consensus/evidence.go\<close>), \<^verbatim>\<open>EvidenceSlashing\<close> (\<^verbatim>\<open>consensus/slashing.go\<close>): every kind of evidence, its
    construction and verification, and the penalty in the registry.  A voter that signs one vote per round is not slashed.

  \<^bold>\<open>Consensus.\<close>
  \<^item> \<^verbatim>\<open>BlockTree\<close> (\<^verbatim>\<open>block_tree.go\<close>, \<^verbatim>\<open>commit_rule.go\<close>, \<^verbatim>\<open>internal/safety/commit_index.go\<close>), \<^verbatim>\<open>Timeout\<close> (\<^verbatim>\<open>timeout.go\<close>,
    \<^verbatim>\<open>pacemaker.go\<close>), \<^verbatim>\<open>StateMachine\<close> (\<^verbatim>\<open>state_machine.go\<close>, \<^verbatim>\<open>driver.go\<close>).
  \<^item> \<^verbatim>\<open>MachineInvariant\<close>: the reachable machines, an inductive predicate over all handlers, and their invariant.
    \<^verbatim>\<open>ConsensusSafety\<close>: one certificate per round, consistent and irrevocable commits, certificates backed by votes, and
    executions on the four validators of \<^verbatim>\<open>ExampleNetwork\<close> in which the protocol does not keep what its documents promise.
  \<^item> \<^verbatim>\<open>Finality\<close> (\<^verbatim>\<open>finality/*.go\<close>): the light-client verifier decides a declarative definition; conflicting proofs expose a
    third of the power.  \<^verbatim>\<open>Certificates\<close> and this theory connect the machine that builds certificates, the client that verifies
    them and the slashing that punishes equivocation.

  \<^bold>\<open>Data and proofs.\<close>
  \<^item> \<^verbatim>\<open>Merkle\<close> (the locale \<^verbatim>\<open>merkle_tree\<close>), \<^verbatim>\<open>StateProof\<close> (\<^verbatim>\<open>stateproof\<close>, \<^verbatim>\<open>queryproof\<close>), \<^verbatim>\<open>DataAvailability\<close>: complete and binding
    proofs, up to an exhibited hash collision.

  \<^bold>\<open>Application.\<close>
  \<^item> \<^verbatim>\<open>Economics\<close> (\<^verbatim>\<open>economics/*.go\<close>), \<^verbatim>\<open>TxMeta\<close> (\<^verbatim>\<open>mempool/priority.go\<close>, \<^verbatim>\<open>mempool/hash.go\<close>), \<^verbatim>\<open>FairOrdering\<close>
    (\<^verbatim>\<open>fairordering\<close>): amounts, tags, and an order of transactions that does not depend on how they arrived.
  \<^item> \<^verbatim>\<open>Address\<close> (\<^verbatim>\<open>address/*.go\<close>), \<^verbatim>\<open>Transactions\<close> (\<^verbatim>\<open>app/canonical_tx.go\<close>, \<^verbatim>\<open>app/signed_tx.go\<close>): round trips.
  \<^item> \<^verbatim>\<open>Storage\<close> (\<^verbatim>\<open>app/staged_store.go\<close>): the locale \<^verbatim>\<open>state_store\<close> is the contract of a store; the staged store satisfies it, and
    its list of writes reproduces exactly what it reads.
  \<^item> \<^verbatim>\<open>Accounts\<close> (\<^verbatim>\<open>app/gas.go\<close>, \<^verbatim>\<open>app/account.go\<close>), \<^verbatim>\<open>Bank\<close> (\<^verbatim>\<open>modules/bank/bank.go\<close>), \<^verbatim>\<open>Ante\<close> (\<^verbatim>\<open>app/ante.go\<close>): operations over any
    store that satisfies the contract; transfers and fees move money on an abstract ledger, transactions are not replayed.
  \<^item> \<^verbatim>\<open>AppRuntime\<close> (\<^verbatim>\<open>app/runtime.go\<close>, \<^verbatim>\<open>app/router.go\<close>, \<^verbatim>\<open>events/events.go\<close>): checking, proposing and executing blocks; a block of
    transfers conserves the supply.

  \<^bold>\<open>Loops.\<close>  Most loops are structural or have a measure.  The ancestor walk of the block tree could run forever on a cyclic
  parent relation; it has fuel for two steps more than there are blocks, and \<^verbatim>\<open>ancestor_walk_exact\<close> shows that in a tree that
  insertion builds it always returns.  The sampling loop of data availability repeats until enough indices are drawn and is a
  partial function; it is shown to return when its hash stream yields enough indices before the counter wraps.

  \<^bold>\<open>What fails.\<close>  Some theorems state that the code does not do what it should: certificates in proposals are not verified,
  honest validators with delayed messages can finalize conflicting blocks, proofs are not bound to their header, absence proofs
  can be forged, honest proposers can be framed, charged evidence can be replayed, a transfer to oneself creates money,
  two tags replace a signature, and a block that is accepted may not execute.

  \<^bold>\<open>Not modelled.\<close>  Network transports, RPC, the command line, configuration, node loops and write-ahead logs are I/O and
  concurrency.  LevelDB, geth, BLS and VRF are third-party code behind wrappers.  Reed-Solomon recovery in
  \<^verbatim>\<open>dataavailability\<close>, committee selection, governance, upgrades, IBC, staking, the mempool queues and the
  stored variants of registry and slashing keeper are outside the path from transactions to finality that is covered here.
  Of the runtime, \<^verbatim>\<open>InitChain\<close>, queries, store binding and replay clones are left out, and a module is a function of the
  store: state that a module keeps in its own object is not represented.
\<close>

section \<open>A certificate travels from a validator to a light client\<close>

text \<open>Fixtures: one validator with an Ed25519 key, over a library that accepts every signature.\<close>

definition ex_key :: bytes where
  "ex_key = replicate 32 CHR ''k''"

definition ex_ed_sig :: Signature where
  "ex_ed_sig = replicate 64 CHR ''s''"

definition ex_lib :: ed25519_lib where
  "ex_lib = \<lparr>lib_Public = \<lambda>_. ex_key, lib_Sign = \<lambda>_ _. ex_ed_sig, lib_Verify = \<lambda>_ _ _. True\<rparr>"

definition ex_signer :: Validator where
  "ex_signer = \<lparr>val_ID = ''a'', val_Address = ''a'', val_PublicKey = ex_key, val_VotingPower = 1, val_Stake = 1,
     val_Metadata = None\<rparr>"

definition ex_signers :: setSnapshot where
  "ex_signers = newSetSnapshot [ex_signer]"

lemma ex_signers_Get: "Set_Get ex_signers i = (if i = ''a'' then Some ex_signer else None)"
  by (simp add: ex_signers_def Set_Get_def newSetSnapshot_def index_by_ID_def ex_signer_def)

lemma ex_signers_total: "Set_TotalVotingPower ex_signers = 1"
  by (simp add: ex_signers_def Set_TotalVotingPower_def newSetSnapshot_def MustAddVotingPowerSaturating_def
      AddVotingPower_cases ex_signer_def)

lemma ex_signers_wf: "snapshot_wf ex_signers"
  by (simp add: ex_signers_def newSetSnapshot_wf list_power_def ex_signer_def)

lemma ex_ed_verifies: "Ed25519Signer_Verify ex_lib ex_key m ex_ed_sig"
  by (simp add: Ed25519Signer_Verify_def ex_lib_def ex_key_def ex_ed_sig_def PublicKeySize_def SignatureSize_def)

lemma ex_ed_aggregate: "Ed25519SignatureAggregator_Aggregate [ex_ed_sig] = Inr ex_ed_sig"
  by (simp add: Ed25519SignatureAggregator_Aggregate_def CombineEd25519Signatures_def ex_ed_sig_def SignatureSize_def)

definition ex_ed_vote :: "hash \<Rightarrow> Vote" where
  "ex_ed_vote b = \<lparr>vote_Height = 1, vote_Round = 0, vote_BlockHash = b, vote_ValidatorID = ''a'',
     vote_Signature = ex_ed_sig\<rparr>"

definition ex_ed_cert :: "hash \<Rightarrow> QuorumCert" where
  "ex_ed_cert b = \<lparr>qc_Height = 1, qc_Round = 0, qc_BlockHash = b, qc_Signers = ''a'', qc_Signature = ex_ed_sig,
     qc_VotingPower = 1\<rparr>"

definition ex_ed_config :: StateMachineConfig where
  "ex_ed_config = \<lparr>cfg_ChainID = ''vexo'', cfg_ValidatorSet = Some ex_signers, cfg_HashBlock = Some ex_hashBlock,
     cfg_Signatures = Some (Ed25519Signer_Verify ex_lib), cfg_Aggregator = Some Ed25519SignatureAggregator_Aggregate,
     cfg_EnforceProposerSelection = True\<rparr>"

text \<open>The machine learns block \<open>11\<close>, then votes for it.\<close>

definition ex_ed_machine :: StateMachine where
  "ex_ed_machine = fst (OnVote ex_ext (fst (ObserveCommittedBlock (projr (NewStateMachine ex_ed_config))
     (ex_block 1 0 11) (ex_ed_cert 11))) None (ex_ed_vote 11))"

definition ex_ed_keys :: key_history where
  "ex_ed_keys i pk \<longleftrightarrow> pk = ex_key"

lemma ex_ed_new: "NewStateMachine ex_ed_config = Inr (projr (NewStateMachine ex_ed_config))"
  "sm_validatorSet (projr (NewStateMachine ex_ed_config)) = ex_signers"
  by (simp_all add: NewStateMachine_def ex_ed_config_def)

lemma ex_ed_reachable: "reachable ex_ed_keys ex_ed_machine"
  unfolding ex_ed_machine_def
proof (intro reach_step [OF _ step_vote] reach_step [OF _ step_observe] reach_init [OF ex_ed_new(1)])
  show "set_ok ex_ed_keys (sm_validatorSet (projr (NewStateMachine ex_ed_config)))"
    by (auto simp: ex_ed_new(2) set_ok_def ex_signers_wf ex_signers_Get ex_ed_keys_def ex_signer_def split: if_splits)
qed

lemma ex_ed_verify_vote:
  assumes "sm_signatures m = Some (Ed25519Signer_Verify ex_lib)" and "sm_validatorSet m = ex_signers"
  shows "verifyVoteSignature m (ex_ed_vote b) = None"
  using assms ex_ed_verifies
  by (simp add: verifyVoteSignature_def verifyConsensusSignature_def ex_signers_Get ex_ed_vote_def ex_signer_def
      DomainMessage_def DomainConsensusVote_def ex_ed_sig_def)

lemmas eval_ed = NewStateMachine_def ex_ed_config_def NewTimeoutCollectorWithAggregator_def NewPacemaker_def
  NewBlockTree_def NewCommitIndex_def ObserveCommittedBlock_def ex_ed_cert_def ex_ed_verify_vote [unfolded ex_ed_vote_def] ex_ed_vote_def
  ex_signers_Get ex_signers_total

lemma ex_ed_fields:
  "sm_validatorSet ex_ed_machine = ex_signers" "sm_signatures ex_ed_machine = Some (Ed25519Signer_Verify ex_lib)"
  "sm_aggregator ex_ed_machine = Some Ed25519SignatureAggregator_Aggregate"
  "sm_votes ex_ed_machine 1 0 11 = [(''a'', ex_ed_vote 11)]"
  unfolding ex_ed_machine_def
  by (simp_all add: eval_ed eval_tree insertBlock_def updateLockedQC_def OnVote_def validateVote_def
      isSafeVoteTarget_def recordVote_def certifyVotes_def Let_def ensureVoteSignature_def
      split: sum.splits option.splits prod.splits)

lemma ex_ed_build: "buildQuorumCert ex_ed_machine 1 0 11 = Inr (ex_ed_cert 11)"
  by (simp add: buildQuorumCert_def votesForBlock_def ex_ed_fields ex_signers_Get ex_signers_total certify_def
      hasQuorum_def HasTwoThirdsQuorum_iff AddVotingPower_cases allSignaturesPresent_def ex_ed_aggregate
      ex_ed_cert_def ex_ed_vote_def ex_signer_def Let_def) (simp add: ex_ed_sig_def)

text \<open>
  C6: What a validator certifies a light client accepts.  With Ed25519, when a reachable machine builds a
  certificate, a verifier for the machine's validator set accepts it for the height, round and block it was
  built for, provided validators did not change their keys and their names have no comma and are not empty.
\<close>

theorem machine_certificates_verify:
  assumes "reachable K m" and "sm_signatures m = Some (Ed25519Signer_Verify lib)"
    and "sm_aggregator m = Some Ed25519SignatureAggregator_Aggregate"
    and "keys_fixed K (sm_validatorSet m)" and "names_ok (sm_validatorSet m)"
    and "buildQuorumCert m h r b = Inr qc"
  shows "verifyQuorumCert (NewVerifier (sm_validatorSet m) (Some (ed25519_aggregate_verifier lib))) None qc h b
     (signbytes_Vote h r b) = None"
  using assms by (rule ed25519.certificate_verifies)

theorem machine_certificates_verify_witness:
  "verifyQuorumCert (NewVerifier ex_signers (Some (ed25519_aggregate_verifier ex_lib))) None (ex_ed_cert 11) 1 11
     (signbytes_Vote 1 0 11) = None"
proof -
  have "keys_fixed ex_ed_keys ex_signers" "names_ok ex_signers"
    by (auto simp: keys_fixed_def names_ok_def ex_ed_keys_def ex_signers_Get ex_signer_def signer_ok_def split: if_splits)
  then show ?thesis
    using machine_certificates_verify [OF ex_ed_reachable, of ex_lib 1 0 11 "ex_ed_cert 11"]
    by (simp add: ex_ed_fields ex_ed_build)
qed
section \<open>From conflicting certificates to slashing\<close>

text \<open>A fixture codec for pairs of votes: numbers in unary, byte strings behind their length.\<close>

definition put :: "nat \<Rightarrow> string \<Rightarrow> string" where
  "put n rest = replicate n CHR ''1'' @ CHR ''0'' # rest"

definition get_num :: "string \<Rightarrow> nat \<times> string" where
  "get_num s = (let n = length (takeWhile ((=) CHR ''1'') s) in (n, drop (Suc n) s))"

definition put_vote :: "Vote \<Rightarrow> string \<Rightarrow> string" where
  "put_vote v rest = put (unat (vote_Height v)) (put (unat (vote_Round v)) (put (unat (vote_BlockHash v))
     (put (length (vote_ValidatorID v)) (vote_ValidatorID v @ put (length (vote_Signature v)) (vote_Signature v @ rest)))))"

definition get_vote :: "string \<Rightarrow> Vote \<times> string" where
  "get_vote s = (case get_num s of (h, s) \<Rightarrow> case get_num s of (r, s) \<Rightarrow> case get_num s of (b, s) \<Rightarrow>
     case get_num s of (n, s) \<Rightarrow> case get_num (drop n s) of (k, s') \<Rightarrow>
       (\<lparr>vote_Height = of_nat h, vote_Round = of_nat r, vote_BlockHash = of_nat b, vote_ValidatorID = take n s,
         vote_Signature = take k s'\<rparr>, drop k s'))"

lemma get_put [simp]: "get_num (put n rest) = (n, rest)"
  by (simp add: get_num_def put_def takeWhile_append)

lemma get_put_vote [simp]: "get_vote (put_vote v rest) = (v, rest)"
  by (simp add: get_vote_def put_vote_def)

lemma put_vote_nonempty: "put_vote v rest \<noteq> []"
  by (simp add: put_vote_def put_def)

definition ex_votes_ext :: Externals where
  "ex_votes_ext = ex_ext\<lparr>ext_marshalVotes := \<lambda>x y. Inr (put_vote x (put_vote y []))\<rparr>"

definition ex_votes_env :: EvidenceEnv where
  "ex_votes_env = ex_env\<lparr>env_decodeVotes := \<lambda>bs. case get_vote bs of (x, bs) \<Rightarrow>
     case get_vote bs of (y, _) \<Rightarrow> Inr \<lparr>cvp_First = x, cvp_Second = y\<rparr>\<rparr>"

text \<open>What the codec of vote evidence has to do: write every pair of votes, and read back what it wrote.\<close>

definition votes_codec :: "Externals \<Rightarrow> EvidenceEnv \<Rightarrow> bool" where
  "votes_codec ext env \<longleftrightarrow> (\<forall>x y. \<exists>bs. ext_marshalVotes ext x y = Inr bs \<and> bs \<noteq> []
     \<and> env_decodeVotes env bs = Inr \<lparr>cvp_First = x, cvp_Second = y\<rparr>)"

lemma ex_votes_codec: "votes_codec ex_votes_ext ex_votes_env"
  by (simp add: votes_codec_def ex_votes_ext_def ex_votes_env_def put_vote_nonempty)

lemma conflict_evidence:
  assumes "votes_codec ext env" and "vote_ValidatorID x = vote_ValidatorID y" "vote_Height x = vote_Height y"
    "vote_Round x = vote_Round y" "vote_BlockHash x \<noteq> vote_BlockHash y"
    and "signed_by (evr_Verify v) (val_PublicKey info) DomainConsensusVote (VoteSignBytes x) (vote_Signature x)"
    and "signed_by (evr_Verify v) (val_PublicKey info) DomainConsensusVote (VoteSignBytes y) (vote_Signature y)"
  shows "\<exists>bs. bs \<noteq> [] \<and> NewConflictingVoteEvidence ext x y = Inr \<lparr>evd_Type = EvidenceConflictingVote,
      evd_Validator = vote_ValidatorID y, evd_Height = vote_Height y, evd_Round = vote_Round y, evd_Proof = bs\<rparr>
    \<and> (\<forall>s c. verifyConsensusEvidence env \<lparr>evd_Type = EvidenceConflictingVote, evd_Validator = vote_ValidatorID y,
      evd_Height = vote_Height y, evd_Round = vote_Round y, evd_Proof = bs\<rparr> s info (Some v) c = None)"
proof -
  from assms(1) obtain bs where bs: "ext_marshalVotes ext x y = Inr bs" "bs \<noteq> []"
    "env_decodeVotes env bs = Inr \<lparr>cvp_First = x, cvp_Second = y\<rparr>"
    unfolding votes_codec_def by blast
  have "verifyConsensusEvidence env \<lparr>evd_Type = EvidenceConflictingVote, evd_Validator = vote_ValidatorID y,
      evd_Height = vote_Height y, evd_Round = vote_Round y, evd_Proof = bs\<rparr> s info (Some v) c = None" for s c
    by (rule verifyVoteCase_accepts [of _ _ x y]) (use assms bs in simp_all)
  with assms bs show ?thesis
    by (intro exI [of _ bs]) (simp add: NewConflictingVoteEvidence_def)
qed


lemma authentic_signed_by:
  assumes "authentic K (Some verify) domain i sb sig" and "sig \<noteq> []" and "\<And>pk. K i pk \<Longrightarrow> pk = key"
  shows "signed_by verify key domain sb sig"
  using assms by (auto simp: authentic_def signed_by_def)


text \<open>The registry entry of a validator of the example network, and the keeper beside it.\<close>

definition ex_equivocator :: Validator where
  "ex_equivocator = ex_accused\<lparr>val_ID := ''v1'', val_PublicKey := ''v1''\<rparr>"

definition ex_v1_registry :: InMemoryRegistry where
  "ex_v1_registry = \<lparr>reg_policy = None, reg_validators = [(''v1'', ex_equivocator)], reg_effectiveHeight = 1,
     reg_versions = [\<lparr>ver_height = 1, ver_validators = [(''v1'', ex_equivocator)],
                      ver_hash = hashValidators [ex_equivocator]\<rparr>], reg_events = []\<rparr>"

lemma ex_v1_new: "NewInMemoryRegistry None [ex_equivocator] = Inr ex_v1_registry"
  by (simp add: NewInMemoryRegistry_def recordVersion_def snapshot_def sortedValidatorMap_def sortedValidators_def
      index_by_ID_def toMap_def Set_List_def Set_Hash_def ex_accused_def ex_equivocator_def ex_v1_registry_def Let_def)

lemma ex_v1_at: "Set_Get (snapshotAt ex_v1_registry 1) = [''v1'' \<mapsto> ex_equivocator]"
  unfolding Set_Get_snapshotAt [OF NewInMemoryRegistry_inv [OF ex_v1_new]]
  by (auto simp: reg_at_def selectVersion_def ex_v1_registry_def)


end
